(* ===== verification/Go_Prelude.thy ===== *)
theory Go_Prelude
  imports Complex_Main
begin

text \<open>
  Shared vocabulary of the development: what the components use of the Go language and of its
  standard library, and the generic lemmas the component theories rest on.

  A Go \<open>string\<close> is a sequence of bytes, so it is modelled by \<^typ>\<open>string\<close>, a list of 8-bit
  \<^typ>\<open>char\<close>s; text outside ASCII appears as its UTF-8 bytes. The functions of package
  \<open>strings\<close> below (\<open>HasPrefix\<close>, \<open>Index\<close>, \<open>Contains\<close>, \<open>TrimSpace\<close>, \<open>Fields\<close>, \<open>SplitN\<close>,
  \<open>ReplaceAll\<close>, \<open>ToLower\<close>, \<open>Join\<close>) act on those bytes. Instants are nanoseconds
  (\<^typ>\<open>int\<close>); an operation that reads \<open>time.Now()\<close> takes the instant as an argument. A Go map is
  a partial function; an operation that ranges over a map takes the iteration order, which Go
  leaves open, as an argument constrained by \<open>range_order\<close>.
\<close>

section \<open>Collections of the development\<close>

named_theorems gostr \<open>characterisations of the string functions\<close>
named_theorems frame \<open>what an operation leaves unchanged\<close>
named_theorems opdefs \<open>unfolding rules of the small operations\<close>

type_synonym instant = int
type_synonym duration = int

abbreviation second :: duration where "second \<equiv> 1000000000"
abbreviation minute :: duration where "minute \<equiv> 60000000000"
abbreviation hour :: duration where "hour \<equiv> 3600000000000"

section \<open>Strings as byte sequences\<close>

fun has_prefix :: "'a list \<Rightarrow> 'a list \<Rightarrow> bool" where
  "has_prefix s [] = True"
| "has_prefix [] (c # p) = False"
| "has_prefix (d # s) (c # p) = (c = d \<and> has_prefix s p)"

definition has_suffix :: "'a list \<Rightarrow> 'a list \<Rightarrow> bool" where
  "has_suffix s p = has_prefix (rev s) (rev p)"

definition trim_prefix :: "'a list \<Rightarrow> 'a list \<Rightarrow> 'a list" where
  "trim_prefix s p = (if has_prefix s p then drop (length p) s else s)"

definition trim_suffix :: "'a list \<Rightarrow> 'a list \<Rightarrow> 'a list" where
  "trim_suffix s p = (if has_suffix s p then take (length s - length p) s else s)"

text \<open>\<open>strings.Index\<close>: the least offset at which the pattern occurs, \<open>-1\<close> being \<^const>\<open>None\<close>.\<close>

fun index_of :: "'a list \<Rightarrow> 'a list \<Rightarrow> nat option" where
  "index_of [] p = (if p = [] then Some 0 else None)"
| "index_of (c # s) p =
     (if has_prefix (c # s) p then Some 0 else map_option Suc (index_of s p))"

definition contains :: "'a list \<Rightarrow> 'a list \<Rightarrow> bool" where
  "contains s p = (index_of s p \<noteq> None)"

text \<open>
  \<open>strings.ReplaceAll\<close> for a non-empty \<open>old\<close>: leftmost, non-overlapping replacement. Every call in
  the sources has a non-empty \<open>old\<close>; for the empty one the model leaves the text alone.
\<close>

function replace_all :: "'a list \<Rightarrow> 'a list \<Rightarrow> 'a list \<Rightarrow> 'a list" where
  "replace_all s old new =
     (if old = [] then s
      else case s of
        [] \<Rightarrow> []
      | c # cs \<Rightarrow>
          (if has_prefix s old then new @ replace_all (drop (length old) s) old new
           else c # replace_all cs old new))"
  by pat_completeness auto
termination
  by (relation "measure (\<lambda>(s, old, new). length s)") auto

declare replace_all.simps [simp del]

text \<open>
  White space as \<open>unicode.IsSpace\<close> has it: the UTF-8 encodings of all code points with the property.
\<close>

definition space_codes :: "string list" where
  "space_codes =
     [[CHR 0x09], [CHR 0x0A], [CHR 0x0B], [CHR 0x0C], [CHR 0x0D], [CHR 0x20],
      [CHR 0xC2, CHR 0x85], [CHR 0xC2, CHR 0xA0], [CHR 0xE1, CHR 0x9A, CHR 0x80],
      [CHR 0xE2, CHR 0x80, CHR 0x80], [CHR 0xE2, CHR 0x80, CHR 0x81],
      [CHR 0xE2, CHR 0x80, CHR 0x82], [CHR 0xE2, CHR 0x80, CHR 0x83],
      [CHR 0xE2, CHR 0x80, CHR 0x84], [CHR 0xE2, CHR 0x80, CHR 0x85],
      [CHR 0xE2, CHR 0x80, CHR 0x86], [CHR 0xE2, CHR 0x80, CHR 0x87],
      [CHR 0xE2, CHR 0x80, CHR 0x88], [CHR 0xE2, CHR 0x80, CHR 0x89],
      [CHR 0xE2, CHR 0x80, CHR 0x8A], [CHR 0xE2, CHR 0x80, CHR 0xA8],
      [CHR 0xE2, CHR 0x80, CHR 0xA9], [CHR 0xE2, CHR 0x80, CHR 0xAF],
      [CHR 0xE2, CHR 0x81, CHR 0x9F], [CHR 0xE3, CHR 0x80, CHR 0x80]]"

text \<open>The number of bytes of the white-space rune a text starts with, if it starts with one.\<close>

definition space_width :: "string list \<Rightarrow> string \<Rightarrow> nat option" where
  "space_width codes s = map_option length (find (has_prefix s) codes)"

function trim_left_codes :: "string list \<Rightarrow> string \<Rightarrow> string" where
  "trim_left_codes codes s =
     (case space_width codes s of
        Some n \<Rightarrow> if n = 0 \<or> s = [] then s else trim_left_codes codes (drop n s)
      | None \<Rightarrow> s)"
  by pat_completeness auto
termination
  by (relation "measure (\<lambda>(codes, s). length s)") auto

declare trim_left_codes.simps [simp del]

definition trim_left :: "string \<Rightarrow> string" where
  "trim_left s = trim_left_codes space_codes s"

definition trim_right :: "string \<Rightarrow> string" where
  "trim_right s = rev (trim_left_codes (map rev space_codes) (rev s))"

definition trim_space :: "string \<Rightarrow> string" where
  "trim_space s = trim_right (trim_left s)"

text \<open>\<open>strings.Fields\<close>: the maximal runs of bytes between white space, scanned left to right.\<close>

function fields_from :: "string \<Rightarrow> string \<Rightarrow> string list" where
  "fields_from cur s =
     (case s of
        [] \<Rightarrow> (if cur = [] then [] else [cur])
      | c # cs \<Rightarrow>
          (case space_width space_codes s of
             Some n \<Rightarrow>
               (if cur = [] then [] else [cur]) @ fields_from [] (drop (max 1 n) s)
           | None \<Rightarrow> fields_from (cur @ [c]) cs))"
  by pat_completeness auto
termination
  by (relation "measure (\<lambda>(cur, s). length s)") auto

declare fields_from.simps [simp del]

definition str_fields :: "string \<Rightarrow> string list" where
  "str_fields s = fields_from [] s"

text \<open>\<open>strings.SplitN(s, sep, 2)\<close> and \<open>strings.Split\<close> for a one-byte separator, and \<open>strings.Join\<close>.\<close>

fun cut :: "'a \<Rightarrow> 'a list \<Rightarrow> 'a list \<times> 'a list option" where
  "cut sep [] = ([], None)"
| "cut sep (c # s) =
     (if c = sep then ([], Some s) else (case cut sep s of (a, b) \<Rightarrow> (c # a, b)))"

definition split_n2 :: "'a \<Rightarrow> 'a list \<Rightarrow> 'a list list" where
  "split_n2 sep s = (case cut sep s of (a, None) \<Rightarrow> [a] | (a, Some b) \<Rightarrow> [a, b])"

fun split_on :: "'a \<Rightarrow> 'a list \<Rightarrow> 'a list list" where
  "split_on sep [] = [[]]"
| "split_on sep (c # s) =
     (if c = sep then [] # split_on sep s
      else (case split_on sep s of [] \<Rightarrow> [[c]] | w # ws \<Rightarrow> (c # w) # ws))"

fun join :: "'a list \<Rightarrow> 'a list list \<Rightarrow> 'a list" where
  "join sep [] = []"
| "join sep [w] = w"
| "join sep (w # v # ws) = w @ sep @ join sep (v # ws)"

definition is_ascii :: "char \<Rightarrow> bool" where
  "is_ascii c = (of_char c < (128 :: nat))"

definition ascii_lower :: "char \<Rightarrow> char" where
  "ascii_lower c =
     (let n = of_char c :: nat in if 65 \<le> n \<and> n \<le> 90 then char_of (n + 32) else c)"

text \<open>
  \<open>strings.ToLower\<close>: an ASCII text is lowered byte by byte, as in the library's own fast path; any
  other text goes through the Unicode case tables, which are the argument \<open>ucase\<close>.
\<close>

definition to_lower :: "(string \<Rightarrow> string) \<Rightarrow> string \<Rightarrow> string" where
  "to_lower ucase s = (if list_all is_ascii s then map ascii_lower s else ucase s)"

text \<open>\<open>%d\<close> of package \<open>fmt\<close>.\<close>

function show_nat :: "nat \<Rightarrow> string" where
  "show_nat n =
     (if n < 10 then [char_of (48 + n)] else show_nat (n div 10) @ [char_of (48 + n mod 10)])"
  by pat_completeness auto
termination
  by (relation "measure id") auto

declare show_nat.simps [simp del]

definition show_int :: "int \<Rightarrow> string" where
  "show_int i = (if i < 0 then CHR ''-'' # show_nat (nat (- i)) else show_nat (nat i))"

text \<open>\<open>string\<close> conversion of a byte list given by its codes, for UTF-8 literals of the sources.\<close>

definition utf8 :: "nat list \<Rightarrow> string" where
  "utf8 ns = map char_of ns"

text \<open>
  Well-formed UTF-8, as package \<open>unicode/utf8\<close> defines it: for a leading byte outside ASCII, the
  range of the second byte and the number of further continuation bytes.
\<close>

definition utf8_lead :: "nat \<Rightarrow> (nat \<times> nat \<times> nat) option" where
  "utf8_lead b =
     (if 194 \<le> b \<and> b \<le> 223 then Some (128, 191, 0)
      else if b = 224 then Some (160, 191, 1)
      else if b = 237 then Some (128, 159, 1)
      else if 225 \<le> b \<and> b \<le> 239 then Some (128, 191, 1)
      else if b = 240 then Some (144, 191, 2)
      else if 241 \<le> b \<and> b \<le> 243 then Some (128, 191, 2)
      else if b = 244 then Some (128, 143, 2)
      else None)"

definition is_continuation :: "char \<Rightarrow> bool" where
  "is_continuation c = (128 \<le> (of_char c :: nat) \<and> (of_char c :: nat) \<le> 191)"

function valid_utf8 :: "string \<Rightarrow> bool" where
  "valid_utf8 [] = True"
| "valid_utf8 (c # s) =
     (if is_ascii c then valid_utf8 s
      else case utf8_lead (of_char c) of
        None \<Rightarrow> False
      | Some (lo, hi, n) \<Rightarrow>
          (case s of
             [] \<Rightarrow> False
           | c1 # s1 \<Rightarrow>
               lo \<le> (of_char c1 :: nat) \<and> (of_char c1 :: nat) \<le> hi \<and> n \<le> length s1 \<and>
               list_all is_continuation (take n s1) \<and> valid_utf8 (drop n s1)))"
  by pat_completeness auto
termination
  by (relation "measure length") auto

section \<open>Go maps\<close>

text \<open>
  \<open>range_order ks m\<close>: visiting the keys \<open>ks\<close> in turn is one of the iterations \<open>for k, v := range m\<close>
  may make. \<open>range_map\<close> is the sequence of entries such an iteration sees.
\<close>

definition range_order :: "'k list \<Rightarrow> ('k \<rightharpoonup> 'v) \<Rightarrow> bool" where
  "range_order ks m \<longleftrightarrow> distinct ks \<and> set ks = dom m"

definition range_map :: "'k list \<Rightarrow> ('k \<rightharpoonup> 'v) \<Rightarrow> ('k \<times> 'v) list" where
  "range_map ks m = List.map_filter (\<lambda>k. map_option (Pair k) (m k)) ks"

definition map_len :: "('k \<rightharpoonup> 'v) \<Rightarrow> nat" where
  "map_len m = card (dom m)"

section \<open>Slices\<close>

text \<open>
  Arithmetic on \<open>int\<close> wraps around at 64 bits; the sum of two slice bounds is the place where the
  sources can leave the range. \<open>slice xs a b\<close> is the slice expression \<open>xs[a:b]\<close>, which panics
  (\<^const>\<open>None\<close>) unless \<open>0 \<le> a \<le> b \<le> len\<close>.
\<close>

definition int64 :: "int \<Rightarrow> int" where
  "int64 x = (x + 2 ^ 63) mod 2 ^ 64 - 2 ^ 63"

definition slice :: "'a list \<Rightarrow> int \<Rightarrow> int \<Rightarrow> 'a list option" where
  "slice xs a b =
     (if 0 \<le> a \<and> a \<le> b \<and> b \<le> int (length xs) then Some (take (nat b - nat a) (drop (nat a) xs)) else None)"

text \<open>The zero \<open>time.Time\<close> is the origin of the instants.\<close>

definition is_zero_time :: "instant \<Rightarrow> bool" where
  "is_zero_time t \<longleftrightarrow> t = 0"

section \<open>Dynamic values\<close>

text \<open>\<open>any\<close> as \<open>encoding/json\<close> produces it, and the parameter maps \<open>map[string]any\<close>.\<close>

datatype jval =
    JNull
  | JBool bool
  | JNum rat
  | JStr string
  | JArr "jval list"
  | JObj "string \<rightharpoonup> jval"

type_synonym params = "string \<rightharpoonup> jval"

text \<open>\<open>v, _ := params[k].(string)\<close>: the zero value when the key is absent or not a string.\<close>

definition param_str :: "params \<Rightarrow> string \<Rightarrow> string" where
  "param_str ps k = (case ps k of Some (JStr s) \<Rightarrow> s | _ \<Rightarrow> [])"

text \<open>\<open>v, ok := params[k].(string)\<close>.\<close>

definition param_str_ok :: "params \<Rightarrow> string \<Rightarrow> string option" where
  "param_str_ok ps k = (case ps k of Some (JStr s) \<Rightarrow> Some s | _ \<Rightarrow> None)"

section \<open>Lemmas on strings\<close>

lemma has_prefix_iff [gostr]: "has_prefix s p \<longleftrightarrow> (\<exists>t. s = p @ t)"
  by (induction s p rule: has_prefix.induct) auto

lemma has_prefix_append [simp]: "has_prefix (p @ t) p"
  by (simp add: has_prefix_iff)

lemma has_prefix_self [simp]: "has_prefix p p"
  by (simp add: has_prefix_iff)

lemma has_prefix_take: "has_prefix s p \<Longrightarrow> take (length p) s = p"
  by (auto simp: has_prefix_iff)

lemma has_suffix_iff [gostr]: "has_suffix s p \<longleftrightarrow> (\<exists>t. s = t @ p)"
proof
  assume "has_suffix s p"
  then obtain t where "rev s = rev p @ t"
    by (auto simp: has_suffix_def has_prefix_iff)
  then have "rev (rev s) = rev t @ p"
    by simp
  then show "\<exists>t. s = t @ p"
    by auto
qed (auto simp: has_suffix_def)

lemma trim_prefix_append [simp]: "trim_prefix (p @ t) p = t"
  by (simp add: trim_prefix_def)

lemma index_of_Some: "index_of s p = Some i \<Longrightarrow> \<exists>u v. s = u @ p @ v \<and> length u = i"
proof (induction s p arbitrary: i rule: index_of.induct)
  case (2 c s p)
  show ?case
  proof (cases "has_prefix (c # s) p")
    case True
    with 2 show ?thesis by (auto simp: has_prefix_iff)
  next
    case False
    with 2(2) obtain j where j: "index_of s p = Some j" "i = Suc j" by auto
    from 2(1) [OF False j(1)] obtain u v where "s = u @ p @ v" "length u = j" by blast
    then have "c # s = (c # u) @ p @ v \<and> length (c # u) = i"
      using j(2) by simp
    then show ?thesis by blast
  qed
qed (auto split: if_splits)

lemma index_of_None: "index_of s p = None \<Longrightarrow> s \<noteq> u @ p @ v"
proof (induction s p arbitrary: u rule: index_of.induct)
  case (2 c s p)
  show ?case
  proof (cases u)
    case Nil
    with 2 show ?thesis by (auto simp: has_prefix_iff)
  next
    case (Cons d u')
    with 2 show ?thesis by (auto split: if_splits)
  qed
qed (auto split: if_splits)

text \<open>\<open>strings.Index\<close> finds the first occurrence: no occurrence starts before the one returned.\<close>

lemma index_of_least: "index_of (u @ p @ v) p = Some i \<Longrightarrow> i \<le> length u"
proof (induction u arbitrary: i)
  case Nil
  then show ?case
  proof (cases "p @ v")
    case (Cons c s)
    then have "has_prefix (c # s) p"
      by (metis has_prefix_append)
    with Nil Cons show ?thesis by simp
  qed auto
next
  case (Cons c u)
  then show ?case
    by (auto split: if_splits)
qed

lemma contains_iff [gostr]: "contains s p \<longleftrightarrow> (\<exists>u v. s = u @ p @ v)"
  unfolding contains_def
  using index_of_Some index_of_None by (metis not_None_eq)

lemma contains_append: "contains (u @ p @ v) p"
  by (auto simp: contains_iff)

lemma replace_all_Nil [simp]: "replace_all [] old new = []"
  by (simp add: replace_all.simps [of "[]"])

lemma replace_all_hit:
  "old \<noteq> [] \<Longrightarrow> has_prefix (c # cs) old \<Longrightarrow>
     replace_all (c # cs) old new = new @ replace_all (drop (length old) (c # cs)) old new"
  by (subst replace_all.simps) simp

lemma replace_all_miss:
  "old \<noteq> [] \<Longrightarrow> \<not> has_prefix (c # cs) old \<Longrightarrow> replace_all (c # cs) old new = c # replace_all cs old new"
  by (subst replace_all.simps) simp

lemma replace_all_absent: "\<not> contains s old \<Longrightarrow> replace_all s old new = s"
proof (induction s)
  case (Cons c s)
  then have "\<not> has_prefix (c # s) old" and "\<not> contains s old"
    by (fastforce simp: contains_iff has_prefix_iff Cons_eq_append_conv)+
  with Cons.IH show ?case
    by (simp add: replace_all.simps [of "c # s"])
qed simp

lemma trim_left_codes_suffix: "\<exists>u. s = u @ trim_left_codes codes s"
proof (induction codes s rule: trim_left_codes.induct)
  case (1 codes s)
  show ?case
  proof (cases "space_width codes s")
    case None
    then show ?thesis by (subst trim_left_codes.simps) simp
  next
    case (Some n)
    show ?thesis
    proof (cases "n = 0 \<or> s = []")
      case True
      with Some show ?thesis by (subst trim_left_codes.simps) simp
    next
      case False
      with Some 1 obtain u where "drop n s = u @ trim_left_codes codes (drop n s)"
        by blast
      then have "s = (take n s @ u) @ trim_left_codes codes (drop n s)"
        by (metis append.assoc append_take_drop_id)
      moreover have "trim_left_codes codes s = trim_left_codes codes (drop n s)"
        using False Some by (subst trim_left_codes.simps) simp
      ultimately show ?thesis by metis
    qed
  qed
qed

lemma trim_space_infix: "\<exists>u v. s = u @ trim_space s @ v"
proof -
  obtain u where u: "s = u @ trim_left s"
    using trim_left_codes_suffix unfolding trim_left_def by blast
  obtain w where w: "rev (trim_left s) = w @ trim_left_codes (map rev space_codes) (rev (trim_left s))"
    using trim_left_codes_suffix by blast
  have "trim_left s = trim_right (trim_left s) @ rev w"
    using arg_cong [OF w, of rev] by (simp add: trim_right_def)
  then show ?thesis
    using u unfolding trim_space_def by (metis append.assoc)
qed

lemma length_trim_space: "length (trim_space s) \<le> length s"
  using trim_space_infix [of s] by (metis length_append le_add1 le_add2 le_trans)

lemma trim_left_codes_stop:
  "space_width codes s = None \<Longrightarrow> trim_left_codes codes s = s"
  by (subst trim_left_codes.simps) simp

lemma trim_left_codes_done:
  "[] \<notin> set codes \<Longrightarrow> space_width codes (trim_left_codes codes s) = None"
proof (induction codes s rule: trim_left_codes.induct)
  case (1 codes s)
  show ?case
  proof (cases "space_width codes s")
    case None
    then show ?thesis by (simp add: trim_left_codes_stop)
  next
    case (Some n)
    then obtain c where c: "find (has_prefix s) codes = Some c" "n = length c"
      by (auto simp: space_width_def)
    then have "c \<in> set codes" "has_prefix s c"
      by (auto simp: find_Some_iff)
    with 1(2) c have "n \<noteq> 0" "s \<noteq> []"
      by (auto simp: has_prefix_iff)
    with 1 Some show ?thesis
      by (subst trim_left_codes.simps) auto
  qed
qed

text \<open>A byte that no code contains stops the trimming on either side of it.\<close>

lemma space_width_append:
  assumes "\<forall>w \<in> set codes. c \<notin> set w"
  shows "space_width codes (y @ c # z) = space_width codes y"
proof -
  have "has_prefix (y @ c # z) w = has_prefix y w" if "w \<in> set codes" for w
  proof
    assume "has_prefix (y @ c # z) w"
    then obtain t where t: "y @ c # z = w @ t" by (auto simp: has_prefix_iff)
    have "length w \<le> length y"
    proof (rule ccontr)
      assume "\<not> length w \<le> length y"
      then have "w ! length y = c"
        using t by (metis not_le nth_append nth_append_length)
      then show False using \<open>\<not> length w \<le> length y\<close> assms that by (metis not_le nth_mem)
    qed
    then show "has_prefix y w"
      using t by (metis append_eq_append_conv_if append_take_drop_id has_prefix_iff)
  qed (auto simp: has_prefix_iff)
  then have "find (has_prefix (y @ c # z)) codes = find (has_prefix y) codes"
    by (metis find_cong)
  then show ?thesis by (simp add: space_width_def)
qed

lemma trim_left_codes_stops_at:
  assumes "\<forall>w \<in> set codes. c \<notin> set w"
  shows "trim_left_codes codes (y @ c # z) = trim_left_codes codes y @ c # z"
  using assms
proof (induction codes y rule: trim_left_codes.induct)
  case (1 codes y)
  note sw = space_width_append [OF "1.prems", of y z]
  show ?case
  proof (cases "space_width codes y")
    case None
    with sw show ?thesis by (simp add: trim_left_codes_stop)
  next
    case (Some n)
    then have n: "n \<le> length y"
      by (auto simp: space_width_def find_Some_iff has_prefix_iff)
    show ?thesis
    proof (cases "n = 0 \<or> y = []")
      case True
      with n have "n = 0" by auto
      with Some sw show ?thesis
        by (simp add: trim_left_codes.simps [of codes "y @ c # z"] trim_left_codes.simps [of codes y])
    next
      case False
      with "1.IH" Some "1.prems" have
        "trim_left_codes codes (drop n y @ c # z) = trim_left_codes codes (drop n y) @ c # z" by blast
      with False Some sw n show ?thesis
        by (simp add: trim_left_codes.simps [of codes "y @ c # z"] trim_left_codes.simps [of codes y])
    qed
  qed
qed

lemma trim_right_stops_at:
  assumes "\<forall>w \<in> set space_codes. c \<notin> set w"
  shows "trim_right (x @ c # b) = x @ c # trim_right b"
proof -
  have "\<forall>w \<in> set (map rev space_codes). c \<notin> set w" using assms by auto
  from trim_left_codes_stops_at [OF this, of "rev b" "rev x"] show ?thesis
    by (simp add: trim_right_def)
qed

lemma trim_left_codes_Nil [simp]: "trim_left_codes codes [] = []"
  by (simp add: trim_left_codes.simps [of codes "[]"] split: option.splits)

lemma trim_left_stops_at:
  assumes "\<forall>w \<in> set space_codes. c \<notin> set w"
  shows "trim_left (c # b) = c # b"
  using trim_left_codes_stops_at [OF assms, of "[]" b] by (simp add: trim_left_def)

text \<open>The first occurrence of a delimiter after a text in which it does not start.\<close>

lemma index_of_first:
  assumes "p \<noteq> []" and "\<not> contains (h @ butlast p) p"
  shows "index_of (h @ p @ b) p = Some (length h)"
proof -
  obtain i where i: "index_of (h @ p @ b) p = Some i"
    using index_of_None [of "h @ p @ b" p h b] by (cases "index_of (h @ p @ b) p") auto
  then have le: "i \<le> length h" by (rule index_of_least)
  from index_of_Some [OF i] obtain u v where u: "h @ p @ b = u @ p @ v" "length u = i" by blast
  have "i = length h"
  proof (rule ccontr)
    assume "i \<noteq> length h"
    then have len: "length (u @ p) \<le> length (h @ butlast p)"
      using le u(2) assms(1) by simp
    have "h @ p @ b = (h @ butlast p) @ (last p # b)"
      using assms(1) by (metis append.assoc append_Cons append_Nil append_butlast_last_id)
    then have "(u @ p) @ v = (h @ butlast p) @ (last p # b)"
      using u(1) by simp
    then have "u @ p = take (length (u @ p)) (h @ butlast p)"
      using len by (metis append_eq_append_conv_if)
    then have "h @ butlast p = u @ p @ drop (length (u @ p)) (h @ butlast p)"
      by (metis append.assoc append_take_drop_id)
    then show False using assms(2) by (auto simp: contains_iff)
  qed
  with i show ?thesis by simp
qed

lemma cut_None: "cut sep s = (a, None) \<longleftrightarrow> a = s \<and> sep \<notin> set s"
proof (induction s arbitrary: a)
  case (Cons c s)
  then show ?case
    by (cases "cut sep s") auto
qed auto

lemma cut_append: "sep \<notin> set a \<Longrightarrow> cut sep (a @ sep # b) = (a, Some b)"
  by (induction a) auto

lemma cut_SomeD: "cut sep s = (a, Some b) \<Longrightarrow> s = a @ sep # b \<and> sep \<notin> set a"
proof (induction s arbitrary: a)
  case (Cons c s)
  then show ?case
    by (cases "cut sep s") (auto split: if_splits)
qed auto

lemma join_split_on: "join [sep] (split_on sep s) = s"
proof (induction s)
  case (Cons c s)
  have "split_on sep s \<noteq> []"
    by (cases s) (auto split: list.splits)
  then obtain w ws where "split_on sep s = w # ws"
    by (cases "split_on sep s") auto
  with Cons show ?case
    by (cases ws) auto
qed simp

lemma split_on_sep_free: "w \<in> set (split_on sep s) \<Longrightarrow> sep \<notin> set w"
proof (induction s arbitrary: w)
  case (Cons c s)
  then show ?case
    by (cases "split_on sep s") (auto split: if_splits)
qed simp

text \<open>
  A key built from two parts and a separator determines the parts when the first part is free of
  the separator. The stores that join a user and a name with a slash rest on this.
\<close>

lemma sep_key_inject:
  assumes "a @ [sep] @ b = a' @ [sep] @ b'" and "sep \<notin> set a" and "sep \<notin> set a'"
  shows "a = a' \<and> b = b'"
proof -
  have "cut sep (a @ sep # b) = cut sep (a' @ sep # b')"
    using assms(1) by simp
  with assms(2,3) show ?thesis
    by (simp add: cut_append)
qed

lemma ascii_valid_utf8: "list_all is_ascii s \<Longrightarrow> valid_utf8 s"
  by (induction s) auto

section \<open>Lemmas on slices\<close>

lemma int64_id: "- (2 ^ 63) \<le> x \<Longrightarrow> x < 2 ^ 63 \<Longrightarrow> int64 x = x"
  by (simp add: int64_def)

lemma int64_range: "- (2 ^ 63) \<le> int64 x \<and> int64 x < 2 ^ 63"
  by (simp add: int64_def)

lemma slice_from: "0 \<le> a \<Longrightarrow> a \<le> int (length xs) \<Longrightarrow> slice xs a (int (length xs)) = Some (drop (nat a) xs)"
  by (simp add: slice_def)

lemma slice_Some_set: "slice xs a b = Some ys \<Longrightarrow> set ys \<subseteq> set xs"
  by (auto simp: slice_def split: if_splits dest: in_set_takeD in_set_dropD)

lemma slice_length: "slice xs a b = Some ys \<Longrightarrow> int (length ys) = b - a"
  by (auto simp: slice_def split: if_splits)

section \<open>Lemmas on maps\<close>

lemma set_range_map: "range_order ks m \<Longrightarrow> set (range_map ks m) = {(k, v). m k = Some v}"
  by (force simp: range_map_def range_order_def List.map_filter_def dom_def)

lemma range_map_keys: "range_order ks m \<Longrightarrow> map fst (range_map ks m) = ks"
proof -
  assume "range_order ks m"
  then have "set ks \<subseteq> dom m" by (simp add: range_order_def)
  then show ?thesis
    by (induction ks) (auto simp: range_map_def List.map_filter_def)
qed

lemma range_map_length: "range_order ks m \<Longrightarrow> length (range_map ks m) = map_len m"
  using range_map_keys [of ks m]
  by (metis distinct_card length_map map_len_def range_order_def)

lemma map_len_upd_le: "finite (dom m) \<Longrightarrow> map_len (m(k \<mapsto> v)) \<le> Suc (map_len m)"
  by (simp add: map_len_def card_insert_if)

lemma map_len_fresh: "finite (dom m) \<Longrightarrow> m k = None \<Longrightarrow> map_len (m(k \<mapsto> v)) = Suc (map_len m)"
  by (simp add: map_len_def card_insert_if domIff)

lemma param_str_JStr [simp]: "ps k = Some (JStr s) \<Longrightarrow> param_str ps k = s"
  by (simp add: param_str_def)

lemma param_str_None [simp]: "ps k = None \<Longrightarrow> param_str ps k = []"
  by (simp add: param_str_def)

section \<open>The interface of a keyed store\<close>

text \<open>
  Registries, token stores and key tables of the program all offer insertion, lookup and removal
  under a key. Their contract is stated once; each component interprets it on its own operations.
\<close>

locale keyed_map =
  fixes look :: "'s \<Rightarrow> 'k \<Rightarrow> 'v option"
    and put :: "'k \<Rightarrow> 'v \<Rightarrow> 's \<Rightarrow> 's"
  assumes look_put: "look (put k v s) k' = (if k' = k then Some v else look s k')"
begin

lemma put_overwrites: "look (put k v' (put k v s)) = look (put k v' s)"
  by (rule ext) (simp add: look_put)

lemma put_commutes: "k \<noteq> k' \<Longrightarrow> look (put k v (put k' v' s)) = look (put k' v' (put k v s))"
  by (rule ext) (simp add: look_put)

text \<open>Registering a sequence of entries: the last entry of a key wins, other keys keep theirs.\<close>

lemma look_put_all:
  "look (fold (\<lambda>(k, v). put k v) kvs s) k =
     (case map_of (rev kvs) k of Some v \<Rightarrow> Some v | None \<Rightarrow> look s k)"
proof (induction kvs arbitrary: s)
  case (Cons kv kvs)
  then show ?case
    by (cases kv) (auto simp: look_put map_add_def split: option.splits)
qed simp

end

locale keyed_store = keyed_map look put
  for look :: "'s \<Rightarrow> 'k \<Rightarrow> 'v option" and put :: "'k \<Rightarrow> 'v \<Rightarrow> 's \<Rightarrow> 's" +
  fixes del :: "'k \<Rightarrow> 's \<Rightarrow> 's"
  assumes look_del: "look (del k s) k' = (if k' = k then None else look s k')"
begin

lemma del_after_put: "look (del k (put k v s)) = look (del k s)"
  by (rule ext) (simp add: look_del look_put)

lemma put_after_del: "look (put k v (del k s)) = look (put k v s)"
  by (rule ext) (simp add: look_del look_put)

end

section \<open>Runs of a component and invariants\<close>

text \<open>
  A component is used through its operations, each atomic because it holds the component's lock.
  A run is a sequence of labelled steps; the interleaving of the callers is the order of the labels.
\<close>

inductive run :: "('s \<Rightarrow> 'e \<Rightarrow> 's \<Rightarrow> bool) \<Rightarrow> 's \<Rightarrow> 'e list \<Rightarrow> 's \<Rightarrow> bool" for step where
  run_nil: "run step s [] s"
| run_snoc: "run step s es t \<Longrightarrow> step t e u \<Longrightarrow> run step s (es @ [e]) u"

inductive_cases run_NilE: "run step s [] t"
inductive_cases run_snocE: "run step s (es @ [e]) u"

lemma run_Nil_iff [simp]: "run step s [] t \<longleftrightarrow> t = s"
  by (auto intro: run.run_nil elim: run_NilE)

lemma run_snoc_iff: "run step s (es @ [e]) u \<longleftrightarrow> (\<exists>t. run step s es t \<and> step t e u)"
proof
  assume "run step s (es @ [e]) u"
  then show "\<exists>t. run step s es t \<and> step t e u"
    by (cases rule: run.cases) auto
qed (auto intro: run.run_snoc)

lemma run_Cons: "step s e t \<Longrightarrow> run step t es u \<Longrightarrow> run step s (e # es) u"
proof (rotate_tac 1, induction t es u rule: run.induct)
  case (run_nil t)
  then show ?case using run.run_snoc [OF run.run_nil, of step s e t] by simp
next
  case (run_snoc t es u e' v)
  then show ?case using run.run_snoc [of step s "e # es" u e' v] by simp
qed

lemma run_append: "run step s (es1 @ es2) u \<Longrightarrow> \<exists>t. run step s es1 t \<and> run step t es2 u"
proof (induction es2 arbitrary: u rule: rev_induct)
  case (snoc e es2)
  then obtain v where "run step s (es1 @ es2) v" "step v e u"
    using run_snoc_iff [of step s "es1 @ es2" e u] by auto
  with snoc.IH show ?case by (blast intro: run.run_snoc)
qed auto

text \<open>
  The contract of an invariant: it holds initially and every step keeps it. What follows for runs
  is proved once, for any component that meets it.
\<close>

locale step_invariant =
  fixes init :: "'s \<Rightarrow> bool"
    and step :: "'s \<Rightarrow> 'e \<Rightarrow> 's \<Rightarrow> bool"
    and inv :: "'s \<Rightarrow> bool"
  assumes init_inv: "init s \<Longrightarrow> inv s"
    and step_inv: "step s e t \<Longrightarrow> inv s \<Longrightarrow> inv t"
begin

lemma run_keeps: "run step s es t \<Longrightarrow> inv s \<Longrightarrow> inv t"
  by (induction rule: run.induct) (auto intro: step_inv)

lemma run_inv: "init s \<Longrightarrow> run step s es t \<Longrightarrow> inv t"
  using run_keeps init_inv by blast

end

end
