(* ===== verification/Go_Regexp.thy ===== *)
theory Go_Regexp
  imports Go_Prelude
begin

text \<open>
  Package \<open>regexp\<close>, as far as the patterns of the safety layer use it: byte classes, sequence,
  alternation, greedy repetition, case-insensitive literals and the ASCII word boundary. The matcher
  \<open>mres\<close> lists the possible matches at a position in the order of preference of Go's leftmost-first
  rule; \<open>MatchString\<close> and \<open>FindAllString\<close> are built on it. The relation \<open>mat\<close> is the declarative
  meaning of an expression, and the two agree (\<open>mres_iff\<close>, \<open>match_string_iff\<close>).

  Working on bytes is exact for these patterns: classes are either subsets of ASCII or contain every
  byte above it, and the two runes outside ASCII that fold to ASCII letters (U+017F and U+212A) are
  alternatives of the letters concerned.
\<close>

section \<open>Expressions and the matcher\<close>

datatype re =
    Eps
  | Cls "char list"
  | NCls "char list"
  | Seq re re
  | Alt re re
  | Star re
  | WB

definition is_word_byte :: "char \<Rightarrow> bool" where
  "is_word_byte c =
     (let n = of_char c :: nat
      in (48 \<le> n \<and> n \<le> 57) \<or> (65 \<le> n \<and> n \<le> 90) \<or> n = 95 \<or> (97 \<le> n \<and> n \<le> 122))"

definition at_boundary :: "char option \<Rightarrow> string \<Rightarrow> bool" where
  "at_boundary p s =
     ((case p of None \<Rightarrow> False | Some c \<Rightarrow> is_word_byte c) \<noteq>
      (case s of [] \<Rightarrow> False | c # _ \<Rightarrow> is_word_byte c))"

text \<open>
  \<open>mres r p s\<close>: the matches of \<open>r\<close> at the start of \<open>s\<close>, where \<open>p\<close> is the byte before \<open>s\<close>. Each result
  is the last byte consumed so far and the rest of the text, the preferred match first.
\<close>

function mres :: "re \<Rightarrow> char option \<Rightarrow> string \<Rightarrow> (char option \<times> string) list" where
  "mres Eps p s = [(p, s)]"
| "mres (Cls cs) p s =
     (case s of [] \<Rightarrow> [] | c # t \<Rightarrow> if c \<in> set cs then [(Some c, t)] else [])"
| "mres (NCls cs) p s =
     (case s of [] \<Rightarrow> [] | c # t \<Rightarrow> if c \<in> set cs then [] else [(Some c, t)])"
| "mres (Seq a b) p s = concat (map (\<lambda>x. mres b (fst x) (snd x)) (mres a p s))"
| "mres (Alt a b) p s = mres a p s @ mres b p s"
| "mres (Star a) p s =
     concat (map (\<lambda>x. if length (snd x) < length s then mres (Star a) (fst x) (snd x) else [])
               (mres a p s)) @ [(p, s)]"
| "mres WB p s = (if at_boundary p s then [(p, s)] else [])"
  by pat_completeness auto
termination
  by (relation "measures [\<lambda>(r, p, s). size r, \<lambda>(r, p, s). length s]") auto

declare mres.simps(6) [simp del]

fun match_from :: "re \<Rightarrow> char option \<Rightarrow> string \<Rightarrow> bool" where
  "match_from r p [] = (mres r p [] \<noteq> [])"
| "match_from r p (c # s) = (mres r p (c # s) \<noteq> [] \<or> match_from r (Some c) s)"

definition match_string :: "re \<Rightarrow> string \<Rightarrow> bool" where
  "match_string r s = match_from r None s"

text \<open>
  \<open>FindAllString(s, -1)\<close>: successive leftmost matches that do not overlap. An empty match advances
  by one byte; the patterns of the program never match the empty text.
\<close>

function find_from :: "re \<Rightarrow> char option \<Rightarrow> string \<Rightarrow> string list" where
  "find_from r p s =
     (case mres r p s of
        (q, t) # _ \<Rightarrow>
          (if length t < length s then take (length s - length t) s # find_from r q t
           else [] # (case s of [] \<Rightarrow> [] | c # s' \<Rightarrow> find_from r (Some c) s'))
      | [] \<Rightarrow> (case s of [] \<Rightarrow> [] | c # s' \<Rightarrow> find_from r (Some c) s'))"
  by pat_completeness auto
termination
  by (relation "measure (\<lambda>(r, p, s). length s)") auto

declare find_from.simps [simp del]

definition find_all_string :: "re \<Rightarrow> string \<Rightarrow> string list" where
  "find_all_string r s = find_from r None s"

section \<open>Notation of the patterns\<close>

definition lit :: "string \<Rightarrow> re" where
  "lit s = foldr (\<lambda>c. Seq (Cls [c])) s Eps"

text \<open>One letter under \<open>(?i)\<close>: both cases, and the rune outside ASCII that folds to it.\<close>

definition ascii_upper :: "char \<Rightarrow> char" where
  "ascii_upper c =
     (let n = of_char c :: nat in if 97 \<le> n \<and> n \<le> 122 then char_of (n - 32) else c)"

definition fold_char :: "char \<Rightarrow> re" where
  "fold_char c =
     (let base = Cls [c, ascii_upper c]
      in if c = CHR ''k'' then Alt base (lit [CHR 0xE2, CHR 0x84, CHR 0xAA])
         else if c = CHR ''s'' then Alt base (lit [CHR 0xC5, CHR 0xBF])
         else base)"

definition ilit :: "string \<Rightarrow> re" where
  "ilit s = foldr (\<lambda>c. Seq (fold_char c)) s Eps"

fun seqs :: "re list \<Rightarrow> re" where
  "seqs [] = Eps"
| "seqs (r # rs) = Seq r (seqs rs)"

definition opt :: "re \<Rightarrow> re" where "opt r = Alt r Eps"
definition plus :: "re \<Rightarrow> re" where "plus r = Seq r (Star r)"

fun at_least :: "nat \<Rightarrow> re \<Rightarrow> re" where
  "at_least 0 r = Star r"
| "at_least (Suc n) r = Seq r (at_least n r)"

text \<open>\<open>\s\<close> is \<open>[\t\n\f\r ]\<close> in Go; \<open>[a-zA-Z0-9]\<close> by enumeration.\<close>

definition ws_bytes :: string where
  "ws_bytes = [CHR 0x09, CHR 0x0A, CHR 0x0C, CHR 0x0D, CHR 0x20]"

definition ws :: re where "ws = Cls ws_bytes"

definition alnum_bytes :: string where
  "alnum_bytes = ''abcdefghijklmnopqrstuvwxyzABCDEFGHIJKLMNOPQRSTUVWXYZ0123456789''"

text \<open>\<open>[a-zA-Z0-9_-]\<close> under \<open>(?i)\<close>, which adds the two folding runes to the class.\<close>

definition iname_char :: re where
  "iname_char =
     Alt (Cls (alnum_bytes @ ''_-''))
       (Alt (lit [CHR 0xC5, CHR 0xBF]) (lit [CHR 0xE2, CHR 0x84, CHR 0xAA]))"

definition quote_char :: re where
  "quote_char = Cls [CHR 0x27, CHR 0x22]"

section \<open>Declarative meaning\<close>

definition last_byte :: "char option \<Rightarrow> string \<Rightarrow> char option" where
  "last_byte p v = (if v = [] then p else Some (last v))"

text \<open>
  \<open>mat r p v t\<close>: the expression matches exactly the text \<open>v\<close>, standing after the byte \<open>p\<close> and
  before the text \<open>t\<close>.
\<close>

inductive mat :: "re \<Rightarrow> char option \<Rightarrow> string \<Rightarrow> string \<Rightarrow> bool" where
  mat_Eps: "mat Eps p [] t"
| mat_Cls: "c \<in> set cs \<Longrightarrow> mat (Cls cs) p [c] t"
| mat_NCls: "c \<notin> set cs \<Longrightarrow> mat (NCls cs) p [c] t"
| mat_Seq: "mat a p u (v @ t) \<Longrightarrow> mat b (last_byte p u) v t \<Longrightarrow> mat (Seq a b) p (u @ v) t"
| mat_AltL: "mat a p v t \<Longrightarrow> mat (Alt a b) p v t"
| mat_AltR: "mat b p v t \<Longrightarrow> mat (Alt a b) p v t"
| mat_Star0: "mat (Star a) p [] t"
| mat_StarS: "mat a p u (v @ t) \<Longrightarrow> u \<noteq> [] \<Longrightarrow> mat (Star a) (last_byte p u) v t \<Longrightarrow>
     mat (Star a) p (u @ v) t"
| mat_WB: "at_boundary p t \<Longrightarrow> mat WB p [] t"

inductive_cases mat_EpsE: "mat Eps p v t"
inductive_cases mat_ClsE: "mat (Cls cs) p v t"
inductive_cases mat_NClsE: "mat (NCls cs) p v t"
inductive_cases mat_SeqE: "mat (Seq a b) p v t"
inductive_cases mat_AltE: "mat (Alt a b) p v t"
inductive_cases mat_WBE: "mat WB p v t"

lemma last_byte_Nil [simp]: "last_byte p [] = p"
  and last_byte_single [simp]: "last_byte p [c] = Some c"
  and last_byte_append: "last_byte (last_byte p u) v = last_byte p (u @ v)"
  by (auto simp: last_byte_def)

section \<open>The matcher computes the meaning\<close>

lemma mres_sound: "(q, t) \<in> set (mres r p s) \<Longrightarrow>
    \<exists>v. s = v @ t \<and> mat r p v t \<and> q = last_byte p v"
proof (induction r p s arbitrary: q t rule: mres.induct)
  case (2 cs p s)
  then show ?case
    by (cases s) (force split: if_splits intro: mat_Cls)+
next
  case (3 cs p s)
  then show ?case
    by (cases s) (force split: if_splits intro: mat_NCls)+
next
  case (4 a b p s)
  from "4.prems" obtain q1 t1 where x: "(q1, t1) \<in> set (mres a p s)" "(q, t) \<in> set (mres b q1 t1)"
    by auto
  from "4.IH"(1) [OF x(1)] obtain u where u: "s = u @ t1" "mat a p u t1" "q1 = last_byte p u"
    by blast
  from "4.IH"(2) [OF x(1)] x(2) obtain v where v: "t1 = v @ t" "mat b q1 v t" "q = last_byte q1 v"
    by auto
  have "mat (Seq a b) p (u @ v) t"
    using u v by (auto intro: mat_Seq)
  with u v show ?case by (auto simp: last_byte_append)
next
  case (5 a b p s)
  then have "(q, t) \<in> set (mres a p s) \<or> (q, t) \<in> set (mres b p s)" by simp
  then show ?case
    using "5.IH" by (blast intro: mat_AltL mat_AltR)
next
  case (6 a p s)
  show ?case
  proof (cases "(q, t) = (p, s)")
    case True
    then show ?thesis by (auto intro: mat_Star0)
  next
    case False
    with "6.prems" obtain q1 t1 where x: "(q1, t1) \<in> set (mres a p s)" "length t1 < length s"
        "(q, t) \<in> set (mres (Star a) q1 t1)"
      by (auto simp: mres.simps(6) [of a p s] split: if_splits)
    from "6.IH"(1) [OF x(1)] obtain u where u: "s = u @ t1" "mat a p u t1" "q1 = last_byte p u"
      by blast
    from "6.IH"(2) [OF x(1)] x(2,3) obtain v where
      v: "t1 = v @ t" "mat (Star a) q1 v t" "q = last_byte q1 v"
      by auto
    from u(1) x(2) have "u \<noteq> []" by auto
    with u v have "mat (Star a) p (u @ v) t"
      by (auto intro: mat_StarS)
    with u v show ?thesis by (auto simp: last_byte_append)
  qed
qed (auto split: if_splits intro: mat.intros)

lemma mres_complete: "mat r p v t \<Longrightarrow> (last_byte p v, t) \<in> set (mres r p (v @ t))"
proof (induction rule: mat.induct)
  case (mat_Seq a p u v t b)
  then show ?case
    by (force simp: last_byte_append)
next
  case (mat_StarS a p u v t)
  then have "(last_byte p u, v @ t) \<in> set (mres a p ((u @ v) @ t))" by simp
  moreover have "length (v @ t) < length ((u @ v) @ t)" using mat_StarS by simp
  ultimately show ?case
    using mat_StarS.IH(2) unfolding mres.simps(6) [of a p "(u @ v) @ t"]
    by (force simp: last_byte_append)
next
  case (mat_Star0 a p t)
  show ?case by (subst mres.simps(6)) simp
qed auto

lemma mres_iff: "(q, t) \<in> set (mres r p s) \<longleftrightarrow> (\<exists>v. s = v @ t \<and> mat r p v t \<and> q = last_byte p v)"
  using mres_sound mres_complete by blast

lemma match_from_iff: "match_from r p s \<longleftrightarrow> (\<exists>u v w. s = u @ v @ w \<and> mat r (last_byte p u) v w)"
proof (induction r p s rule: match_from.induct)
  case (1 r p)
  have "mres r p [] \<noteq> [] \<longleftrightarrow> (\<exists>x. x \<in> set (mres r p []))"
    by (cases "mres r p []") auto
  then show ?case
    by (auto simp: mres_iff)
next
  case (2 r p c s)
  have here: "mres r p (c # s) \<noteq> [] \<longleftrightarrow> (\<exists>v w. c # s = v @ w \<and> mat r p v w)"
  proof -
    have "mres r p (c # s) \<noteq> [] \<longleftrightarrow> (\<exists>x. x \<in> set (mres r p (c # s)))"
      by (cases "mres r p (c # s)") auto
    then show ?thesis by (auto simp: mres_iff)
  qed
  show ?case (is "?L \<longleftrightarrow> ?R")
  proof
    assume ?L
    then consider "\<exists>v w. c # s = v @ w \<and> mat r p v w" | "match_from r (Some c) s"
      using here by auto
    then show ?R
    proof cases
      case 1
      then show ?thesis by (metis append_Nil last_byte_Nil)
    next
      case 2
      with "2.IH" obtain u v w where "s = u @ v @ w" "mat r (last_byte (Some c) u) v w" by blast
      moreover have "last_byte (Some c) u = last_byte p (c # u)"
        by (simp add: last_byte_def)
      ultimately show ?thesis by (metis append_Cons)
    qed
  next
    assume ?R
    then obtain u v w where x: "c # s = u @ v @ w" "mat r (last_byte p u) v w" by blast
    show ?L
    proof (cases u)
      case Nil
      with x here have "mres r p (c # s) \<noteq> []" by (metis append_Nil last_byte_Nil)
      then show ?thesis by simp
    next
      case (Cons d u')
      with x have "s = u' @ v @ w" "mat r (last_byte (Some c) u') v w"
        by (auto simp: last_byte_def split: if_splits)
      with "2.IH" show ?thesis by auto
    qed
  qed
qed

lemma match_string_iff:
  "match_string r s \<longleftrightarrow> (\<exists>u v w. s = u @ v @ w \<and> mat r (last_byte None u) v w)"
  by (simp add: match_string_def match_from_iff)

lemma match_stringI: "mat r (last_byte None u) v w \<Longrightarrow> match_string r (u @ v @ w)"
  by (auto simp: match_string_iff)

section \<open>Matches found\<close>

lemma find_from_sound: "f \<in> set (find_from r p s) \<Longrightarrow>
   \<exists>u w. s = u @ f @ w \<and> mat r (last_byte p u) f w"
proof (induction r p s arbitrary: f rule: find_from.induct)
  case (1 r p s)
  have shift: "\<exists>u w. s = u @ f @ w \<and> mat r (last_byte p u) f w"
    if "s = v @ t" "\<exists>u w. t = u @ f @ w \<and> mat r (last_byte (last_byte p v) u) f w" for v t
  proof -
    from that obtain u w where "s = (v @ u) @ f @ w" "mat r (last_byte p (v @ u)) f w"
      by (auto simp: last_byte_append)
    then show ?thesis by blast
  qed
  have tail: ?case if "s = c # s'" "f \<in> set (find_from r (Some c) s')"
    "\<And>f. f \<in> set (find_from r (Some c) s') \<Longrightarrow> \<exists>u w. s' = u @ f @ w \<and> mat r (last_byte (Some c) u) f w"
    for c s'
    using shift [of "[c]" s'] that by simp
  show ?case
  proof (cases "mres r p s")
    case Nil
    with "1.prems" obtain c s' where s: "s = c # s'" "f \<in> set (find_from r (Some c) s')"
      by (subst (asm) find_from.simps) (auto split: list.splits)
    show ?thesis
      using "1.IH"(1) [OF Nil s(1)] s tail by blast
  next
    case (Cons x xs)
    obtain q t where x: "x = (q, t)" by (cases x)
    with Cons have "(q, t) \<in> set (mres r p s)" by simp
    then obtain v where v: "s = v @ t" "mat r p v t" "q = last_byte p v"
      using mres_sound by blast
    show ?thesis
    proof (cases "length t < length s")
      case True
      with "1.prems" Cons x v have "f = v \<or> f \<in> set (find_from r q t)"
        by (subst (asm) find_from.simps) auto
      moreover have "\<exists>u w. t = u @ f @ w \<and> mat r (last_byte q u) f w" if "f \<in> set (find_from r q t)"
        using "1.IH"(2) [OF Cons x [symmetric] True that] .
      ultimately show ?thesis
        using v shift [of v t] by (metis append_Nil last_byte_Nil)
    next
      case False
      with v have "v = []" "t = s" by auto
      with "1.prems" Cons x False consider "f = []" | c s' where "s = c # s'" "f \<in> set (find_from r (Some c) s')"
        by (subst (asm) find_from.simps) (auto split: list.splits)
      then show ?thesis
      proof cases
        case 1
        with v \<open>v = []\<close> \<open>t = s\<close> show ?thesis by (metis append_Nil last_byte_Nil)
      next
        case (2 c s')
        then show ?thesis
          using "1.IH"(3) [OF Cons x [symmetric] False 2(1)] tail by blast
      qed
    qed
  qed
qed

lemma find_from_empty_iff: "find_from r p s = [] \<longleftrightarrow> \<not> match_from r p s"
proof (induction r p s rule: match_from.induct)
  case (1 r p)
  show ?case
    by (subst find_from.simps) (auto split: list.splits)
next
  case (2 r p c s)
  then show ?case
    by (subst find_from.simps) (auto split: list.splits)
qed

lemma find_all_string_sound:
  "f \<in> set (find_all_string r s) \<Longrightarrow> \<exists>u w. s = u @ f @ w \<and> mat r (last_byte None u) f w"
  by (simp add: find_all_string_def find_from_sound)

lemma find_all_string_empty_iff: "find_all_string r s = [] \<longleftrightarrow> \<not> match_string r s"
  by (simp add: find_all_string_def match_string_def find_from_empty_iff)

section \<open>Matching the building blocks\<close>

lemma mat_SeqI: "mat a p u (v @ t) \<Longrightarrow> mat b (last_byte p u) v t \<Longrightarrow> w = u @ v \<Longrightarrow> mat (Seq a b) p w t"
  by (simp add: mat_Seq)

lemma mat_fold_char: "ascii_lower d = c \<Longrightarrow> c \<in> set ''abcdefghijklmnopqrstuvwxyz'' \<Longrightarrow>
    mat (fold_char c) p [d] t"
proof -
  assume d: "ascii_lower d = c" and c: "c \<in> set ''abcdefghijklmnopqrstuvwxyz''"
  have "d = c \<or> d = ascii_upper c"
  proof (cases "65 \<le> (of_char d :: nat) \<and> (of_char d :: nat) \<le> 90")
    case True
    then have low: "c = char_of ((of_char d :: nat) + 32)"
      using d by (simp add: ascii_lower_def Let_def)
    then have "(of_char c :: nat) = of_char d + 32"
      using True by simp
    then show ?thesis
      using True by (simp add: ascii_upper_def Let_def)
  next
    case False
    then show ?thesis
      using d by (auto simp: ascii_lower_def Let_def)
  qed
  then show ?thesis
    by (auto simp: fold_char_def Let_def intro!: mat_AltL mat_Cls)
qed

lemma mat_ilit:
  assumes "map ascii_lower v = w" and "set w \<subseteq> set ''abcdefghijklmnopqrstuvwxyz''"
  shows "mat (ilit w) p v t"
  using assms
proof (induction w arbitrary: v p)
  case Nil
  then show ?case by (simp add: ilit_def mat_Eps)
next
  case (Cons c w)
  then obtain d v' where v: "v = d # v'" "ascii_lower d = c" "map ascii_lower v' = w"
    by (cases v) auto
  from Cons.prems(2) have "c \<in> set ''abcdefghijklmnopqrstuvwxyz''"
    and w: "set w \<subseteq> set ''abcdefghijklmnopqrstuvwxyz''"
    by simp_all
  then have "mat (fold_char c) p [d] (v' @ t)"
    using v(2) by (blast intro: mat_fold_char)
  moreover have "mat (ilit w) (Some d) v' t"
    using v(3) w by (rule Cons.IH)
  ultimately show ?case
    unfolding v(1) by (auto simp: ilit_def intro: mat_SeqI [where u = "[d]"])
qed

lemma mat_Star_Cls: "set v \<subseteq> set cs \<Longrightarrow> mat (Star (Cls cs)) p v t"
proof (induction v arbitrary: p)
  case (Cons c v)
  then have "mat (Star (Cls cs)) p ([c] @ v) t"
    by (intro mat_StarS) (auto intro: mat_Cls)
  then show ?case by simp
qed (simp add: mat_Star0)

lemma mat_plus_ws: "v \<noteq> [] \<Longrightarrow> set v \<subseteq> set ws_bytes \<Longrightarrow> mat (plus ws) p v t"
proof (cases v)
  case (Cons c v')
  assume "set v \<subseteq> set ws_bytes"
  with Cons show ?thesis
    by (auto simp: plus_def ws_def intro!: mat_SeqI [where u = "[c]" and v = v'] mat_Cls mat_Star_Cls)
qed simp

lemma mat_opt_absent: "mat (opt r) p [] t"
  by (simp add: opt_def mat_AltR mat_Eps)

lemma mat_opt_present: "mat r p v t \<Longrightarrow> mat (opt r) p v t"
  by (simp add: opt_def mat_AltL)

lemma mat_at_least_Cls: "n \<le> length v \<Longrightarrow> set v \<subseteq> set cs \<Longrightarrow> mat (at_least n (Cls cs)) p v t"
proof (induction n arbitrary: v p)
  case 0
  then show ?case by (simp add: mat_Star_Cls)
next
  case (Suc n)
  then obtain c v' where "v = c # v'" by (cases v) auto
  with Suc show ?case
    by (auto intro!: mat_SeqI [where u = "[c]"] mat_Cls)
qed

end
