(* ===== verification/Leak_Detector.thy ===== *)
theory Leak_Detector
  imports Go_Regexp
begin

text \<open>
  The secret scanner of the safety layer: \<open>internal/safety/leakdetector\<close> (\<open>patterns.go\<close>,
  \<open>detector.go\<close>). Each detected text is replaced everywhere by \<open>[REDACTED]\<close>; the lemmas show that
  the detected texts are really gone afterwards.
\<close>

section \<open>Patterns and detector\<close>

text \<open>
  A pattern is kept with the expression it compiles to, \<^const>\<open>None\<close> standing for a pattern
  \<open>regexp.Compile\<close> would refuse.
\<close>

record pattern_info =
  pi_Name :: string
  pi_Pattern :: "re option"
  pi_Type :: string

record leak_match =
  lm_Pattern :: string
  lm_Type :: string

record detector =
  patterns :: "pattern_info list"
  compiled :: "re list"

definition re_openai_key :: re where
  "re_openai_key = seqs [WB, lit ''sk-'', at_least 20 (Cls alnum_bytes), WB]"

definition re_generic_key :: re where
  "re_generic_key =
     seqs [Alt (seqs [ilit ''api'', opt (Cls ''_-''), ilit ''key'']) (ilit ''apikey''),
           Star ws, Cls '':='', Star ws, opt quote_char, at_least 20 iname_char, opt quote_char]"

definition re_password :: re where
  "re_password =
     seqs [Alt (ilit ''password'') (Alt (ilit ''passwd'') (ilit ''pwd'')),
           Star ws, Cls '':='', Star ws, opt quote_char,
           plus (NCls (ws_bytes @ [CHR 0x27, CHR 0x22])), opt quote_char]"

definition re_token_secret :: re where
  "re_token_secret =
     seqs [Alt (ilit ''token'') (ilit ''secret''), Star ws, Cls '':='', Star ws, opt quote_char,
           at_least 16 iname_char, opt quote_char]"

definition re_private_key :: re where
  "re_private_key =
     seqs [lit ''-----'', ilit ''begin'', plus ws, opt (Seq (ilit ''rsa'') (plus ws)),
           ilit ''private'', plus ws, ilit ''key'', lit ''-----'']"

definition default_patterns_list :: "pattern_info list" where
  "default_patterns_list =
     [\<lparr>pi_Name = ''openai-api-key'', pi_Pattern = Some re_openai_key, pi_Type = ''api_key''\<rparr>,
      \<lparr>pi_Name = ''generic-api-key'', pi_Pattern = Some re_generic_key, pi_Type = ''api_key''\<rparr>,
      \<lparr>pi_Name = ''password'', pi_Pattern = Some re_password, pi_Type = ''password''\<rparr>,
      \<lparr>pi_Name = ''token-secret'', pi_Pattern = Some re_token_secret, pi_Type = ''token''\<rparr>,
      \<lparr>pi_Name = ''private-key'', pi_Pattern = Some re_private_key, pi_Type = ''private_key''\<rparr>]"

definition compile_patterns :: "detector \<Rightarrow> detector" where
  "compile_patterns d = d\<lparr>compiled := compiled d @ List.map_filter pi_Pattern (patterns d)\<rparr>"

definition new_detector :: detector where
  "new_detector = compile_patterns \<lparr>patterns = default_patterns_list, compiled = []\<rparr>"

text \<open>The loop over the compiled expressions stops when it runs past the pattern list.\<close>

fun scan_loop :: "re list \<Rightarrow> pattern_info list \<Rightarrow> string \<Rightarrow> leak_match list" where
  "scan_loop [] ps content = []"
| "scan_loop (e # es) [] content = []"
| "scan_loop (e # es) (p # ps) content =
     map (\<lambda>f. \<lparr>lm_Pattern = f, lm_Type = pi_Type p\<rparr>) (find_all_string e content) @
     scan_loop es ps content"

definition leak_scan :: "detector \<Rightarrow> string \<Rightarrow> leak_match list" where
  "leak_scan d content = scan_loop (compiled d) (patterns d) content"

definition redacted :: string where
  "redacted = ''[REDACTED]''"

text \<open>
  Each match is quoted and compiled again before it is replaced; \<open>regexp.MustCompile\<close> panics
  (\<^const>\<open>None\<close>) on a pattern that is not valid UTF-8, which a match of arbitrary bytes may be.
\<close>

fun clean_loop :: "leak_match list \<Rightarrow> string \<Rightarrow> string option" where
  "clean_loop [] s = Some s"
| "clean_loop (m # ms) s =
     (if valid_utf8 (lm_Pattern m) then clean_loop ms (replace_all s (lm_Pattern m) redacted) else None)"

definition scan_and_clean :: "detector \<Rightarrow> string \<Rightarrow> (string \<times> leak_match list) option" where
  "scan_and_clean d content =
     (let matches = leak_scan d content
      in case clean_loop matches content of
           None \<Rightarrow> None
         | Some cleaned \<Rightarrow> Some (cleaned, matches))"

section \<open>Replacement removes the replaced text\<close>

text \<open>
  A text without the brackets of the marker that does not lie inside the marker's word can only
  occur in the kept parts of a replaced text.
\<close>

definition bracket_free :: "string \<Rightarrow> bool" where
  "bracket_free k \<longleftrightarrow> CHR ''['' \<notin> set k \<and> CHR '']'' \<notin> set k"

definition survives :: "string \<Rightarrow> bool" where
  "survives k \<longleftrightarrow> bracket_free k \<and> \<not> contains ''REDACTED'' k"

lemma occurrence_split:
  assumes "xs @ c # ys = u @ k @ v" and "c \<notin> set k"
  shows "(\<exists>v'. xs = u @ k @ v') \<or> (\<exists>u'. ys = u' @ k @ v)"
proof (cases "length u + length k \<le> length xs")
  case True
  then have "take (length (u @ k)) (xs @ c # ys) = take (length (u @ k)) xs" by simp
  then have "u @ k = take (length (u @ k)) xs"
    using assms(1) by (metis append.assoc append_eq_conv_conj)
  then have "xs = u @ k @ drop (length (u @ k)) xs"
    by (metis append.assoc append_take_drop_id)
  then show ?thesis by blast
next
  case False
  show ?thesis
  proof (cases "length xs < length u")
    case True
    then have "drop (Suc (length xs)) (u @ k @ v) = drop (Suc (length xs)) u @ k @ v" by simp
    then have "ys = drop (Suc (length xs)) u @ k @ v"
      using assms(1) by (metis append.assoc append_Cons append_Nil append_eq_conv_conj
          length_append_singleton)
    then show ?thesis by blast
  next
    case inside: False
    have "(xs @ c # ys) ! length xs = c" by simp
    moreover have less: "length xs - length u < length k"
      using False inside by linarith
    moreover have "(u @ k @ v) ! length xs = k ! (length xs - length u)"
      using less inside by (simp add: nth_append)
    ultimately have "c \<in> set k"
      using assms(1) by (metis nth_mem)
    with assms(2) show ?thesis by simp
  qed
qed

lemma contains_across: "c \<notin> set k \<Longrightarrow> contains (xs @ c # ys) k \<Longrightarrow> contains xs k \<or> contains ys k"
  unfolding contains_iff by (metis occurrence_split)

lemma contains_redacted_append:
  assumes "survives k" and "contains (xs @ redacted @ ys) k"
  shows "contains xs k \<or> contains ys k"
proof -
  have "contains (xs @ CHR ''['' # (''REDACTED'' @ CHR '']'' # ys)) k"
    using assms(2) by (simp add: redacted_def)
  then have "contains xs k \<or> contains (''REDACTED'' @ CHR '']'' # ys) k"
    using assms(1) contains_across by (metis survives_def bracket_free_def)
  moreover have "contains (''REDACTED'' @ CHR '']'' # ys) k \<Longrightarrow> contains ys k"
    using assms(1) contains_across by (metis survives_def bracket_free_def)
  ultimately show ?thesis by blast
qed

lemma contains_mono: "contains s k \<Longrightarrow> contains (u @ s @ v) k"
  unfolding contains_iff by (metis append.assoc)

text \<open>
  The replaced text, seen with the bytes \<open>acc\<close> kept immediately before it: an occurrence of a
  surviving text lies in \<open>acc\<close> followed by what was there before the replacement.
\<close>

lemma replace_all_no_new:
  assumes "survives k"
  shows "contains (acc @ replace_all s old redacted) k \<Longrightarrow> contains (acc @ s) k"
proof (induction s old redacted arbitrary: acc rule: replace_all.induct)
  case (1 s old)
  show ?case
  proof (cases "old = [] \<or> s = []")
    case True
    with "1.prems" show ?thesis by (cases "old = []") (auto simp: replace_all.simps [of s "[]"])
  next
    case False
    then obtain c cs where s: "s = c # cs" by (cases s) auto
    show ?thesis
    proof (cases "has_prefix s old")
      case True
      then have "contains (acc @ redacted @ replace_all (drop (length old) s) old redacted) k"
        using "1.prems" False s by (simp add: replace_all_hit)
      then consider "contains acc k" | "contains ([] @ replace_all (drop (length old) s) old redacted) k"
        using contains_redacted_append [OF assms] by fastforce
      then show ?thesis
      proof cases
        case 1
        then show ?thesis using contains_mono [of acc k "[]" s] by simp
      next
        case 2
        then have "contains ([] @ drop (length old) s) k"
          using "1.hyps"(1) False s True by blast
        then have "contains ((acc @ take (length old) s) @ drop (length old) s @ []) k"
          using contains_mono by fastforce
        then show ?thesis by simp
      qed
    next
      case noprefix: False
      then have "contains ((acc @ [c]) @ replace_all cs old redacted) k"
        using "1.prems" False s by (simp add: replace_all_miss)
      then have "contains ((acc @ [c]) @ cs) k"
        using "1.hyps"(2) False s noprefix by blast
      then show ?thesis using s by simp
    qed
  qed
qed

text \<open>
  After replacing \<open>k\<close> itself nothing of it is left: the bytes \<open>acc\<close> kept since the last marker never
  complete an occurrence, because the scan would have found it.
\<close>

lemma replace_all_removes_acc:
  assumes "survives k" and "k \<noteq> []"
  shows "(\<And>u v. acc @ s = u @ k @ v \<Longrightarrow> length acc \<le> length u) \<Longrightarrow>
     \<not> contains (acc @ replace_all s k redacted) k"
proof (induction s arbitrary: acc rule: length_induct)
  case (1 s)
  have small: "\<not> contains acc k"
  proof
    assume "contains acc k"
    then obtain u v where "acc = u @ k @ v" by (auto simp: contains_iff)
    with "1.prems" [of u "v @ s"] assms(2) show False by simp
  qed
  show ?case
  proof (cases s)
    case Nil
    with small show ?thesis by simp
  next
    case (Cons c cs)
    show ?thesis
    proof (cases "has_prefix s k")
      case True
      have "\<not> contains ([] @ replace_all (drop (length k) s) k redacted) k"
        using "1.IH" Cons assms(2) by (metis diff_less length_drop length_greater_0_conv
            less_nat_zero_code list.size(3) not_le_imp_less list.distinct(1))
      with small True Cons assms show ?thesis
        using contains_redacted_append [OF assms(1), of acc "replace_all (drop (length k) s) k redacted"]
        by (auto simp: replace_all_hit)
    next
      case False
      have "length (acc @ [c]) \<le> length u" if "(acc @ [c]) @ cs = u @ k @ v" for u v
      proof -
        from that Cons have eq: "acc @ s = u @ k @ v" by simp
        with "1.prems" have "length acc \<le> length u" by blast
        moreover have "length acc \<noteq> length u"
          using eq False by (auto simp: has_prefix_iff)
        ultimately show ?thesis by simp
      qed
      with "1.IH" Cons have "\<not> contains ((acc @ [c]) @ replace_all cs k redacted) k"
        by (metis length_Cons lessI)
      with False Cons assms(2) show ?thesis
        by (simp add: replace_all_miss)
    qed
  qed
qed

lemma replace_all_removes: "survives k \<Longrightarrow> k \<noteq> [] \<Longrightarrow> \<not> contains (replace_all s k redacted) k"
  using replace_all_removes_acc [of k "[]" s] by simp

lemma clean_loop_no_new:
  "survives k \<Longrightarrow> clean_loop ms s = Some c \<Longrightarrow> contains c k \<Longrightarrow> contains s k"
proof (induction ms arbitrary: s)
  case (Cons m ms)
  have "clean_loop ms (replace_all s (lm_Pattern m) redacted) = Some c"
    using Cons.prems(2) by (simp split: if_splits)
  then have "contains ([] @ replace_all s (lm_Pattern m) redacted) k"
    using Cons.IH Cons.prems(1,3) by simp
  then show ?case
    using replace_all_no_new [OF Cons.prems(1), of "[]" s] by simp
qed simp

lemma clean_loop_removes:
  "m \<in> set ms \<Longrightarrow> survives (lm_Pattern m) \<Longrightarrow> lm_Pattern m \<noteq> [] \<Longrightarrow> clean_loop ms s = Some c \<Longrightarrow>
     \<not> contains c (lm_Pattern m)"
proof (induction ms arbitrary: s)
  case (Cons x ms)
  then have tail: "clean_loop ms (replace_all s (lm_Pattern x) redacted) = Some c"
    by (simp split: if_splits)
  show ?case
  proof (cases "m = x")
    case True
    then have "\<not> contains (replace_all s (lm_Pattern x) redacted) (lm_Pattern m)"
      using Cons.prems replace_all_removes by simp
    then show ?thesis
      using clean_loop_no_new [OF Cons.prems(2) tail] by auto
  next
    case False
    with Cons tail show ?thesis by simp
  qed
qed simp

lemma clean_loop_total: "(\<And>m. m \<in> set ms \<Longrightarrow> valid_utf8 (lm_Pattern m)) \<Longrightarrow> clean_loop ms s \<noteq> None"
  by (induction ms arbitrary: s) auto

section \<open>What is detected\<close>

lemma scan_loop_mem:
  "m \<in> set (scan_loop es ps c) \<Longrightarrow> \<exists>e \<in> set es. lm_Pattern m \<in> set (find_all_string e c)"
  by (induction es ps c rule: scan_loop.induct) auto

lemma scan_loop_Nil_iff:
  "length es \<le> length ps \<Longrightarrow> scan_loop es ps c = [] \<longleftrightarrow> (\<forall>e \<in> set es. \<not> match_string e c)"
  by (induction es ps c rule: scan_loop.induct) (auto simp: find_all_string_empty_iff)

lemma compiled_new_detector: "compiled new_detector =
    [re_openai_key, re_generic_key, re_password, re_token_secret, re_private_key]"
  by (simp add: new_detector_def compile_patterns_def default_patterns_list_def List.map_filter_def)

lemma patterns_new_detector: "patterns new_detector = default_patterns_list"
  by (simp add: new_detector_def compile_patterns_def)

text \<open>No expression of the default detector matches the empty text.\<close>

lemma mat_lit_prefix: "mat (lit w) p v t \<Longrightarrow> v = w"
proof (induction w arbitrary: p v)
  case Nil
  then show ?case by (auto simp: lit_def elim: mat_EpsE)
next
  case (Cons c w)
  then show ?case by (fastforce simp: lit_def elim!: mat_SeqE mat_ClsE)
qed

definition nonempty_re :: "re \<Rightarrow> bool" where
  "nonempty_re r \<longleftrightarrow> (\<forall>p v t. mat r p v t \<longrightarrow> v \<noteq> [])"

lemma nonempty_Cls [simp]: "nonempty_re (Cls cs)"
  by (auto simp: nonempty_re_def elim: mat_ClsE)

lemma nonempty_Seq1: "nonempty_re a \<Longrightarrow> nonempty_re (Seq a b)"
  and nonempty_Seq2: "nonempty_re b \<Longrightarrow> nonempty_re (Seq a b)"
  by (force simp: nonempty_re_def elim!: mat_SeqE)+

lemma nonempty_lit: "w \<noteq> [] \<Longrightarrow> nonempty_re (lit w)"
  using mat_lit_prefix by (auto simp: nonempty_re_def)

lemma nonempty_default_res:
  "nonempty_re re_openai_key" "nonempty_re re_generic_key" "nonempty_re re_password"
  "nonempty_re re_token_secret" "nonempty_re re_private_key"
  unfolding re_openai_key_def re_generic_key_def re_password_def re_token_secret_def
    re_private_key_def seqs.simps
  by (blast intro: nonempty_Seq1 nonempty_Seq2 nonempty_lit nonempty_Cls)+

lemma default_nonempty: "e \<in> set (compiled new_detector) \<Longrightarrow> nonempty_re e"
  unfolding compiled_new_detector using nonempty_default_res by auto

lemma default_match_nonempty: "m \<in> set (leak_scan new_detector c) \<Longrightarrow> lm_Pattern m \<noteq> []"
proof -
  assume "m \<in> set (leak_scan new_detector c)"
  then obtain e where "e \<in> set (compiled new_detector)" "lm_Pattern m \<in> set (find_all_string e c)"
    unfolding leak_scan_def using scan_loop_mem by blast
  then show ?thesis
    using default_nonempty find_all_string_sound unfolding nonempty_re_def by blast
qed

lemma match_infix:
  "m \<in> set (leak_scan d c) \<Longrightarrow> \<exists>u w. c = u @ lm_Pattern m @ w"
  unfolding leak_scan_def using scan_loop_mem find_all_string_sound by blast

lemma ascii_clean_total: "list_all is_ascii c \<Longrightarrow> clean_loop (leak_scan d c) c \<noteq> None"
proof (rule clean_loop_total)
  fix x
  assume ascii: "list_all is_ascii c" and "x \<in> set (leak_scan d c)"
  then obtain u w where "c = u @ lm_Pattern x @ w" using match_infix by blast
  with ascii show "valid_utf8 (lm_Pattern x)" by (simp add: ascii_valid_utf8)
qed

section \<open>Properties\<close>

text \<open>
  C10: every text the default detector reports in a tool output, if it contains no square bracket
  and is not itself a part of the marker's word, is absent from the cleaned output; on ASCII output
  the cleaning always succeeds.
\<close>

theorem detected_secrets_redacted:
  assumes "m \<in> set (leak_scan new_detector content)" and "bracket_free (lm_Pattern m)"
    and "\<not> contains ''REDACTED'' (lm_Pattern m)"
  shows "(\<forall>cleaned matches. scan_and_clean new_detector content = Some (cleaned, matches) \<longrightarrow>
            \<not> contains cleaned (lm_Pattern m)) \<and>
         (list_all is_ascii content \<longrightarrow> scan_and_clean new_detector content \<noteq> None)"
proof -
  have "\<not> contains c (lm_Pattern m)" if "clean_loop (leak_scan new_detector content) content = Some c" for c
    using clean_loop_removes [OF assms(1) _ _ that] assms default_match_nonempty
    by (auto simp: survives_def)
  moreover note ascii_clean_total [of content new_detector]
  ultimately show ?thesis
    by (auto simp: scan_and_clean_def Let_def split: option.splits)
qed

theorem detected_secrets_redacted_witness:
  "\<exists>cleaned matches. scan_and_clean new_detector ''use sk-aaaaabbbbbcccccddddd now'' = Some (cleaned, matches) \<and>
     \<not> contains cleaned ''sk-aaaaabbbbbcccccddddd''"
proof -
  have m: "\<lparr>lm_Pattern = ''sk-aaaaabbbbbcccccddddd'', lm_Type = ''api_key''\<rparr>
      \<in> set (leak_scan new_detector ''use sk-aaaaabbbbbcccccddddd now'')"
    by code_simp
  have "\<not> contains ''REDACTED'' ''sk-aaaaabbbbbcccccddddd''"
    "list_all is_ascii ''use sk-aaaaabbbbbcccccddddd now''"
    by code_simp+
  then show ?thesis
    using detected_secrets_redacted [OF m] by (auto simp: bracket_free_def)
qed

text \<open>
  The scan of an output reports nothing exactly when none of the five secret patterns occurs
  in it, and an output with nothing to report is passed on unchanged.
\<close>

lemma clean_output_untouched:
  "(\<forall>e \<in> {re_openai_key, re_generic_key, re_password, re_token_secret, re_private_key}.
      \<not> (\<exists>u v w. content = u @ v @ w \<and> mat e (last_byte None u) v w)) \<longleftrightarrow>
   scan_and_clean new_detector content = Some (content, [])"
proof -
  have "leak_scan new_detector content = [] \<longleftrightarrow>
      (\<forall>e \<in> set (compiled new_detector). \<not> match_string e content)"
    unfolding leak_scan_def
    by (rule scan_loop_Nil_iff) (simp add: compiled_new_detector patterns_new_detector default_patterns_list_def)
  then show ?thesis
    by (auto simp: scan_and_clean_def Let_def compiled_new_detector match_string_iff split: option.splits)
qed

theorem clean_output_untouched_witness:
  "scan_and_clean new_detector [] = Some ([], [])"
proof -
  have "\<not> mat e p [] []" if "e \<in> {re_openai_key, re_generic_key, re_password, re_token_secret, re_private_key}" for e p
    using that default_nonempty [of e] by (auto simp: compiled_new_detector nonempty_re_def)
  then show ?thesis
    using clean_output_untouched [of "[]"] by auto
qed

text \<open>A password that is not valid UTF-8 makes the cleaning panic.\<close>

lemma invalid_bytes_panic: "scan_and_clean new_detector (''pwd='' @ [CHR 0xFF]) = None"
  by code_simp

end
