(* ===== verification/Rate_Limit.thy ===== *)
theory Rate_Limit
  imports Go_Prelude
begin

text \<open>
  The fixed-window rate limiter of \<open>internal/safety/ratelimit.go\<close>. \<open>Allow\<close> holds the limiter's mutex
  for its whole body, so concurrent callers are a sequence of steps in any order; the properties
  quantify over all such sequences.
\<close>

section \<open>State and operations\<close>

record rate_limit =
  rl_count :: int
  rl_window :: instant

record rate_limiter =
  limits :: "string \<rightharpoonup> rate_limit"
  maxCalls :: int
  window :: duration

definition new_rate_limiter :: "int \<Rightarrow> duration \<Rightarrow> rate_limiter" where
  "new_rate_limiter m w = \<lparr>limits = Map.empty, maxCalls = m, window = w\<rparr>"

definition allow :: "instant \<Rightarrow> string \<Rightarrow> rate_limiter \<Rightarrow> bool \<times> rate_limiter" where
  "allow now key r =
     (case limits r key of
        None \<Rightarrow> (True, r\<lparr>limits := (limits r)(key \<mapsto> \<lparr>rl_count = 1, rl_window = now + window r\<rparr>)\<rparr>)
      | Some lm \<Rightarrow>
          if window r > 0 \<and> now > rl_window lm
          then (True, r\<lparr>limits := (limits r)(key \<mapsto> \<lparr>rl_count = 1, rl_window = now + window r\<rparr>)\<rparr>)
          else if rl_count lm \<ge> maxCalls r then (False, r)
          else (True, r\<lparr>limits := (limits r)(key \<mapsto> lm\<lparr>rl_count := rl_count lm + 1\<rparr>)\<rparr>))"

section \<open>Runs\<close>

text \<open>One call: the instant it read, its key, and the answer it got.\<close>

type_synonym rl_call = "instant \<times> string \<times> bool"

fun allow_step :: "rate_limiter \<Rightarrow> rl_call \<Rightarrow> rate_limiter \<Rightarrow> bool" where
  "allow_step r (now, key, b) r' = (allow now key r = (b, r'))"

definition calls_on :: "string \<Rightarrow> rl_call list \<Rightarrow> rl_call list" where
  "calls_on k es = filter (\<lambda>(t, k', b). k' = k) es"

definition granted_on :: "string \<Rightarrow> rl_call list \<Rightarrow> rl_call list" where
  "granted_on k es = filter (\<lambda>(t, k', b). k' = k \<and> b) es"

text \<open>The first call of a key is always granted, so a limit below one acts as one.\<close>

definition budget :: "int \<Rightarrow> int" where
  "budget m = max 1 m"

lemma calls_on_simps [simp]:
  "calls_on k [] = []" "granted_on k [] = []"
  "calls_on k (es @ [(t, k', b)]) = calls_on k es @ (if k' = k then [(t, k', b)] else [])"
  "granted_on k (es @ [(t, k', b)]) = granted_on k es @ (if k' = k \<and> b then [(t, k', b)] else [])"
  by (auto simp: calls_on_def granted_on_def)

text \<open>The run a given sequence of calls makes.\<close>

fun allow_all :: "(instant \<times> string) list \<Rightarrow> rate_limiter \<Rightarrow> rl_call list \<times> rate_limiter" where
  "allow_all [] r = ([], r)"
| "allow_all ((now, key) # cs) r =
     (let (b, r') = allow now key r; (es, r'') = allow_all cs r' in ((now, key, b) # es, r''))"

lemma run_allow_all: "allow_all cs r = (es, r') \<Longrightarrow> run allow_step r es r'"
proof (induction cs r arbitrary: es r' rule: allow_all.induct)
  case (2 now key cs r)
  then show ?case by (auto simp: Let_def split: prod.splits intro: run_Cons)
qed simp

section \<open>Invariant\<close>

definition limiter_inv :: "int \<Rightarrow> duration \<Rightarrow> rate_limiter \<Rightarrow> bool" where
  "limiter_inv m w r \<longleftrightarrow> maxCalls r = m \<and> window r = w \<and>
     (\<forall>k l. limits r k = Some l \<longrightarrow> 1 \<le> rl_count l \<and> rl_count l \<le> budget m)"

lemma allow_params: "allow now k r = (b, r') \<Longrightarrow> maxCalls r' = maxCalls r \<and> window r' = window r"
  by (auto simp: allow_def split: option.splits if_splits)

lemma allow_other_key [frame]:
  "allow now k r = (b, r') \<Longrightarrow> k' \<noteq> k \<Longrightarrow> limits r' k' = limits r k'"
  by (auto simp: allow_def split: option.splits if_splits)

text \<open>The four ways a call on a key can go, seen from the entry of that key.\<close>

lemma allow_cases:
  assumes "allow now k r = (b, r')"
  obtains (opened) "b" "limits r' k = Some \<lparr>rl_count = 1, rl_window = now + window r\<rparr>" "limits r k = None"
  | (reset) l where "b" "limits r k = Some l" "window r > 0" "now > rl_window l"
      "limits r' k = Some \<lparr>rl_count = 1, rl_window = now + window r\<rparr>"
  | (refused) l where "\<not> b" "limits r k = Some l" "limits r' k = Some l" "rl_count l \<ge> maxCalls r"
      "\<not> (window r > 0 \<and> now > rl_window l)"
  | (counted) l where "b" "limits r k = Some l" "rl_count l < maxCalls r"
      "limits r' k = Some (l\<lparr>rl_count := rl_count l + 1\<rparr>)" "\<not> (window r > 0 \<and> now > rl_window l)"
  using assms by (auto simp: allow_def split: option.splits if_splits)

lemma allow_keeps_inv: "allow now k r = (b, r') \<Longrightarrow> limiter_inv m w r \<Longrightarrow> limiter_inv m w r'"
proof -
  assume a: "allow now k r = (b, r')" and i: "limiter_inv m w r"
  have "1 \<le> rl_count l \<and> rl_count l \<le> budget m" if "limits r' k' = Some l" for k' l
  proof (cases "k' = k")
    case True
    from a show ?thesis
      by (cases rule: allow_cases) (use i that True in \<open>fastforce simp: limiter_inv_def budget_def\<close>)+
  next
    case False
    with a i that show ?thesis by (simp add: allow_other_key limiter_inv_def)
  qed
  with a i show ?thesis using allow_params by (simp add: limiter_inv_def)
qed

interpretation limiter: step_invariant "\<lambda>r. r = new_rate_limiter m w" allow_step "limiter_inv m w"
proof (unfold_locales, goal_cases)
  case (1 s)
  then show ?case by (simp add: limiter_inv_def new_rate_limiter_def)
next
  case (2 s e t)
  then show ?case by (cases e) (auto intro: allow_keeps_inv)
qed

lemma run_from_new: "run allow_step (new_rate_limiter m w) es r \<Longrightarrow> limiter_inv m w r"
  using limiter.run_inv by blast

section \<open>Budget within one window\<close>

text \<open>
  While every call on \<open>k\<close> falls between \<open>a\<close> and \<open>a + w\<close>, the entry of \<open>k\<close> counts exactly the
  granted calls, and these are all calls up to the budget.
\<close>

definition one_window :: "int \<Rightarrow> duration \<Rightarrow> instant \<Rightarrow> string \<Rightarrow> rl_call list \<Rightarrow> rate_limiter \<Rightarrow> bool" where
  "one_window m w a k es r \<longleftrightarrow>
     int (length (granted_on k es)) = min (int (length (calls_on k es))) (budget m) \<and>
     (case limits r k of
        None \<Rightarrow> calls_on k es = []
      | Some l \<Rightarrow> calls_on k es \<noteq> [] \<and> rl_count l = int (length (granted_on k es)) \<and>
          (w \<le> 0 \<or> a + w \<le> rl_window l))"

lemma length_pos_int: "xs \<noteq> [] \<Longrightarrow> 1 \<le> int (length xs)"
  by (cases xs) auto

lemma one_window_step:
  assumes "one_window m w a k es r" and "allow t k r = (b, r')" and "limiter_inv m w r"
    and "w \<le> 0 \<or> (a \<le> t \<and> t \<le> a + w)"
  shows "one_window m w a k (es @ [(t, k, b)]) r'"
  using assms(2)
proof (cases rule: allow_cases)
  case opened
  then show ?thesis
    using assms by (auto simp: one_window_def limiter_inv_def budget_def)
next
  case (reset l)
  then show ?thesis
    using assms by (auto simp: one_window_def limiter_inv_def)
next
  case (refused l)
  then show ?thesis
    using assms length_pos_int [of "calls_on k es"]
    by (auto simp: one_window_def limiter_inv_def budget_def)
next
  case (counted l)
  then show ?thesis
    using assms by (auto simp: one_window_def limiter_inv_def budget_def)
qed

lemma one_window_run:
  assumes "run allow_step (new_rate_limiter m w) es r"
    and "\<forall>(t, k', b) \<in> set es. k' = k \<longrightarrow> w \<le> 0 \<or> (a \<le> t \<and> t \<le> a + w)"
  shows "one_window m w a k es r"
  using assms
proof (induction "new_rate_limiter m w" es r rule: run.induct)
  case run_nil
  then show ?case by (simp add: one_window_def new_rate_limiter_def budget_def)
next
  case (run_snoc es r e r')
  obtain t k' b where e: "e = (t, k', b)" by (cases e)
  have ih: "one_window m w a k es r" using run_snoc by auto
  have st: "allow t k' r = (b, r')" using run_snoc.hyps e by auto
  show ?case
  proof (cases "k' = k")
    case True
    then show ?thesis
      using one_window_step [OF ih] st run_from_new [OF run_snoc.hyps(1)] run_snoc.prems e by auto
  next
    case False
    then show ?thesis
      using ih allow_other_key [OF st] e by (simp add: one_window_def split: option.splits)
  qed
qed

section \<open>Budget in any period of the window's length\<close>

definition sliding :: "int \<Rightarrow> duration \<Rightarrow> instant \<Rightarrow> string \<Rightarrow> rl_call list \<Rightarrow> rate_limiter \<Rightarrow> bool" where
  "sliding m w a k es r \<longleftrightarrow>
     (case limits r k of
        None \<Rightarrow> granted_on k es = []
      | Some l \<Rightarrow>
          int (length (granted_on k es)) \<le> rl_count l - 1 \<or>
          (a + w \<le> rl_window l \<and> int (length (granted_on k es)) \<le> budget m - 1 + rl_count l))"

lemma sliding_step:
  assumes "sliding m w a k es r" and "allow t k r = (b, r')" and "limiter_inv m w r"
    and "0 < w" and "a \<le> t" and "t \<le> a + w"
  shows "sliding m w a k (es @ [(t, k, b)]) r'"
  using assms(2)
proof (cases rule: allow_cases)
  case opened
  then show ?thesis using assms by (auto simp: sliding_def limiter_inv_def budget_def)
next
  case (reset l)
  then have "rl_count l \<le> budget m" using assms(3) by (simp add: limiter_inv_def)
  moreover have "int (length (granted_on k es)) \<le> rl_count l - 1"
    using reset assms by (auto simp: sliding_def)
  ultimately have "int (length (granted_on k es)) + 1 \<le> budget m" by linarith
  then show ?thesis
    using reset assms by (simp add: sliding_def limiter_inv_def)
next
  case (refused l)
  then show ?thesis using assms by (auto simp: sliding_def)
next
  case (counted l)
  then show ?thesis using assms by (auto simp: sliding_def)
qed

lemma sliding_run:
  assumes "run allow_step r es r'" and "limiter_inv m w r" and "0 < w"
    and "\<forall>(t, k', b) \<in> set es. k' = k \<longrightarrow> a \<le> t \<and> t \<le> a + w"
  shows "sliding m w a k es r' \<and> limiter_inv m w r'"
  using assms
proof (induction rule: run.induct)
  case run_nil
  then show ?case by (fastforce simp: sliding_def limiter_inv_def split: option.splits)
next
  case (run_snoc s es s' e u)
  obtain t k' b where e: "e = (t, k', b)" by (cases e)
  have ih: "sliding m w a k es s'" "limiter_inv m w s'" using run_snoc by auto
  have st: "allow t k' s' = (b, u)" using run_snoc.hyps(2) e by simp
  have "sliding m w a k (es @ [e]) u"
  proof (cases "k' = k")
    case True
    then show ?thesis
      using sliding_step [OF ih(1)] ih(2) st run_snoc.prems e by auto
  next
    case False
    then show ?thesis
      using ih allow_other_key [OF st] e by (simp add: sliding_def split: option.splits)
  qed
  then show ?case using allow_keeps_inv [OF st ih(2)] by simp
qed

section \<open>Properties\<close>

text \<open>
  From a new limiter, however the calls of all keys interleave, if the calls on \<open>k\<close> fall within
  one window (or the window is not positive, when it never ends) exactly the first
  \<open>max 1 maxCalls\<close> of them are granted.
\<close>

lemma window_budget_exact:
  assumes "run allow_step (new_rate_limiter m w) es r"
    and "\<forall>(t, k', b) \<in> set es. k' = k \<longrightarrow> w \<le> 0 \<or> (a \<le> t \<and> t \<le> a + w)"
  shows "int (length (granted_on k es)) = min (int (length (calls_on k es))) (max 1 m)"
  using one_window_run [OF assms] by (simp add: one_window_def budget_def)

theorem window_budget_exact_witness:
  "int (length (granted_on ''u'' (fst (allow_all [(0, ''u''), (5, ''v''), (7, ''u''), (9, ''u'')]
     (new_rate_limiter 2 10))))) = 2"
proof -
  have e: "fst (allow_all [(0, ''u''), (5, ''v''), (7, ''u''), (9, ''u'')] (new_rate_limiter 2 10)) =
      [(0, ''u'', True), (5, ''v'', True), (7, ''u'', True), (9, ''u'', False)]"
    by (simp add: allow_def new_rate_limiter_def)
  show ?thesis
    using window_budget_exact [OF run_allow_all [OF surjective_pairing], of
        "[(0, ''u''), (5, ''v''), (7, ''u''), (9, ''u'')]" 2 10 "''u''" 0]
    unfolding e by (simp add: calls_on_def)
qed

text \<open>
  C27: at any time of a limiter's life, over any period no longer than the window, at most
  \<open>2 * max 1 maxCalls - 1\<close> calls on one key are granted: a window that ends inside the period lets
  at most one further budget through.
\<close>

theorem sliding_budget_bound:
  assumes "run allow_step (new_rate_limiter m w) history r" and "run allow_step r es r'" and "0 < w"
    and "\<forall>(t, k', b) \<in> set es. k' = k \<longrightarrow> a \<le> t \<and> t \<le> a + w"
  shows "int (length (granted_on k es)) \<le> 2 * max 1 m - 1"
proof -
  have "sliding m w a k es r' \<and> limiter_inv m w r'"
    using sliding_run [OF assms(2) run_from_new [OF assms(1)] assms(3,4)] .
  then show ?thesis
    by (auto simp: sliding_def limiter_inv_def budget_def split: option.splits) force+
qed

theorem sliding_budget_bound_witness:
  "length (granted_on ''u'' (fst (allow_all [(7, ''u''), (11, ''u''), (12, ''u'')]
     (snd (allow_all [(0, ''u'')] (new_rate_limiter 2 10)))))) = 3 \<and> (3 :: int) \<le> 2 * max 1 2 - 1"
proof -
  have e: "fst (allow_all [(7, ''u''), (11, ''u''), (12, ''u'')]
      (snd (allow_all [(0, ''u'')] (new_rate_limiter 2 10)))) =
      [(7, ''u'', True), (11, ''u'', True), (12, ''u'', True)]"
    by (simp add: allow_def new_rate_limiter_def)
  show ?thesis
    using sliding_budget_bound [OF run_allow_all [of "[(0, ''u'')]", OF surjective_pairing]
        run_allow_all [of "[(7, ''u''), (11, ''u''), (12, ''u'')]", OF surjective_pairing],
        of 2 10 "''u''" 7]
    unfolding e by (simp add: granted_on_def)
qed

end
