(* ===== verification/Safety_Layer.thy ===== *)
theory Safety_Layer
  imports Policy Leak_Detector Rate_Limit
begin

text \<open>
  The safety layer that the agent calls on inbound messages, on tool outputs and before tool calls:
  \<open>internal/safety/layer.go\<close>, \<open>config.go\<close> and the output sanitizer
  \<open>internal/safety/sanitizer\<close>. It puts the policy, the leak detector and the rate limiter together.
\<close>

section \<open>Output sanitizer\<close>

record warning =
  w_Pattern :: string
  w_Severity :: severity
  w_Location :: "int \<times> int"
  w_Description :: string

record soutput =
  so_Content :: string
  so_Warnings :: "warning list"
  so_WasModified :: bool

record sanitizer =
  san_policy :: policy

definition new_sanitizer :: "policy \<Rightarrow> sanitizer" where
  "new_sanitizer p = \<lparr>san_policy = p\<rparr>"

definition truncation_note :: "int \<Rightarrow> nat \<Rightarrow> string" where
  "truncation_note maxLen n =
     [CHR 0x0A, CHR 0x0A] @ ''[... truncated: showing '' @ show_int maxLen @ ''/'' @ show_nat n @
     '' bytes. Use the json tool with source_tool_call_id to query the full output.]''"

definition sanitizer_sanitize_tool_output :: "sanitizer \<Rightarrow> string \<Rightarrow> string \<Rightarrow> int \<Rightarrow> soutput" where
  "sanitizer_sanitize_tool_output s toolName content maxLen =
     (let tooLong = maxLen > 0 \<and> int (length content) > maxLen;
          truncatedContent =
            (if tooLong then take (nat maxLen) content @ truncation_note maxLen (length content)
             else content);
          sizeWarnings =
            (if tooLong then
               [\<lparr>w_Pattern = ''output_too_large'', w_Severity = SevLow,
                 w_Location = (maxLen, int (length content)),
                 w_Description = ''Output from tool '' @ [CHR 0x27] @ toolName @ [CHR 0x27] @
                   '' was truncated due to size''\<rparr>]
             else [])
      in \<lparr>so_Content = truncatedContent,
          so_Warnings = sizeWarnings @
            map (\<lambda>v. \<lparr>w_Pattern = v_RuleID v, w_Severity = v_Severity v,
                      w_Location = (0, int (length truncatedContent)),
                      w_Description = v_Description v\<rparr>)
              (policy_evaluate (san_policy s) truncatedContent),
          so_WasModified = tooLong\<rparr>)"

section \<open>The layer\<close>

record safety_config =
  MaxOutputLength :: int
  RateMaxCalls :: int
  RateWindow :: duration

definition safety_default_config :: safety_config where
  "safety_default_config = \<lparr>MaxOutputLength = 10000, RateMaxCalls = 100, RateWindow = minute\<rparr>"

record layer =
  l_validator :: policy
  l_sanitizer :: sanitizer
  l_policy :: policy
  l_leakDetector :: detector
  l_rateLimiter :: rate_limiter
  l_config :: safety_config

definition new_layer_with_config :: "safety_config \<Rightarrow> layer" where
  "new_layer_with_config cfg =
     (let p = load_defaults new_policy
      in \<lparr>l_validator = p, l_sanitizer = new_sanitizer p, l_policy = p,
          l_leakDetector = new_detector,
          l_rateLimiter = new_rate_limiter (RateMaxCalls cfg) (RateWindow cfg),
          l_config = cfg\<rparr>)"

definition new_layer :: layer where
  "new_layer = new_layer_with_config safety_default_config"

text \<open>
  A Go \<open>error\<close> of the layer is its text; \<^const>\<open>None\<close> is \<open>nil\<close>. \<open>SanitizeToolOutput\<close> never returns an
  error; its \<^const>\<open>None\<close> is the panic of the leak detector.
\<close>

definition result_error :: "string \<Rightarrow> vresult \<Rightarrow> string option" where
  "result_error fallback r =
     (if \<not> IsValid r then
        Some (''safety: '' @ (case Errors r of e # _ \<Rightarrow> ve_Message e | [] \<Rightarrow> fallback))
      else None)"

definition scan_inbound :: "layer \<Rightarrow> string \<Rightarrow> string option" where
  "scan_inbound l content =
     result_error ''input blocked by policy'' (validate_input (l_validator l) content)"

definition sanitize_tool_output :: "layer \<Rightarrow> string \<Rightarrow> string option" where
  "sanitize_tool_output l content =
     (let sanitized = sanitizer_sanitize_tool_output (l_sanitizer l) [] content
                        (MaxOutputLength (l_config l))
      in map_option fst (scan_and_clean (l_leakDetector l) (so_Content sanitized)))"

definition layer_scan_code :: "(string \<Rightarrow> string) \<Rightarrow> layer \<Rightarrow> string \<Rightarrow> string option" where
  "layer_scan_code ucase l code = result_error ''code blocked by policy'' (scan_code ucase code)"

definition layer_allow :: "instant \<Rightarrow> string \<Rightarrow> layer \<Rightarrow> bool \<times> layer" where
  "layer_allow now key l =
     (let (b, r) = allow now key (l_rateLimiter l) in (b, l\<lparr>l_rateLimiter := r\<rparr>))"

section \<open>Lemmas\<close>

lemma new_layer_fields [simp]:
  "l_validator (new_layer_with_config cfg) = default_policy"
  "l_sanitizer (new_layer_with_config cfg) = \<lparr>san_policy = default_policy\<rparr>"
  "l_leakDetector (new_layer_with_config cfg) = new_detector"
  "l_config (new_layer_with_config cfg) = cfg"
  "l_rateLimiter (new_layer_with_config cfg) = new_rate_limiter (RateMaxCalls cfg) (RateWindow cfg)"
  by (simp_all add: new_layer_with_config_def default_policy_def new_sanitizer_def Let_def)

lemma result_error_None: "result_error f r = None \<longleftrightarrow> IsValid r"
  by (simp add: result_error_def)

lemma layer_allow_frame [frame]:
  "layer_allow now key l = (b, l') \<Longrightarrow>
     l_validator l' = l_validator l \<and> l_sanitizer l' = l_sanitizer l \<and>
     l_leakDetector l' = l_leakDetector l \<and> l_config l' = l_config l"
  by (auto simp: layer_allow_def Let_def split: prod.splits)

lemma validate_input_first_error:
  "Errors (validate_input p c) =
     (if trim_space c = [] then
        [\<lparr>ve_Field = ''content'', ve_Message = ''content is empty'', ve_Code = ErrForbiddenContent\<rparr>]
      else if 100000 < length c then
        [\<lparr>ve_Field = ''content'', ve_Message = ''content exceeds maximum length'', ve_Code = ErrTooLong\<rparr>]
      else map (\<lambda>v. \<lparr>ve_Field = ''content'', ve_Message = v_Description v,
          ve_Code = ErrSuspiciousPattern\<rparr>) (filter (\<lambda>v. v_Action v = Block) (policy_evaluate p c)))"
  by (auto simp: validate_input_def with_error_def new_result_def apply_violations_Errors)

lemma hd_map_filter_find:
  "(case map f (filter P xs) of y # _ \<Rightarrow> g y | [] \<Rightarrow> d) = (case find P xs of Some x \<Rightarrow> g (f x) | None \<Rightarrow> d)"
  by (induction xs) auto

lemma sanitizer_content:
  "so_Content (sanitizer_sanitize_tool_output s t c n) =
     (if n > 0 \<and> int (length c) > n then take (nat n) c @ truncation_note n (length c) else c)"
  by (simp add: sanitizer_sanitize_tool_output_def Let_def)

section \<open>Properties\<close>

text \<open>
  The answer of \<open>ScanInbound\<close> on every branch: blank and oversized messages are refused with
  their own errors; otherwise the message of the first rule of the default policy, in the order
  the rules are loaded, whose pattern occurs in the content is reported, and content in which none
  occurs passes.
\<close>

lemma scan_inbound_exact:
  "scan_inbound (new_layer_with_config cfg) content =
     (if trim_space content = [] then Some ''safety: content is empty''
      else if 100000 < length content then Some ''safety: content exceeds maximum length''
      else map_option (\<lambda>r. ''safety: '' @ r_Description r)
             (find (\<lambda>r. \<exists>e. r_Pattern r = Some e \<and> occurs e content) (rules default_policy)))"
proof -
  let ?v = "validate_input default_policy content"
  have v: "IsValid ?v \<longleftrightarrow> Errors ?v = []"
    using wf_validate_input by (simp add: wf_result_def)
  have eq: "filter (\<lambda>r. rule_hits r content \<and> r_Action r = Block) (rules default_policy) =
      filter (\<lambda>r. rule_hits r content) (rules default_policy)"
    using default_rules_block by (auto intro: filter_cong)
  have "filter P xs = [] \<longleftrightarrow> find P xs = None" for P :: "rule \<Rightarrow> bool" and xs
    by (induction xs) auto
  then show ?thesis
    unfolding scan_inbound_def new_layer_fields result_error_def v validate_input_first_error
      policy_evaluate_blocks eq rule_hits_occurs [symmetric]
    by (auto simp: hd_map_filter_find [where g = ve_Message] violation_of_def o_def
        split: option.splits)
qed

text \<open>
  What the agent passes on of a tool output: no secret that the detector finds in the
  (possibly truncated) output remains in it, and an output within the size limit in which no
  pattern occurs is passed on unchanged.
\<close>

lemma sanitized_output_clean:
  fixes cfg :: safety_config and content :: string
  defines "l \<equiv> new_layer_with_config cfg"
  defines "cut_off \<equiv> so_Content (sanitizer_sanitize_tool_output (l_sanitizer l) [] content (MaxOutputLength cfg))"
  shows "(\<forall>m \<in> set (leak_scan new_detector cut_off). bracket_free (lm_Pattern m) \<longrightarrow>
            \<not> contains ''REDACTED'' (lm_Pattern m) \<longrightarrow>
            (\<forall>out. sanitize_tool_output l content = Some out \<longrightarrow> \<not> contains out (lm_Pattern m))) \<and>
         (\<not> (0 < MaxOutputLength cfg \<and> MaxOutputLength cfg < int (length content)) \<longrightarrow>
            leak_scan new_detector content = [] \<longrightarrow> sanitize_tool_output l content = Some content)"
proof -
  have out: "sanitize_tool_output l content = clean_loop (leak_scan new_detector cut_off) cut_off"
    by (simp add: sanitize_tool_output_def l_def cut_off_def scan_and_clean_def Let_def split: option.splits)
  have "\<not> contains out (lm_Pattern m)"
    if "m \<in> set (leak_scan new_detector cut_off)" "bracket_free (lm_Pattern m)"
      "\<not> contains ''REDACTED'' (lm_Pattern m)"
      "clean_loop (leak_scan new_detector cut_off) cut_off = Some out" for m out
    using clean_loop_removes [OF that(1) _ _ that(4)] that default_match_nonempty
    by (auto simp: survives_def)
  moreover have "clean_loop (leak_scan new_detector cut_off) cut_off = Some content"
    if "\<not> (0 < MaxOutputLength cfg \<and> MaxOutputLength cfg < int (length content))"
      "leak_scan new_detector content = []"
    using that by (auto simp: cut_off_def sanitizer_content)
  ultimately show ?thesis
    unfolding out by blast
qed

theorem sanitized_output_clean_witness:
  "sanitize_tool_output (new_layer_with_config safety_default_config) ''ok'' = Some ''ok'' \<and>
   (\<exists>out. sanitize_tool_output (new_layer_with_config safety_default_config)
       ''use sk-aaaaabbbbbcccccddddd now'' = Some out \<and> \<not> contains out ''sk-aaaaabbbbbcccccddddd'')"
proof
  have "leak_scan new_detector ''ok'' = []"
    by code_simp
  then show "sanitize_tool_output (new_layer_with_config safety_default_config) ''ok'' = Some ''ok''"
    using sanitized_output_clean [of safety_default_config "''ok''"]
    by (simp add: safety_default_config_def)
  let ?c = "''use sk-aaaaabbbbbcccccddddd now''"
  have "\<lparr>lm_Pattern = ''sk-aaaaabbbbbcccccddddd'', lm_Type = ''api_key''\<rparr> \<in> set (leak_scan new_detector ?c)"
    "\<not> contains ''REDACTED'' ''sk-aaaaabbbbbcccccddddd''"
    by code_simp+
  moreover have "list_all is_ascii ?c" by code_simp
  then have "sanitize_tool_output (new_layer_with_config safety_default_config) ?c \<noteq> None"
    using ascii_clean_total [of ?c new_detector]
    by (auto simp: sanitize_tool_output_def sanitizer_content safety_default_config_def scan_and_clean_def
        Let_def split: option.splits)
  ultimately show "\<exists>out. sanitize_tool_output (new_layer_with_config safety_default_config) ?c = Some out \<and>
      \<not> contains out ''sk-aaaaabbbbbcccccddddd''"
    using sanitized_output_clean [of safety_default_config ?c]
    by (auto simp: safety_default_config_def sanitizer_content bracket_free_def)
qed

end
