(* ===== verification/Gate.thy ===== *)
theory Gate
  imports Go_Prelude
begin

text \<open>
  Execution gates: \<open>internal/gate/gate.go\<close> (the types), \<open>approval.go\<close> (the approval gate and the
  default requirements) and \<open>risk.go\<close> (requirements from risk levels, trust and learned approvals).
\<close>

section \<open>Types\<close>

datatype approval_requirement = Never | UnlessAutoApproved | Always

datatype execution_mode = Interactive | Autonomous

datatype gate_decision = Allow | Deny | Pause

record gate_context =
  gc_ToolName :: string
  gc_Params :: params
  gc_UserID :: string
  gc_ThreadID :: string
  gc_AutoApproved :: "string \<Rightarrow> bool"
  gc_ExecutionMode :: execution_mode
  gc_Channel :: string

record pending_gate =
  pg_RequestID :: string
  pg_GateName :: string
  pg_UserID :: string
  pg_ThreadID :: string
  pg_ToolName :: string
  pg_Params :: params
  pg_Description :: string
  pg_CreatedAt :: instant
  pg_ExpiresAt :: instant
  pg_SourceChannel :: string

definition is_required :: "approval_requirement \<Rightarrow> bool" where
  "is_required a \<longleftrightarrow> a \<noteq> Never"

definition is_expired :: "instant \<Rightarrow> pending_gate \<Rightarrow> bool" where
  "is_expired now p \<longleftrightarrow> now > pg_ExpiresAt p"

text \<open>The requirements are ordered by strictness, as the integer constants of the source are.\<close>

instantiation approval_requirement :: linorder
begin

definition requirement_rank :: "approval_requirement \<Rightarrow> nat" where
  "requirement_rank a = (case a of Never \<Rightarrow> 0 | UnlessAutoApproved \<Rightarrow> 1 | Always \<Rightarrow> 2)"

definition less_eq_approval_requirement :: "approval_requirement \<Rightarrow> approval_requirement \<Rightarrow> bool" where
  "a \<le> b \<longleftrightarrow> requirement_rank a \<le> requirement_rank b"

definition less_approval_requirement :: "approval_requirement \<Rightarrow> approval_requirement \<Rightarrow> bool" where
  "a < b \<longleftrightarrow> requirement_rank a < requirement_rank b"

instance
  by standard
    (auto simp: less_eq_approval_requirement_def less_approval_requirement_def requirement_rank_def
      split: approval_requirement.splits)

end

section \<open>The approval gate\<close>

text \<open>The requirement function of an approval gate: tool name, parameters and user.\<close>

type_synonym requirement_fn = "string \<Rightarrow> params \<Rightarrow> string \<Rightarrow> approval_requirement"

definition approval_gate_name :: string where
  "approval_gate_name = ''approval''"

definition approval_gate_evaluate :: "requirement_fn \<Rightarrow> gate_context \<Rightarrow> gate_decision" where
  "approval_gate_evaluate requirementFn ctx =
     (let req = requirementFn (gc_ToolName ctx) (gc_Params ctx) (gc_UserID ctx);
          isAutoApproved = gc_AutoApproved ctx (gc_ToolName ctx)
      in case gc_ExecutionMode ctx of
           Autonomous \<Rightarrow>
             (case req of
                Never \<Rightarrow> Allow
              | UnlessAutoApproved \<Rightarrow> if isAutoApproved then Allow else Deny
              | Always \<Rightarrow> Deny)
         | Interactive \<Rightarrow>
             (case req of
                Never \<Rightarrow> Allow
              | UnlessAutoApproved \<Rightarrow> if isAutoApproved then Allow else Pause
              | Always \<Rightarrow> Pause))"

definition default_tool_requirement :: requirement_fn where
  "default_tool_requirement toolName ps _ =
     (if toolName = ''shell'' then UnlessAutoApproved
      else if toolName = ''file'' then
        (let action = param_str ps ''action''
         in if action = ''write'' \<or> action = ''delete'' \<or> action = ''mkdir'' then UnlessAutoApproved
            else Never)
      else if toolName = ''http'' then
        (let meth = param_str ps ''method''
         in if meth \<noteq> ''GET'' \<and> meth \<noteq> ''HEAD'' then UnlessAutoApproved else Never)
      else if toolName = ''memory'' then
        (let action = param_str ps ''action''
         in if action = ''set'' \<or> action = ''delete'' then UnlessAutoApproved else Never)
      else if toolName = ''echo'' \<or> toolName = ''time'' \<or> toolName = ''json'' then Never
      else UnlessAutoApproved)"

definition describe_pending :: "string \<Rightarrow> params \<Rightarrow> string" where
  "describe_pending toolName ps =
     (if toolName = ''shell'' then
        utf8 [230, 137, 167, 232, 161, 140] @ '' shell '' @
        utf8 [229, 145, 189, 228, 187, 164] @ '': '' @ param_str ps ''command''
      else if toolName = ''file'' then
        utf8 [230, 150, 135, 228, 187, 182, 230, 147, 141, 228, 189, 156] @ '' ['' @
        param_str ps ''action'' @ '']: '' @ param_str ps ''path''
      else if toolName = ''http'' then
        ''HTTP '' @ utf8 [232, 175, 183, 230, 177, 130] @ '' ['' @ param_str ps ''method'' @
        '']: '' @ param_str ps ''url''
      else
        utf8 [232, 176, 131, 231, 148, 168, 229, 183, 165, 229, 133, 183] @ '': '' @ toolName)"

section \<open>Risk levels\<close>

datatype risk_level = RiskLow | RiskMedium | RiskHigh

datatype trust_level = TrustCautious | TrustBalanced | TrustPermissive

record auto_approve_entry =
  ae_Key :: string
  ae_UserID :: string
  ae_ApprovedAt :: instant
  ae_LastUsed :: instant

definition learned_auto_approve_ttl :: duration where
  "learned_auto_approve_ttl = 7 * 24 * hour"

record risk_evaluator =
  trustLevel :: trust_level
  learnedAutoApproves :: "string \<rightharpoonup> auto_approve_entry"

definition new_risk_based_evaluator :: "trust_level \<Rightarrow> risk_evaluator" where
  "new_risk_based_evaluator trust = \<lparr>trustLevel = trust, learnedAutoApproves = Map.empty\<rparr>"

definition local_prefixes :: "string list" where
  "local_prefixes = [''localhost'', ''127.0.0.1'', ''0.0.0.0'', ''::1'']"

definition private_prefixes :: "string list" where
  "private_prefixes =
     [''192.168.'', ''10.'', ''172.16.'', ''172.17.'', ''172.18.'', ''172.19.'', ''172.20.'', ''172.21.'',
      ''172.22.'', ''172.23.'', ''172.24.'', ''172.25.'', ''172.26.'', ''172.27.'', ''172.28.'', ''172.29.'',
      ''172.30.'', ''172.31.'']"

definition is_external_domain :: "string \<Rightarrow> bool" where
  "is_external_domain url =
     (if url = [] then False
      else if \<exists>p \<in> set local_prefixes. contains url p then False
      else if \<exists>p \<in> set private_prefixes.
                has_prefix url (''http://'' @ p) \<or> has_prefix url (''https://'' @ p) then False
      else True)"

definition assess_risk :: "string \<Rightarrow> params \<Rightarrow> risk_level" where
  "assess_risk toolName ps =
     (if toolName = ''shell'' then RiskHigh
      else if toolName = ''file'' then
        (let action = param_str ps ''action''
         in if action = ''read'' then RiskLow
            else if action = ''write'' then RiskMedium
            else if action = ''delete'' \<or> action = ''mkdir'' then RiskHigh
            else RiskMedium)
      else if toolName = ''http'' then
        (let meth = param_str ps ''method''
         in if meth = ''GET'' \<or> meth = ''HEAD'' then RiskLow
            else if is_external_domain (param_str ps ''url'') then RiskHigh
            else RiskMedium)
      else if toolName = ''memory'' then
        (if param_str ps ''action'' = ''get'' then RiskLow else RiskMedium)
      else if toolName = ''echo'' \<or> toolName = ''time'' \<or> toolName = ''json'' then RiskLow
      else RiskMedium)"

definition auto_approve_key :: "string \<Rightarrow> params \<Rightarrow> string" where
  "auto_approve_key toolName ps = toolName @ '':'' @ param_str ps ''action''"

definition learned_key :: "string \<Rightarrow> string \<Rightarrow> params \<Rightarrow> string" where
  "learned_key userID toolName ps = userID @ ''/'' @ auto_approve_key toolName ps"

definition is_learned_approved :: "instant \<Rightarrow> risk_evaluator \<Rightarrow> string \<Rightarrow> params \<Rightarrow> string \<Rightarrow> bool" where
  "is_learned_approved now e toolName ps userID =
     (case learnedAutoApproves e (learned_key userID toolName ps) of
        None \<Rightarrow> False
      | Some entry \<Rightarrow> \<not> (now - ae_LastUsed entry > learned_auto_approve_ttl))"

definition risk_evaluate :: "instant \<Rightarrow> risk_evaluator \<Rightarrow> requirement_fn" where
  "risk_evaluate now e toolName ps userID =
     (case assess_risk toolName ps of
        RiskLow \<Rightarrow> Never
      | RiskHigh \<Rightarrow> Always
      | RiskMedium \<Rightarrow>
          (case trustLevel e of
             TrustPermissive \<Rightarrow> Never
           | TrustCautious \<Rightarrow> UnlessAutoApproved
           | TrustBalanced \<Rightarrow>
               if is_learned_approved now e toolName ps userID then Never else UnlessAutoApproved))"

definition record_approval :: "instant \<Rightarrow> string \<Rightarrow> params \<Rightarrow> string \<Rightarrow> risk_evaluator \<Rightarrow> risk_evaluator" where
  "record_approval now toolName ps userID e =
     (let key = learned_key userID toolName ps
      in e\<lparr>learnedAutoApproves := (learnedAutoApproves e)(key \<mapsto>
           \<lparr>ae_Key = key, ae_UserID = userID, ae_ApprovedAt = now, ae_LastUsed = now\<rparr>)\<rparr>)"

definition update_last_used :: "instant \<Rightarrow> string \<Rightarrow> params \<Rightarrow> string \<Rightarrow> risk_evaluator \<Rightarrow> risk_evaluator" where
  "update_last_used now toolName ps userID e =
     (let key = learned_key userID toolName ps
      in case learnedAutoApproves e key of
           None \<Rightarrow> e
         | Some entry \<Rightarrow>
             e\<lparr>learnedAutoApproves := (learnedAutoApproves e)(key \<mapsto> entry\<lparr>ae_LastUsed := now\<rparr>)\<rparr>)"

text \<open>The range over the learned entries, visiting the keys \<open>ks\<close>.\<close>

fun cleanup_loop :: "instant \<Rightarrow> string list \<Rightarrow> (string \<rightharpoonup> auto_approve_entry) \<Rightarrow> string \<rightharpoonup> auto_approve_entry" where
  "cleanup_loop now [] m = m"
| "cleanup_loop now (k # ks) m =
     (case m k of
        None \<Rightarrow> cleanup_loop now ks m
      | Some entry \<Rightarrow>
          cleanup_loop now ks
            (if now - ae_LastUsed entry > learned_auto_approve_ttl then m(k := None) else m))"

definition cleanup_expired :: "instant \<Rightarrow> string list \<Rightarrow> risk_evaluator \<Rightarrow> risk_evaluator" where
  "cleanup_expired now ks e =
     e\<lparr>learnedAutoApproves := cleanup_loop now ks (learnedAutoApproves e)\<rparr>"

definition learned_count :: "risk_evaluator \<Rightarrow> nat" where
  "learned_count e = map_len (learnedAutoApproves e)"

section \<open>Lemmas on decisions\<close>

lemma approval_gate_allow_iff:
  "approval_gate_evaluate f ctx = Allow \<longleftrightarrow>
     (let req = f (gc_ToolName ctx) (gc_Params ctx) (gc_UserID ctx)
      in req = Never \<or> (req = UnlessAutoApproved \<and> gc_AutoApproved ctx (gc_ToolName ctx)))"
  by (auto simp: approval_gate_evaluate_def Let_def split: execution_mode.splits approval_requirement.splits)

lemma risk_evaluate_Always: "risk_evaluate now e t ps u = Always \<longleftrightarrow> assess_risk t ps = RiskHigh"
  by (auto simp: risk_evaluate_def split: risk_level.splits trust_level.splits)

lemma risk_evaluate_Never:
  "risk_evaluate now e t ps u = Never \<longleftrightarrow>
     assess_risk t ps = RiskLow \<or>
     (assess_risk t ps = RiskMedium \<and>
        (trustLevel e = TrustPermissive \<or>
         (trustLevel e = TrustBalanced \<and> is_learned_approved now e t ps u)))"
  by (auto simp: risk_evaluate_def split: risk_level.splits trust_level.splits)

lemma cleanup_loop_lookup:
  "cleanup_loop now ks m k =
     (case m k of
        None \<Rightarrow> None
      | Some entry \<Rightarrow>
          if k \<in> set ks \<and> now - ae_LastUsed entry > learned_auto_approve_ttl then None else Some entry)"
  by (induction ks arbitrary: m) (auto split: option.splits)

lemma learned_key_user:
  assumes "learned_key u t ps = learned_key u' t' ps'" and "CHR ''/'' \<notin> set u" and "CHR ''/'' \<notin> set u'"
  shows "u = u' \<and> auto_approve_key t ps = auto_approve_key t' ps'"
  using sep_key_inject [of u "CHR ''/''" "auto_approve_key t ps" u' "auto_approve_key t' ps'"] assms
  by (simp add: learned_key_def)

lemma learned_key_inject:
  assumes "learned_key u t ps = learned_key u' t' ps'" and "CHR ''/'' \<notin> set u" and "CHR ''/'' \<notin> set u'"
    and "CHR '':'' \<notin> set t" and "CHR '':'' \<notin> set t'"
  shows "u = u' \<and> t = t' \<and> param_str ps ''action'' = param_str ps' ''action''"
  using learned_key_user [OF assms(1-3)] assms(4,5)
    sep_key_inject [of t "CHR '':''" "param_str ps ''action''" t' "param_str ps' ''action''"]
  by (simp add: auto_approve_key_def)

section \<open>Runs of the evaluator\<close>

datatype learn_event =
    Recorded instant string params string
  | Used instant string params string
  | Cleaned instant "string list"

fun learn_step :: "risk_evaluator \<Rightarrow> learn_event \<Rightarrow> risk_evaluator \<Rightarrow> bool" where
  "learn_step e (Recorded now t ps u) e' = (e' = record_approval now t ps u e)"
| "learn_step e (Used now t ps u) e' = (e' = update_last_used now t ps u e)"
| "learn_step e (Cleaned now ks) e' =
     (range_order ks (learnedAutoApproves e) \<and> e' = cleanup_expired now ks e)"

definition recorded_under :: "learn_event list \<Rightarrow> string \<Rightarrow> bool" where
  "recorded_under es k \<longleftrightarrow> (\<exists>now t ps u. Recorded now t ps u \<in> set es \<and> learned_key u t ps = k)"

definition touched_at :: "learn_event list \<Rightarrow> string \<Rightarrow> instant \<Rightarrow> bool" where
  "touched_at es k now \<longleftrightarrow>
     (\<exists>t ps u. (Recorded now t ps u \<in> set es \<or> Used now t ps u \<in> set es) \<and> learned_key u t ps = k)"

lemma recorded_under_mono: "recorded_under es k \<Longrightarrow> recorded_under (es @ [e]) k"
  by (auto simp: recorded_under_def)

lemma touched_at_mono: "touched_at es k n \<Longrightarrow> touched_at (es @ [e]) k n"
  by (auto simp: touched_at_def)

lemma learned_from_run:
  assumes "run learn_step (new_risk_based_evaluator trust) es e"
  shows "trustLevel e = trust \<and>
    (\<forall>k entry. learnedAutoApproves e k = Some entry \<longrightarrow>
       recorded_under es k \<and> touched_at es k (ae_LastUsed entry))"
  using assms
proof (induction "new_risk_based_evaluator trust" es e rule: run.induct)
  case run_nil
  then show ?case by (simp add: new_risk_based_evaluator_def)
next
  case (run_snoc es s ev u)
  then have ih: "trustLevel s = trust"
    "\<And>k entry. learnedAutoApproves s k = Some entry \<Longrightarrow>
       recorded_under es k \<and> touched_at es k (ae_LastUsed entry)" by auto
  show ?case
  proof (cases ev)
    case (Recorded now t ps us)
    with run_snoc ih show ?thesis
      by (auto simp: record_approval_def Let_def recorded_under_mono touched_at_mono split: if_splits)
        (auto simp: recorded_under_def touched_at_def)
  next
    case (Used now t ps us)
    with run_snoc ih show ?thesis
      by (auto simp: update_last_used_def Let_def recorded_under_mono touched_at_mono
          split: if_splits option.splits) (auto simp: touched_at_def)
  next
    case (Cleaned now ks)
    with run_snoc ih show ?thesis
      by (auto simp: cleanup_expired_def cleanup_loop_lookup recorded_under_mono touched_at_mono
          split: option.splits if_splits)
  qed
qed

section \<open>Properties\<close>

text \<open>
  The approval gate lets a call through exactly when it needs no approval or its tool is
  auto-approved and does not insist on one; in autonomous mode it never pauses, and in an
  interactive session it never denies.
\<close>

lemma approval_gate_modes:
  "(approval_gate_evaluate f ctx = Allow) =
     (f (gc_ToolName ctx) (gc_Params ctx) (gc_UserID ctx) <
        (if gc_AutoApproved ctx (gc_ToolName ctx) then Always else UnlessAutoApproved)) \<and>
   (approval_gate_evaluate f ctx \<noteq> Allow) =
     (approval_gate_evaluate f ctx =
        (case gc_ExecutionMode ctx of Autonomous \<Rightarrow> Deny | Interactive \<Rightarrow> Pause))"
  by (auto simp: approval_gate_evaluate_def Let_def less_approval_requirement_def requirement_rank_def
      split: execution_mode.splits approval_requirement.splits)

text \<open>
  The risk-based requirement is never weaker than the default table, except for users who opted
  into the permissive level and for operations covered by a live learned approval.
\<close>

lemma risk_refines_default:
  assumes "trustLevel e \<noteq> TrustPermissive" and "\<not> is_learned_approved now e t ps u"
  shows "default_tool_requirement t ps u \<le> risk_evaluate now e t ps u"
  using assms
  by (auto simp: default_tool_requirement_def risk_evaluate_def assess_risk_def Let_def
      less_eq_approval_requirement_def requirement_rank_def split: trust_level.splits)

theorem risk_refines_default_witness:
  "default_tool_requirement ''shell'' Map.empty ''u'' \<le>
     risk_evaluate 0 (new_risk_based_evaluator TrustBalanced) ''shell'' Map.empty ''u''"
  by (rule risk_refines_default)
    (simp_all add: new_risk_based_evaluator_def is_learned_approved_def)

text \<open>
  C28: in a balanced evaluator a medium-risk call of a user passes without approval only if that same
  user has approved the same tool with the same action before, and an approval or a use of that tool and
  action by that user lies within the last seven days, provided user names contain no slash and tool
  names no colon.
\<close>

theorem learned_approval_isolated:
  assumes "run learn_step (new_risk_based_evaluator TrustBalanced) es e"
    and "risk_evaluate now e t ps u = Never" and "assess_risk t ps = RiskMedium"
    and "CHR ''/'' \<notin> set u" and "CHR '':'' \<notin> set t"
    and "\<forall>now' t' ps' u'. Recorded now' t' ps' u' \<in> set es \<or> Used now' t' ps' u' \<in> set es \<longrightarrow>
           CHR ''/'' \<notin> set u' \<and> CHR '':'' \<notin> set t'"
  shows "(\<exists>now' ps'. Recorded now' t ps' u \<in> set es \<and> param_str ps' ''action'' = param_str ps ''action'') \<and>
         (\<exists>now' ps'. (Recorded now' t ps' u \<in> set es \<or> Used now' t ps' u \<in> set es) \<and>
            param_str ps' ''action'' = param_str ps ''action'' \<and> now - now' \<le> 7 * 24 * hour)"
proof -
  from assms(1) have tr: "trustLevel e = TrustBalanced" and
    known: "\<And>k entry. learnedAutoApproves e k = Some entry \<Longrightarrow>
       recorded_under es k \<and> touched_at es k (ae_LastUsed entry)"
    using learned_from_run by blast+
  from assms(2,3) tr have "is_learned_approved now e t ps u"
    by (simp add: risk_evaluate_Never)
  then obtain entry where entry: "learnedAutoApproves e (learned_key u t ps) = Some entry"
      "now - ae_LastUsed entry \<le> 7 * 24 * hour"
    by (auto simp: is_learned_approved_def learned_auto_approve_ttl_def split: option.splits)
  with known obtain now1 t1 ps1 u1 t2 ps2 u2 where
    r: "Recorded now1 t1 ps1 u1 \<in> set es" "learned_key u1 t1 ps1 = learned_key u t ps" and
    l: "Recorded (ae_LastUsed entry) t2 ps2 u2 \<in> set es \<or> Used (ae_LastUsed entry) t2 ps2 u2 \<in> set es"
       "learned_key u2 t2 ps2 = learned_key u t ps"
    unfolding recorded_under_def touched_at_def by blast
  from r assms(4-6) have "u1 = u \<and> t1 = t \<and> param_str ps1 ''action'' = param_str ps ''action''"
    using learned_key_inject [OF r(2)] by blast
  moreover from l assms(4-6) have "u2 = u \<and> t2 = t \<and> param_str ps2 ''action'' = param_str ps ''action''"
    using learned_key_inject [OF l(2)] by blast
  ultimately show ?thesis using r(1) l(1) entry(2) by blast
qed

theorem learned_approval_isolated_witness:
  "\<exists>now' ps'. Recorded now' ''memory'' ps' ''u'' \<in> set [Recorded 5 ''memory'' Map.empty ''u''] \<and>
     6 - now' \<le> 7 * 24 * hour"
proof -
  let ?e = "record_approval 5 ''memory'' Map.empty ''u'' (new_risk_based_evaluator TrustBalanced)"
  have r: "run learn_step (new_risk_based_evaluator TrustBalanced) [Recorded 5 ''memory'' Map.empty ''u''] ?e"
    by (rule run_Cons [OF _ run.run_nil]) simp
  have n: "risk_evaluate 6 ?e ''memory'' Map.empty ''u'' = Never"
    by (simp add: risk_evaluate_def record_approval_def Let_def assess_risk_def is_learned_approved_def
        new_risk_based_evaluator_def learned_auto_approve_ttl_def)
  show ?thesis
    using learned_approval_isolated [OF r n] by (auto simp: assess_risk_def)
qed

text \<open>A tool name with a colon can share the approvals of another tool.\<close>

lemma approval_key_collision:
  "auto_approve_key ''a'' [''action'' \<mapsto> JStr ''b:c''] = auto_approve_key ''a:b'' [''action'' \<mapsto> JStr ''c'']"
  by (simp add: auto_approve_key_def param_str_def)

text \<open>
  Cleaning up expired learned approvals never changes a decision taken at that time or later,
  whatever the order in which the map is visited, and afterwards no expired entry is left.
\<close>

lemma cleanup_preserves_decisions:
  assumes "range_order ks (learnedAutoApproves e)" and "now \<le> now'"
  shows "risk_evaluate now' (cleanup_expired now ks e) t ps u = risk_evaluate now' e t ps u \<and>
    (\<forall>k entry. learnedAutoApproves (cleanup_expired now ks e) k = Some entry \<longrightarrow>
       now - ae_LastUsed entry \<le> learned_auto_approve_ttl)"
proof -
  have "is_learned_approved now' (cleanup_expired now ks e) t ps u = is_learned_approved now' e t ps u"
    using assms(2)
    by (auto simp: is_learned_approved_def cleanup_expired_def cleanup_loop_lookup split: option.splits)
  moreover have "k \<in> set ks" if "learnedAutoApproves e k = Some entry" for k entry
    using assms(1) that by (auto simp: range_order_def)
  ultimately show ?thesis
    by (auto simp: risk_evaluate_def cleanup_expired_def cleanup_loop_lookup
        split: option.splits risk_level.splits trust_level.splits if_splits)
qed

theorem cleanup_preserves_decisions_witness:
  "risk_evaluate (9 * 24 * hour)
     (cleanup_expired (8 * 24 * hour) [learned_key ''u'' ''memory'' Map.empty]
        (record_approval 0 ''memory'' Map.empty ''u'' (new_risk_based_evaluator TrustBalanced)))
     ''memory'' Map.empty ''u'' =
   risk_evaluate (9 * 24 * hour)
     (record_approval 0 ''memory'' Map.empty ''u'' (new_risk_based_evaluator TrustBalanced))
     ''memory'' Map.empty ''u''"
  by (rule cleanup_preserves_decisions [THEN conjunct1])
    (simp_all add: range_order_def record_approval_def Let_def new_risk_based_evaluator_def)

end
