(* ===== verification/Pending_Store.thy ===== *)
theory Pending_Store
  imports Gate
begin

text \<open>
  The store of calls that wait for approval, \<open>internal/gate/store.go\<close>. Every method locks the store,
  so its users interleave whole methods; the life cycle of a request is proved for all such runs.
  Request identifiers come from \<open>uuid.New()\<close> and are arguments of the model; where uniqueness
  matters it is a hypothesis.
\<close>

section \<open>State and operations\<close>

datatype gate_error = NoPendingGate | RequestMismatch | GateExpired

definition gate_error_text :: "gate_error \<Rightarrow> string" where
  "gate_error_text e = ''gate: '' @
     (case e of
        NoPendingGate \<Rightarrow> ''no pending gate for this thread''
      | RequestMismatch \<Rightarrow> ''request ID mismatch (stale approval)''
      | GateExpired \<Rightarrow> ''pending gate has expired'')"

record pending_store =
  byKey :: "string \<rightharpoonup> pending_gate"
  byReqID :: "string \<rightharpoonup> string"
  resolved :: "string \<rightharpoonup> pending_gate"
  consumed :: "string \<rightharpoonup> instant"
  ttl :: duration

definition new_pending_store :: pending_store where
  "new_pending_store =
     \<lparr>byKey = Map.empty, byReqID = Map.empty, resolved = Map.empty, consumed = Map.empty,
      ttl = 10 * minute\<rparr>"

definition store_key :: "string \<Rightarrow> string \<Rightarrow> string" where
  "store_key userID threadID = threadID"

fun sweep_consumed :: "instant \<Rightarrow> duration \<Rightarrow> string list \<Rightarrow> (string \<rightharpoonup> instant) \<Rightarrow> string \<rightharpoonup> instant" where
  "sweep_consumed now d [] m = m"
| "sweep_consumed now d (k # ks) m =
     (case m k of
        None \<Rightarrow> sweep_consumed now d ks m
      | Some t \<Rightarrow> sweep_consumed now d ks (if now - t > d then m(k := None) else m))"

definition ps_create ::
  "instant \<Rightarrow> string list \<Rightarrow> string \<Rightarrow> string \<Rightarrow> string \<Rightarrow> string \<Rightarrow> params \<Rightarrow> string \<Rightarrow> pending_store \<Rightarrow>
     pending_gate \<times> pending_store" where
  "ps_create now ks reqID userID threadID toolName ps sourceChannel s =
     (let key = store_key userID threadID;
          pg = \<lparr>pg_RequestID = reqID, pg_GateName = ''approval'', pg_UserID = userID,
                pg_ThreadID = threadID, pg_ToolName = toolName, pg_Params = ps,
                pg_Description = describe_pending toolName ps, pg_CreatedAt = now,
                pg_ExpiresAt = now + ttl s, pg_SourceChannel = sourceChannel\<rparr>
      in (pg, s\<lparr>consumed := sweep_consumed now (ttl s) ks (consumed s),
                byKey := (byKey s)(key \<mapsto> pg),
                byReqID := (byReqID s)(reqID \<mapsto> key)\<rparr>))"

definition ps_get :: "instant \<Rightarrow> string \<Rightarrow> string \<Rightarrow> pending_store \<Rightarrow> pending_gate option \<times> pending_store" where
  "ps_get now userID threadID s =
     (let key = store_key userID threadID
      in case byKey s key of
           None \<Rightarrow> (None, s)
         | Some pg \<Rightarrow>
             if is_expired now pg
             then (None, s\<lparr>byKey := (byKey s)(key := None),
                           byReqID := (byReqID s)(pg_RequestID pg := None)\<rparr>)
             else (Some pg, s))"

definition ps_get_by_request_id ::
  "instant \<Rightarrow> string \<Rightarrow> pending_store \<Rightarrow> pending_gate option \<times> pending_store" where
  "ps_get_by_request_id now reqID s =
     (case byReqID s reqID of
        None \<Rightarrow> (None, s)
      | Some key \<Rightarrow>
          (case byKey s key of
             None \<Rightarrow> (None, s\<lparr>byReqID := (byReqID s)(reqID := None)\<rparr>)
           | Some pg \<Rightarrow>
               if is_expired now pg
               then (None, s\<lparr>byKey := (byKey s)(key := None), byReqID := (byReqID s)(reqID := None)\<rparr>)
               else (Some pg, s)))"

text \<open>
  \<open>Resolve\<close> first answers repeated approvals (an approved call is returned again, a processed one
  is the success without a gate), then looks at the pending gate of the thread.
\<close>

definition ps_resolve_pending ::
  "instant \<Rightarrow> string \<Rightarrow> string \<Rightarrow> pending_store \<Rightarrow> (gate_error + pending_gate option) \<times> pending_store" where
  "ps_resolve_pending now key requestID s =
     (if consumed s requestID \<noteq> None then (Inr None, s)
      else case byKey s key of
        None \<Rightarrow> (Inl NoPendingGate, s)
      | Some pg \<Rightarrow>
          if pg_RequestID pg \<noteq> requestID then (Inl RequestMismatch, s)
          else if is_expired now pg
          then (Inl GateExpired, s\<lparr>byKey := (byKey s)(key := None),
                                   byReqID := (byReqID s)(requestID := None)\<rparr>)
          else (Inr (Some pg), s\<lparr>byKey := (byKey s)(key := None),
                                 byReqID := (byReqID s)(requestID := None),
                                 resolved := (resolved s)(key \<mapsto> pg)\<rparr>))"

definition ps_resolve ::
  "instant \<Rightarrow> string \<Rightarrow> string \<Rightarrow> string \<Rightarrow> pending_store \<Rightarrow>
     (gate_error + pending_gate option) \<times> pending_store" where
  "ps_resolve now userID threadID requestID s =
     (let key = store_key userID threadID
      in case resolved s key of
           None \<Rightarrow> ps_resolve_pending now key requestID s
         | Some pg \<Rightarrow>
             if pg_RequestID pg = requestID then (Inr (Some pg), s)
             else ps_resolve_pending now key requestID s)"

definition ps_deny ::
  "instant \<Rightarrow> string \<Rightarrow> string \<Rightarrow> string \<Rightarrow> pending_store \<Rightarrow> gate_error option \<times> pending_store" where
  "ps_deny now userID threadID requestID s =
     (if consumed s requestID \<noteq> None then (None, s)
      else let key = store_key userID threadID
      in case byKey s key of
           None \<Rightarrow> (Some NoPendingGate, s)
         | Some pg \<Rightarrow>
             if pg_RequestID pg \<noteq> requestID then (Some RequestMismatch, s)
             else if is_expired now pg
             then (Some GateExpired, s\<lparr>byKey := (byKey s)(key := None),
                                       byReqID := (byReqID s)(requestID := None)\<rparr>)
             else (None, s\<lparr>byKey := (byKey s)(key := None),
                           byReqID := (byReqID s)(requestID := None),
                           consumed := (consumed s)(requestID \<mapsto> now)\<rparr>))"

definition ps_consume_resolved ::
  "instant \<Rightarrow> string \<Rightarrow> string \<Rightarrow> pending_store \<Rightarrow> pending_gate option \<times> pending_store" where
  "ps_consume_resolved now userID threadID s =
     (let key = store_key userID threadID
      in case resolved s key of
           None \<Rightarrow> (None, s)
         | Some pg \<Rightarrow>
             (Some pg, s\<lparr>resolved := (resolved s)(key := None),
                         consumed := (consumed s)(pg_RequestID pg \<mapsto> now)\<rparr>))"

definition ps_clear_resolved :: "string \<Rightarrow> string \<Rightarrow> pending_store \<Rightarrow> pending_store" where
  "ps_clear_resolved userID threadID s =
     s\<lparr>resolved := (resolved s)(store_key userID threadID := None)\<rparr>"

text \<open>\<open>List\<close>: the range over the pending gates, visiting the keys \<open>ks\<close>.\<close>

fun list_loop :: "instant \<Rightarrow> string list \<Rightarrow> pending_store \<Rightarrow> pending_gate list \<times> pending_store" where
  "list_loop now [] s = ([], s)"
| "list_loop now (k # ks) s =
     (case byKey s k of
        None \<Rightarrow> list_loop now ks s
      | Some pg \<Rightarrow>
          if is_expired now pg
          then list_loop now ks (s\<lparr>byKey := (byKey s)(k := None),
                                   byReqID := (byReqID s)(pg_RequestID pg := None)\<rparr>)
          else (let (out, s') = list_loop now ks s in (pg # out, s')))"

definition ps_list :: "instant \<Rightarrow> string list \<Rightarrow> pending_store \<Rightarrow> pending_gate list \<times> pending_store" where
  "ps_list now ks s = list_loop now ks s"

definition ps_count :: "pending_store \<Rightarrow> nat" where
  "ps_count s = map_len (byKey s)"

definition ps_has_pending :: "instant \<Rightarrow> string \<Rightarrow> string \<Rightarrow> pending_store \<Rightarrow> bool \<times> pending_store" where
  "ps_has_pending now userID threadID s =
     (let (r, s') = ps_get now userID threadID s in (r \<noteq> None, s'))"

section \<open>Runs of the store\<close>

text \<open>One call of a method with the results its caller saw.\<close>

datatype store_event =
    EvCreate pending_gate
  | EvGet
  | EvGetByRequest
  | EvResolve instant string "(gate_error + pending_gate option)"
  | EvDeny string "gate_error option"
  | EvConsume "pending_gate option"
  | EvClear
  | EvList

inductive store_step :: "pending_store \<Rightarrow> store_event \<Rightarrow> pending_store \<Rightarrow> bool" where
  create: "range_order ks (consumed s) \<Longrightarrow> ps_create now ks r u t tool ps ch s = (pg, s') \<Longrightarrow>
    store_step s (EvCreate pg) s'"
| get: "ps_get now u t s = (res, s') \<Longrightarrow> store_step s EvGet s'"
| get_by: "ps_get_by_request_id now r s = (res, s') \<Longrightarrow> store_step s EvGetByRequest s'"
| resolve: "ps_resolve now u t r s = (res, s') \<Longrightarrow> store_step s (EvResolve now r res) s'"
| deny: "ps_deny now u t r s = (res, s') \<Longrightarrow> store_step s (EvDeny r res) s'"
| consume: "ps_consume_resolved now u t s = (res, s') \<Longrightarrow> store_step s (EvConsume res) s'"
| clear: "store_step s EvClear (ps_clear_resolved u t s)"
| list: "range_order ks (byKey s) \<Longrightarrow> ps_list now ks s = (out, s') \<Longrightarrow> store_step s EvList s'"

inductive_cases store_stepE: "store_step s ev s'"

definition created :: "store_event list \<Rightarrow> pending_gate list" where
  "created es = List.map_filter (\<lambda>e. case e of EvCreate pg \<Rightarrow> Some pg | _ \<Rightarrow> None) es"

definition consumptions :: "store_event list \<Rightarrow> pending_gate list" where
  "consumptions es = List.map_filter (\<lambda>e. case e of EvConsume r \<Rightarrow> r | _ \<Rightarrow> None) es"

text \<open>The gates approved while they were pending and alive.\<close>

definition approved_alive :: "store_event list \<Rightarrow> pending_gate \<Rightarrow> bool" where
  "approved_alive es pg \<longleftrightarrow>
     (\<exists>now. EvResolve now (pg_RequestID pg) (Inr (Some pg)) \<in> set es \<and> now \<le> pg_ExpiresAt pg)"

definition deny_accepted :: "store_event list \<Rightarrow> string \<Rightarrow> bool" where
  "deny_accepted es r \<longleftrightarrow> EvDeny r None \<in> set es"

lemma map_filter_snoc: "List.map_filter f (xs @ [x]) = List.map_filter f xs @ (case f x of None \<Rightarrow> [] | Some y \<Rightarrow> [y])"
  by (simp add: List.map_filter_def split: option.splits)

lemma log_snoc [simp]:
  "created [] = []" "consumptions [] = []"
  "created (es @ [e]) = created es @ (case e of EvCreate pg \<Rightarrow> [pg] | _ \<Rightarrow> [])"
  "consumptions (es @ [e]) = consumptions es @ (case e of EvConsume (Some pg) \<Rightarrow> [pg] | _ \<Rightarrow> [])"
  by (auto simp: created_def consumptions_def map_filter_snoc List.map_filter_def
      split: store_event.splits option.splits)

section \<open>Invariant\<close>

text \<open>
  A gate the store still holds was created by it and lies under its thread; a pending one has had no
  answer, an approved one has been approved in time, and neither has been consumed or denied.
\<close>

definition live :: "store_event list \<Rightarrow> pending_gate \<Rightarrow> bool" where
  "live es pg \<longleftrightarrow> pg \<in> set (created es) \<and>
     pg_RequestID pg \<notin> pg_RequestID ` set (consumptions es) \<and> \<not> deny_accepted es (pg_RequestID pg)"

definition store_inv :: "store_event list \<Rightarrow> pending_store \<Rightarrow> bool" where
  "store_inv es s \<longleftrightarrow>
     (\<forall>k pg. byKey s k = Some pg \<longrightarrow> pg_ThreadID pg = k \<and> live es pg \<and> pg \<notin> ran (resolved s)) \<and>
     (\<forall>k pg. resolved s k = Some pg \<longrightarrow> pg_ThreadID pg = k \<and> live es pg \<and> approved_alive es pg) \<and>
     distinct (map pg_RequestID (consumptions es)) \<and>
     set (consumptions es) \<subseteq> set (created es) \<and>
     (\<forall>r. deny_accepted es r \<longrightarrow> r \<in> pg_RequestID ` set (created es)) \<and>
     (\<forall>r. consumed s r \<noteq> None \<longrightarrow> deny_accepted es r \<or> r \<in> pg_RequestID ` set (consumptions es))"

text \<open>Deletions of pending entries and of index entries keep the invariant.\<close>

definition shrinks :: "pending_store \<Rightarrow> pending_store \<Rightarrow> bool" where
  "shrinks s s' \<longleftrightarrow> byKey s' \<subseteq>\<^sub>m byKey s \<and> resolved s' \<subseteq>\<^sub>m resolved s \<and> consumed s' \<subseteq>\<^sub>m consumed s"

lemma shrinksI:
  "byKey s' \<subseteq>\<^sub>m byKey s \<Longrightarrow> resolved s' \<subseteq>\<^sub>m resolved s \<Longrightarrow> consumed s' \<subseteq>\<^sub>m consumed s \<Longrightarrow> shrinks s s'"
  by (simp add: shrinks_def)

lemma map_le_del: "m(k := None) \<subseteq>\<^sub>m m"
  by (simp add: map_le_def)

lemma shrinks_inv: "shrinks s s' \<Longrightarrow> store_inv es s \<Longrightarrow> store_inv es s'"
  unfolding store_inv_def shrinks_def map_le_def dom_def ran_def
  by (smt (verit) mem_Collect_eq option.discI)

text \<open>Calls that create, consume or deny nothing only extend the log.\<close>

definition quiet :: "store_event \<Rightarrow> bool" where
  "quiet e \<longleftrightarrow> (case e of EvCreate _ \<Rightarrow> False | EvConsume r \<Rightarrow> r = None | EvDeny _ r \<Rightarrow> r \<noteq> None | _ \<Rightarrow> True)"

lemma quiet_log:
  assumes "quiet e"
  shows "created (es @ [e]) = created es" "consumptions (es @ [e]) = consumptions es"
    "deny_accepted (es @ [e]) r = deny_accepted es r" "live (es @ [e]) pg = live es pg"
  using assms by (auto simp: quiet_def deny_accepted_def live_def split: store_event.splits option.splits)

lemma approved_alive_mono: "approved_alive es pg \<Longrightarrow> approved_alive (es @ [e]) pg"
  by (auto simp: approved_alive_def)

lemma quiet_inv: "quiet e \<Longrightarrow> store_inv es s \<Longrightarrow> store_inv (es @ [e]) s"
  unfolding store_inv_def quiet_log by (auto simp: approved_alive_mono)

lemma sweep_consumed_le: "sweep_consumed now d ks m \<subseteq>\<^sub>m m"
proof (induction ks arbitrary: m)
  case (Cons k ks)
  have "sweep_consumed now d ks (m(k := None)) \<subseteq>\<^sub>m m"
    using Cons.IH map_le_del by (rule map_le_trans)
  with Cons.IH show ?case by (auto split: option.splits)
qed simp

lemma list_loop_shrinks: "list_loop now ks s = (out, s') \<Longrightarrow> shrinks s s'"
proof (induction ks arbitrary: s out)
  case Nil
  then show ?case by (simp add: shrinks_def)
next
  case (Cons k ks)
  show ?case
  proof (cases "byKey s k")
    case None
    with Cons show ?thesis by simp
  next
    case (Some pg)
    show ?thesis
    proof (cases "is_expired now pg")
      case True
      let ?s = "s\<lparr>byKey := (byKey s)(k := None), byReqID := (byReqID s)(pg_RequestID pg := None)\<rparr>"
      have "shrinks ?s s'" using Cons Some True by simp
      moreover have "byKey ?s \<subseteq>\<^sub>m byKey s" by (simp add: map_le_del)
      ultimately show ?thesis unfolding shrinks_def by (auto intro: map_le_trans)
    next
      case False
      with Cons Some show ?thesis by (auto simp: Let_def split: prod.splits)
    qed
  qed
qed

text \<open>Unique request identifiers: a gate is determined by its identifier.\<close>

lemma created_unique:
  "distinct (map pg_RequestID (created es)) \<Longrightarrow> pg \<in> set (created es) \<Longrightarrow> pg' \<in> set (created es) \<Longrightarrow>
     pg_RequestID pg = pg_RequestID pg' \<Longrightarrow> pg = pg'"
  by (simp add: distinct_map inj_on_def)

lemma inv_pendingD:
  "store_inv es s \<Longrightarrow> byKey s k = Some pg \<Longrightarrow> pg_ThreadID pg = k \<and> live es pg \<and> pg \<notin> ran (resolved s)"
  and inv_resolvedD:
  "store_inv es s \<Longrightarrow> resolved s k = Some pg \<Longrightarrow> pg_ThreadID pg = k \<and> live es pg \<and> approved_alive es pg"
  by (auto simp: store_inv_def)

lemma live_created: "live es pg \<Longrightarrow> pg \<in> set (created es)"
  by (simp add: live_def)

lemma create_inv:
  assumes i: "store_inv es s" and c: "ps_create now ks r u t tool ps ch s = (pg, s')"
    and d: "distinct (map pg_RequestID (created (es @ [EvCreate pg])))"
  shows "store_inv (es @ [EvCreate pg]) s'"
proof -
  have fresh: "pg_RequestID pg \<notin> pg_RequestID ` set (created es)"
    using d by auto
  have log: "live (es @ [EvCreate pg]) q \<longleftrightarrow> live es q \<or> q = pg" for q
  proof -
    have "pg_RequestID pg \<notin> pg_RequestID ` set (consumptions es)" "\<not> deny_accepted es (pg_RequestID pg)"
      using i fresh by (auto simp: store_inv_def)
    then show ?thesis by (auto simp: live_def deny_accepted_def)
  qed
  have pg: "pg_ThreadID pg = t" and s': "byKey s' = (byKey s)(t \<mapsto> pg)" "resolved s' = resolved s"
      "consumed s' \<subseteq>\<^sub>m consumed s"
    using c sweep_consumed_le by (auto simp: ps_create_def Let_def store_key_def)
  have nr: "pg \<notin> ran (resolved s)"
    using i fresh live_created by (fastforce simp: ran_def dest: inv_resolvedD)
  have cons: "consumed s r \<noteq> None" if "consumed s' r \<noteq> None" for r
    using that s'(3) by (auto simp: map_le_def dom_def)
  show ?thesis
    using i nr cons unfolding store_inv_def s'(1,2) log
    by (auto simp: pg approved_alive_mono deny_accepted_def split: if_splits)
qed

lemma same_gate:
  assumes "store_inv es s" and "distinct (map pg_RequestID (created es))"
    and "live es pg" and "live es pg'" and "pg_RequestID pg = pg_RequestID pg'"
  shows "pg = pg'"
  using assms created_unique live_created by blast

lemma consume_inv:
  assumes i: "store_inv es s" and d: "distinct (map pg_RequestID (created es))"
    and c: "resolved s k = Some pg"
    and s': "byKey s' = byKey s" "resolved s' = (resolved s)(k := None)"
      "consumed s' = (consumed s)(pg_RequestID pg \<mapsto> now)"
  shows "store_inv (es @ [EvConsume (Some pg)]) s'"
proof -
  note p = inv_resolvedD [OF i c]
  have other: "q \<noteq> pg \<and> live (es @ [EvConsume (Some pg)]) q"
    if "live es q" "q \<noteq> pg" for q
    using that same_gate [OF i d] p by (fastforce simp: live_def deny_accepted_def)
  have pend: "live (es @ [EvConsume (Some pg)]) q" if "byKey s k' = Some q" for k' q
    using inv_pendingD [OF i that] c other by (auto simp: ran_def)
  have res: "live (es @ [EvConsume (Some pg)]) q" if "resolved s k' = Some q" "k' \<noteq> k" for k' q
    using inv_resolvedD [OF i that(1)] p that other by auto
  show ?thesis
    using i p pend res unfolding store_inv_def s'
    by (auto simp: approved_alive_mono deny_accepted_def live_def ran_def split: if_splits)
qed

lemma deny_inv:
  assumes i: "store_inv es s" and d: "distinct (map pg_RequestID (created es))"
    and c: "byKey s k = Some pg" and r: "pg_RequestID pg = r"
    and s': "byKey s' = (byKey s)(k := None)" "resolved s' = resolved s"
      "consumed s' = (consumed s)(r \<mapsto> now)"
  shows "store_inv (es @ [EvDeny r None]) s'"
proof -
  note p = inv_pendingD [OF i c]
  have other: "live (es @ [EvDeny r None]) q" if "live es q" "q \<noteq> pg" for q
    using that same_gate [OF i d] p r by (fastforce simp: live_def deny_accepted_def)
  have pend: "live (es @ [EvDeny r None]) q" if "byKey s k' = Some q" "k' \<noteq> k" for k' q
    using inv_pendingD [OF i that(1)] p that other by auto
  have res: "live (es @ [EvDeny r None]) q" if "resolved s k' = Some q" for k' q
    using inv_resolvedD [OF i that] p that other by (auto simp: ran_def)
  show ?thesis
    using i p pend res r live_created unfolding store_inv_def s'
    by (auto simp: approved_alive_mono deny_accepted_def split: if_splits)
qed

lemma deny_again_inv:
  assumes i: "store_inv es s" and c: "consumed s r \<noteq> None"
  shows "store_inv (es @ [EvDeny r None]) s"
proof -
  have gone: "deny_accepted es r \<or> r \<in> pg_RequestID ` set (consumptions es)"
    using i c by (simp add: store_inv_def)
  then have "live (es @ [EvDeny r None]) q = live es q" for q
    by (auto simp: live_def deny_accepted_def)
  moreover have "r \<in> pg_RequestID ` set (created es)"
    using i gone by (auto simp: store_inv_def)
  ultimately show ?thesis
    using i by (auto simp: store_inv_def approved_alive_mono deny_accepted_def)
qed

lemma resolve_inv:
  assumes i: "store_inv es s" and c: "byKey s k = Some pg" and alive: "now \<le> pg_ExpiresAt pg"
    and s': "byKey s' = (byKey s)(k := None)" "resolved s' = (resolved s)(k \<mapsto> pg)"
      "consumed s' = consumed s"
    and d: "distinct (map pg_RequestID (created es))"
  shows "store_inv (es @ [EvResolve now (pg_RequestID pg) (Inr (Some pg))]) s'"
proof -
  let ?e = "EvResolve now (pg_RequestID pg) (Inr (Some pg))"
  note p = inv_pendingD [OF i c]
  have q: "quiet ?e" by (simp add: quiet_def)
  have "approved_alive (es @ [?e]) pg"
    using alive by (auto simp: approved_alive_def)
  moreover have "q \<noteq> pg" if "byKey s k' = Some q" "k' \<noteq> k" for k' q
    using inv_pendingD [OF i that(1)] p that by auto
  ultimately show ?thesis
    using i p unfolding store_inv_def s' quiet_log [OF q]
    by (auto simp: approved_alive_mono ran_def split: if_splits)
qed

lemma resolve_pending_cases:
  "ps_resolve_pending now t r s = (res, s') \<Longrightarrow>
     shrinks s s' \<or>
     (\<exists>pg. res = Inr (Some pg) \<and> byKey s t = Some pg \<and> pg_RequestID pg = r \<and>
        now \<le> pg_ExpiresAt pg \<and> byKey s' = (byKey s)(t := None) \<and>
        resolved s' = (resolved s)(t \<mapsto> pg) \<and> consumed s' = consumed s)"
  unfolding ps_resolve_pending_def is_expired_def
  by (cases "byKey s t"; cases "consumed s r") (auto simp: shrinks_def map_le_del split: if_splits)

lemma resolve_cases:
  "ps_resolve now u t r s = (res, s') \<Longrightarrow>
     shrinks s s' \<or>
     (\<exists>pg. res = Inr (Some pg) \<and> byKey s t = Some pg \<and> pg_RequestID pg = r \<and>
        now \<le> pg_ExpiresAt pg \<and> byKey s' = (byKey s)(t := None) \<and>
        resolved s' = (resolved s)(t \<mapsto> pg) \<and> consumed s' = consumed s)"
proof -
  assume "ps_resolve now u t r s = (res, s')"
  then consider "s' = s" | "ps_resolve_pending now t r s = (res, s')"
    by (auto simp: ps_resolve_def Let_def store_key_def split: option.splits if_splits)
  then show ?thesis
    using resolve_pending_cases by cases (simp add: shrinks_def, blast)
qed

lemma deny_cases:
  "ps_deny now u t r s = (res, s') \<Longrightarrow>
     (consumed s r \<noteq> None \<and> res = None \<and> s' = s) \<or>
     (\<exists>pg. res = None \<and> byKey s t = Some pg \<and> pg_RequestID pg = r \<and>
        byKey s' = (byKey s)(t := None) \<and> resolved s' = resolved s \<and>
        consumed s' = (consumed s)(r \<mapsto> now)) \<or>
     (res \<noteq> None \<and> shrinks s s')"
  unfolding ps_deny_def Let_def store_key_def
  by (cases "byKey s t"; cases "consumed s r") (auto simp: shrinks_def map_le_del split: if_splits)

lemma store_step_inv:
  assumes step: "store_step s ev s'" and i: "store_inv es s"
    and d: "distinct (map pg_RequestID (created (es @ [ev])))"
  shows "store_inv (es @ [ev]) s'"
proof -
  have d0: "distinct (map pg_RequestID (created es))"
    using d by auto
  have quietly: "store_inv (es @ [ev]) s'" if "quiet ev" "shrinks s s'"
    using that i quiet_inv shrinks_inv by blast
  show ?thesis
    using step
  proof (cases rule: store_step.cases)
    case (create ks now r u t tool ps ch pg)
    then show ?thesis using create_inv [OF i] d by simp
  next
    case (get now u t res)
    then have "shrinks s s'"
      by (auto simp: ps_get_def Let_def shrinks_def map_le_del split: option.splits if_splits)
    with get quietly show ?thesis by (simp add: quiet_def)
  next
    case (get_by now r res)
    then have "shrinks s s'"
      by (auto simp: ps_get_by_request_id_def shrinks_def map_le_del split: option.splits if_splits)
    with get_by quietly show ?thesis by (simp add: quiet_def)
  next
    case (resolve now u t r res)
    from resolve_cases [OF resolve(2)] show ?thesis
    proof (elim disjE exE conjE)
      assume "shrinks s s'"
      with resolve quietly show ?thesis by (simp add: quiet_def)
    next
      fix pg
      assume "res = Inr (Some pg)" "byKey s t = Some pg" "pg_RequestID pg = r" "now \<le> pg_ExpiresAt pg"
        "byKey s' = (byKey s)(t := None)" "resolved s' = (resolved s)(t \<mapsto> pg)" "consumed s' = consumed s"
      then show ?thesis using resolve_inv [OF i, of t pg now s'] resolve d0 by simp
    qed
  next
    case (deny now u t r res)
    from deny_cases [OF deny(2)] show ?thesis
    proof (elim disjE exE conjE)
      assume "consumed s r \<noteq> None" "res = None" "s' = s"
      then show ?thesis using deny_again_inv [OF i] deny by simp
    next
      fix pg
      assume "res = None" "byKey s t = Some pg" "pg_RequestID pg = r" "byKey s' = (byKey s)(t := None)"
        "resolved s' = resolved s" "consumed s' = (consumed s)(r \<mapsto> now)"
      then show ?thesis using deny_inv [OF i d0] deny by simp
    next
      assume "res \<noteq> None" "shrinks s s'"
      with deny quietly show ?thesis by (auto simp: quiet_def)
    qed
  next
    case (consume now u t res)
    show ?thesis
    proof (cases "resolved s t")
      case None
      with consume have "res = None" "s' = s"
        by (auto simp: ps_consume_resolved_def store_key_def Let_def)
      with consume quietly show ?thesis by (simp add: quiet_def shrinks_def)
    next
      case (Some pg)
      with consume consume_inv [OF i d0 Some, of s' now] show ?thesis
        by (auto simp: ps_consume_resolved_def store_key_def Let_def)
    qed
  next
    case (clear u t)
    with quietly show ?thesis by (simp add: quiet_def shrinks_def ps_clear_resolved_def map_le_del)
  next
    case (list ks now out)
    with quietly list_loop_shrinks show ?thesis by (auto simp: quiet_def ps_list_def)
  qed
qed

lemma store_run_inv:
  assumes "run store_step new_pending_store es s"
    and "distinct (map pg_RequestID (created es))"
  shows "store_inv es s"
  using assms
proof (induction "new_pending_store" es s rule: run.induct)
  case run_nil
  show ?case by (simp add: store_inv_def new_pending_store_def deny_accepted_def)
next
  case (run_snoc es s ev s')
  then show ?case by (intro store_step_inv) auto
qed

section \<open>Properties\<close>

text \<open>
  C2: an approval is used at most once. In every interleaving of the store's methods with unique
  request identifiers, when \<open>ConsumeResolved\<close> hands out a gate then that gate was created before,
  was approved by \<open>Resolve\<close> while it was pending and not expired, had not been refused by \<open>Deny\<close>,
  had not been handed out before and is never handed out again.
\<close>

theorem approval_consumed_once:
  assumes "run store_step new_pending_store (es1 @ EvConsume (Some pg) # es2) s"
    and "distinct (map pg_RequestID (created (es1 @ EvConsume (Some pg) # es2)))"
  shows "pg \<in> set (created es1) \<and>
    (\<exists>now. EvResolve now (pg_RequestID pg) (Inr (Some pg)) \<in> set es1 \<and> now \<le> pg_ExpiresAt pg) \<and>
    EvDeny (pg_RequestID pg) None \<notin> set es1 \<and>
    (\<forall>pg'. EvConsume (Some pg') \<in> set (es1 @ es2) \<longrightarrow> pg_RequestID pg' \<noteq> pg_RequestID pg)"
proof -
  obtain s1 where r1: "run store_step new_pending_store (es1 @ [EvConsume (Some pg)]) s1"
    using run_append [of store_step new_pending_store "es1 @ [EvConsume (Some pg)]" es2 s] assms(1) by auto
  then obtain s0 where r0: "run store_step new_pending_store es1 s0"
      and step: "store_step s0 (EvConsume (Some pg)) s1"
    by (auto simp: run_snoc_iff)
  have app: "created (xs @ ys) = created xs @ created ys"
    "consumptions (xs @ ys) = consumptions xs @ consumptions ys" for xs ys
    by (simp_all add: created_def consumptions_def List.map_filter_def)
  have "store_inv es1 s0"
    using store_run_inv [OF r0] assms(2) by (simp add: app)
  moreover obtain k where "resolved s0 k = Some pg"
    using step by (cases rule: store_step.cases)
      (auto simp: ps_consume_resolved_def Let_def split: option.splits)
  ultimately have here: "live es1 pg" "approved_alive es1 pg"
    using inv_resolvedD by blast+
  have "distinct (map pg_RequestID (consumptions (es1 @ EvConsume (Some pg) # es2)))"
    using store_run_inv [OF assms] by (simp add: store_inv_def)
  moreover have "consumptions (es1 @ EvConsume (Some pg) # es2) = consumptions es1 @ pg # consumptions es2"
    by (simp add: app) (simp add: consumptions_def List.map_filter_def)
  ultimately have only: "pg_RequestID pg \<notin> pg_RequestID ` set (consumptions es1)"
      "pg_RequestID pg \<notin> pg_RequestID ` set (consumptions es2)"
    by auto
  have mem: "pg_RequestID pg' \<in> pg_RequestID ` set (consumptions xs)" if "EvConsume (Some pg') \<in> set xs" for pg' xs
    using that by (force simp: consumptions_def List.map_filter_def)
  have "pg_RequestID pg' \<noteq> pg_RequestID pg" if "EvConsume (Some pg') \<in> set (es1 @ es2)" for pg'
    using that only mem by (metis Un_iff set_append)
  with here show ?thesis
    unfolding live_def approved_alive_def deny_accepted_def by blast
qed

theorem approval_consumed_once_witness:
  "\<exists>pg es. EvConsume (Some pg) \<in> set es \<and> EvDeny (pg_RequestID pg) None \<notin> set es \<and>
     (\<exists>s. run store_step new_pending_store es s)"
proof -
  let ?c = "ps_create 0 [] ''r1'' ''u'' ''t1'' ''shell'' Map.empty ''web'' new_pending_store"
  let ?a = "ps_resolve 5 ''u'' ''t1'' ''r1'' (snd ?c)"
  let ?x = "ps_consume_resolved 6 ''u'' ''t1'' (snd ?a)"
  let ?es = "[EvCreate (fst ?c), EvResolve 5 ''r1'' (fst ?a)]"
  have step1: "store_step new_pending_store (EvCreate (fst ?c)) (snd ?c)"
    by (rule store_step.create [of "[]"]) (auto simp: range_order_def new_pending_store_def)
  have step2: "store_step (snd ?c) (EvResolve 5 ''r1'' (fst ?a)) (snd ?a)"
    by (rule store_step.resolve) (rule prod.collapse [symmetric])
  have step3: "store_step (snd ?a) (EvConsume (fst ?x)) (snd ?x)"
    by (rule store_step.consume) (rule prod.collapse [symmetric])
  have x: "fst ?x = Some (fst ?c)"
    by (simp add: ps_create_def ps_resolve_def ps_resolve_pending_def ps_consume_resolved_def Let_def
        store_key_def new_pending_store_def is_expired_def)
  have r: "run store_step new_pending_store (?es @ EvConsume (Some (fst ?c)) # []) (snd ?x)"
    using run_Cons [of store_step, OF step1 run_Cons [of store_step, OF step2 run_Cons [of store_step, OF step3 run.run_nil]]]
    by (simp add: x)
  have d: "distinct (map pg_RequestID (created (?es @ EvConsume (Some (fst ?c)) # [])))"
    by (simp add: created_def List.map_filter_def)
  from approval_consumed_once [OF r d] r show ?thesis
    by (intro exI [of _ "fst ?c"] exI [of _ "?es @ [EvConsume (Some (fst ?c))]"]) auto
qed

text \<open>
  Approval and refusal are decided by the thread and the request identifier alone: the user who
  asks plays no part, so any caller who knows both can answer another user's request.
\<close>

lemma answers_ignore_user:
  "ps_resolve now u t r s = ps_resolve now u' t r s \<and> ps_deny now u t r s = ps_deny now u' t r s \<and>
   ps_consume_resolved now u t s = ps_consume_resolved now u' t s"
  by (simp add: ps_resolve_def ps_deny_def ps_consume_resolved_def store_key_def)

text \<open>
  An answer never touches another thread: whatever \<open>Resolve\<close>, \<open>Deny\<close>, \<open>ConsumeResolved\<close> and
  \<open>ClearResolved\<close> return, the pending and the approved gate of every other thread are as before.
\<close>

lemma answers_local_to_thread:
  assumes "t' \<noteq> t"
  shows "byKey (snd (ps_resolve now u t r s)) t' = byKey s t' \<and>
    resolved (snd (ps_resolve now u t r s)) t' = resolved s t' \<and>
    byKey (snd (ps_deny now u t r s)) t' = byKey s t' \<and>
    resolved (snd (ps_deny now u t r s)) t' = resolved s t' \<and>
    byKey (snd (ps_consume_resolved now u t s)) t' = byKey s t' \<and>
    resolved (snd (ps_consume_resolved now u t s)) t' = resolved s t' \<and>
    resolved (ps_clear_resolved u t s) t' = resolved s t'"
  using assms
  by (auto simp: ps_resolve_def ps_resolve_pending_def ps_deny_def ps_consume_resolved_def
      ps_clear_resolved_def store_key_def Let_def split: option.splits)

theorem answers_local_to_thread_witness:
  "resolved (snd (ps_resolve 1 ''u'' ''t1'' ''r1''
     (snd (ps_create 0 [] ''r1'' ''u'' ''t1'' ''shell'' Map.empty ''web'' new_pending_store)))) ''t2'' = None"
proof -
  have "resolved (snd (ps_create 0 [] ''r1'' ''u'' ''t1'' ''shell'' Map.empty ''web'' new_pending_store)) ''t2'' = None"
    by (simp add: ps_create_def Let_def new_pending_store_def)
  then show ?thesis
    using answers_local_to_thread [of "''t2''" "''t1''"] by auto
qed

text \<open>
  Two calls that pause on the same thread: the second replaces the first in the thread's slot, but
  the first one's identifier stays in the index and then finds the second one's gate.
\<close>

lemma stale_request_finds_other_gate:
  assumes "ps_create now1 ks1 r1 u t tool1 p1 ch s = (g1, s1)" and "ps_create now2 ks2 r2 u t tool2 p2 ch s1 = (g2, s2)"
    and "r1 \<noteq> r2" and "now3 \<le> pg_ExpiresAt g2"
  shows "fst (ps_get_by_request_id now3 r1 s2) = Some g2 \<and> pg_RequestID g2 = r2"
  using assms
  by (auto simp: ps_create_def ps_get_by_request_id_def store_key_def Let_def is_expired_def)

end
