(* ===== verification/Memory_DB.thy ===== *)
theory Memory_DB
  imports Go_Prelude
begin

text \<open>
  Persistence: the interface \<open>Database\<close> and its data (\<open>internal/db/db.go\<close>) and the in-memory
  implementation (\<open>internal/db/memory.go\<close>). Stored objects are modelled by value: no caller in the
  sources changes an object after it has handed it to the store. A list operation takes the order
  in which its range over the map visits the keys, and a slice expression that would panic is
  \<^const>\<open>None\<close>.
\<close>

section \<open>Data\<close>

record tool_call =
  tc_ID :: string
  tc_Name :: string
  tc_Arguments :: string
  tc_Result :: string
  tc_Error :: string
  tc_Status :: string

record message =
  msg_ID :: string
  msg_ThreadID :: string
  msg_UserID :: string
  msg_Role :: string
  msg_Content :: string
  msg_ToolCalls :: "tool_call list"
  msg_CreatedAt :: instant

record conversation =
  cv_ID :: string
  cv_UserID :: string
  cv_Channel :: string
  cv_Title :: string
  cv_Messages :: "message list"
  cv_CreatedAt :: instant
  cv_UpdatedAt :: instant

record job =
  job_ID :: string
  job_UserID :: string
  job_Name :: string
  job_Status :: string
  job_Input :: string
  job_Output :: string
  job_Error :: string
  job_CreatedAt :: instant
  job_UpdatedAt :: instant

record action_record =
  ar_ID :: string
  ar_JobID :: string
  ar_ToolName :: string
  ar_Input :: string
  ar_Output :: string
  ar_Error :: string
  ar_Duration :: duration
  ar_CreatedAt :: instant

section \<open>The interface\<close>

text \<open>
  The methods of \<open>Database\<close> over a state \<open>'d\<close>: an error is \<^const>\<open>Inl\<close> with its text (or
  \<^const>\<open>Some\<close> text where there is no result), and \<^const>\<open>None\<close> of a list method is a panic.
\<close>

record 'd database =
  db_GetSetting :: "string \<Rightarrow> string \<Rightarrow> 'd \<Rightarrow> string + string"
  db_SetSetting :: "string \<Rightarrow> string \<Rightarrow> string \<Rightarrow> 'd \<Rightarrow> string option \<times> 'd"
  db_DeleteSetting :: "string \<Rightarrow> string \<Rightarrow> 'd \<Rightarrow> string option \<times> 'd"
  db_SaveConversation :: "instant \<Rightarrow> conversation \<Rightarrow> 'd \<Rightarrow> string option \<times> 'd"
  db_GetConversation :: "string \<Rightarrow> 'd \<Rightarrow> string + conversation"
  db_ListConversations :: "string list \<Rightarrow> string \<Rightarrow> int \<Rightarrow> int \<Rightarrow> 'd \<Rightarrow> (string + conversation list) option"
  db_DeleteConversation :: "string \<Rightarrow> 'd \<Rightarrow> string option \<times> 'd"
  db_SaveMessage :: "instant \<Rightarrow> message \<Rightarrow> 'd \<Rightarrow> string option \<times> 'd"
  db_GetMessagesByThread :: "string \<Rightarrow> int \<Rightarrow> int \<Rightarrow> 'd \<Rightarrow> (string + message list) option"
  db_DeleteMessagesByThread :: "string \<Rightarrow> 'd \<Rightarrow> string option \<times> 'd"
  db_SaveJob :: "instant \<Rightarrow> job \<Rightarrow> 'd \<Rightarrow> string option \<times> 'd"
  db_GetJob :: "string \<Rightarrow> 'd \<Rightarrow> string + job"
  db_ListJobs :: "string list \<Rightarrow> string \<Rightarrow> int \<Rightarrow> int \<Rightarrow> 'd \<Rightarrow> (string + job list) option"
  db_UpdateJobStatus :: "instant \<Rightarrow> string \<Rightarrow> string \<Rightarrow> string \<Rightarrow> string \<Rightarrow> 'd \<Rightarrow> string option \<times> 'd"
  db_DeleteJob :: "string \<Rightarrow> 'd \<Rightarrow> string option \<times> 'd"
  db_SaveActionRecord :: "instant \<Rightarrow> action_record \<Rightarrow> 'd \<Rightarrow> string option \<times> 'd"
  db_ListActionRecordsByJob :: "string \<Rightarrow> 'd \<Rightarrow> string + action_record list"

section \<open>The in-memory database\<close>

record memory_db =
  settings :: "string \<rightharpoonup> (string \<rightharpoonup> string)"
  conversations :: "string \<rightharpoonup> conversation"
  messages :: "string \<Rightarrow> message list"
  jobs :: "string \<rightharpoonup> job"
  actions :: "string \<Rightarrow> action_record list"

text \<open>
  A missing entry of the slice-valued maps \<open>messages\<close> and \<open>actions\<close> reads as the empty slice, so they
  are total functions.
\<close>

definition new_memory_db :: memory_db where
  "new_memory_db =
     \<lparr>settings = Map.empty, conversations = Map.empty, messages = (\<lambda>_. []), jobs = Map.empty,
      actions = (\<lambda>_. [])\<rparr>"

definition get_setting :: "string \<Rightarrow> string \<Rightarrow> memory_db \<Rightarrow> string + string" where
  "get_setting userID key m =
     (case settings m userID of
        None \<Rightarrow> Inl (''user '' @ userID @ '' not found'')
      | Some us \<Rightarrow> (case us key of None \<Rightarrow> Inl (''key '' @ key @ '' not found'') | Some v \<Rightarrow> Inr v))"

definition set_setting :: "string \<Rightarrow> string \<Rightarrow> string \<Rightarrow> memory_db \<Rightarrow> memory_db" where
  "set_setting userID key val m =
     (let us = (case settings m userID of None \<Rightarrow> Map.empty | Some us \<Rightarrow> us)
      in m\<lparr>settings := (settings m)(userID \<mapsto> us(key \<mapsto> val))\<rparr>)"

definition delete_setting :: "string \<Rightarrow> string \<Rightarrow> memory_db \<Rightarrow> memory_db" where
  "delete_setting userID key m =
     (case settings m userID of
        None \<Rightarrow> m
      | Some us \<Rightarrow> m\<lparr>settings := (settings m)(userID \<mapsto> us(key := None))\<rparr>)"

definition stamp_conversation :: "instant \<Rightarrow> conversation \<Rightarrow> conversation" where
  "stamp_conversation now c =
     c\<lparr>cv_CreatedAt := (if is_zero_time (cv_CreatedAt c) then now else cv_CreatedAt c),
       cv_UpdatedAt := now\<rparr>"

definition save_conversation :: "instant \<Rightarrow> conversation \<Rightarrow> memory_db \<Rightarrow> memory_db" where
  "save_conversation now c m =
     m\<lparr>conversations := (conversations m)(cv_ID c \<mapsto> stamp_conversation now c)\<rparr>"

definition get_conversation :: "string \<Rightarrow> memory_db \<Rightarrow> string + conversation" where
  "get_conversation i m =
     (case conversations m i of
        None \<Rightarrow> Inl (''conversation '' @ i @ '' not found'')
      | Some c \<Rightarrow> Inr c)"

text \<open>The paging common to the list methods.\<close>

definition paginate :: "int \<Rightarrow> int \<Rightarrow> 'a list \<Rightarrow> 'a list option" where
  "paginate limit offset xs =
     (if offset \<ge> int (length xs) then Some []
      else let e = int64 (offset + limit);
               stop = (if e > int (length xs) \<or> limit \<le> 0 then int (length xs) else e)
           in slice xs offset stop)"

definition list_conversations ::
  "string list \<Rightarrow> string \<Rightarrow> int \<Rightarrow> int \<Rightarrow> memory_db \<Rightarrow> conversation list option" where
  "list_conversations ks userID limit offset m =
     paginate limit offset
       (filter (\<lambda>c. cv_UserID c = userID) (map snd (range_map ks (conversations m))))"

definition delete_conversation :: "string \<Rightarrow> memory_db \<Rightarrow> memory_db" where
  "delete_conversation i m =
     m\<lparr>conversations := (conversations m)(i := None), messages := (messages m)(i := [])\<rparr>"

definition stamp_message :: "instant \<Rightarrow> message \<Rightarrow> message" where
  "stamp_message now msg =
     (if is_zero_time (msg_CreatedAt msg) then msg\<lparr>msg_CreatedAt := now\<rparr> else msg)"

definition save_message :: "instant \<Rightarrow> message \<Rightarrow> memory_db \<Rightarrow> memory_db" where
  "save_message now msg m =
     (let t = msg_ThreadID msg;
          m1 = m\<lparr>messages := (messages m)(t := messages m t @ [stamp_message now msg])\<rparr>
      in case conversations m1 t of
           None \<Rightarrow> m1
         | Some c \<Rightarrow> m1\<lparr>conversations := (conversations m1)(t \<mapsto> c\<lparr>cv_UpdatedAt := now\<rparr>)\<rparr>)"

definition get_messages_by_thread :: "string \<Rightarrow> int \<Rightarrow> int \<Rightarrow> memory_db \<Rightarrow> message list option" where
  "get_messages_by_thread threadID limit offset m = paginate limit offset (messages m threadID)"

definition delete_messages_by_thread :: "string \<Rightarrow> memory_db \<Rightarrow> memory_db" where
  "delete_messages_by_thread threadID m = m\<lparr>messages := (messages m)(threadID := [])\<rparr>"

definition stamp_job :: "instant \<Rightarrow> job \<Rightarrow> job" where
  "stamp_job now j =
     j\<lparr>job_CreatedAt := (if is_zero_time (job_CreatedAt j) then now else job_CreatedAt j),
       job_UpdatedAt := now\<rparr>"

definition save_job :: "instant \<Rightarrow> job \<Rightarrow> memory_db \<Rightarrow> memory_db" where
  "save_job now j m = m\<lparr>jobs := (jobs m)(job_ID j \<mapsto> stamp_job now j)\<rparr>"

definition get_job :: "string \<Rightarrow> memory_db \<Rightarrow> string + job" where
  "get_job i m =
     (case jobs m i of None \<Rightarrow> Inl (''job '' @ i @ '' not found'') | Some j \<Rightarrow> Inr j)"

definition list_jobs :: "string list \<Rightarrow> string \<Rightarrow> int \<Rightarrow> int \<Rightarrow> memory_db \<Rightarrow> job list option" where
  "list_jobs ks userID limit offset m =
     paginate limit offset
       (filter (\<lambda>j. \<not> (userID \<noteq> [] \<and> job_UserID j \<noteq> userID)) (map snd (range_map ks (jobs m))))"

definition update_job_status ::
  "instant \<Rightarrow> string \<Rightarrow> string \<Rightarrow> string \<Rightarrow> string \<Rightarrow> memory_db \<Rightarrow> string option \<times> memory_db" where
  "update_job_status now i status output errMsg m =
     (case jobs m i of
        None \<Rightarrow> (Some (''job '' @ i @ '' not found''), m)
      | Some j \<Rightarrow>
          (None, m\<lparr>jobs := (jobs m)(i \<mapsto> j\<lparr>job_Status := status, job_Output := output,
                     job_Error := errMsg, job_UpdatedAt := now\<rparr>)\<rparr>))"

definition delete_job :: "string \<Rightarrow> memory_db \<Rightarrow> memory_db" where
  "delete_job i m = m\<lparr>jobs := (jobs m)(i := None), actions := (actions m)(i := [])\<rparr>"

definition stamp_action :: "instant \<Rightarrow> action_record \<Rightarrow> action_record" where
  "stamp_action now r = (if is_zero_time (ar_CreatedAt r) then r\<lparr>ar_CreatedAt := now\<rparr> else r)"

definition save_action_record :: "instant \<Rightarrow> action_record \<Rightarrow> memory_db \<Rightarrow> memory_db" where
  "save_action_record now r m =
     m\<lparr>actions := (actions m)(ar_JobID r := actions m (ar_JobID r) @ [stamp_action now r])\<rparr>"

definition list_action_records_by_job :: "string \<Rightarrow> memory_db \<Rightarrow> action_record list" where
  "list_action_records_by_job jobID m = actions m jobID"

text \<open>The in-memory database as an implementation of the interface: its methods report no error but the missing entries.\<close>

definition memory_database :: "memory_db database" where
  "memory_database =
     \<lparr>db_GetSetting = get_setting,
      db_SetSetting = (\<lambda>u k v m. (None, set_setting u k v m)),
      db_DeleteSetting = (\<lambda>u k m. (None, delete_setting u k m)),
      db_SaveConversation = (\<lambda>now c m. (None, save_conversation now c m)),
      db_GetConversation = get_conversation,
      db_ListConversations = (\<lambda>ks u l o' m. map_option Inr (list_conversations ks u l o' m)),
      db_DeleteConversation = (\<lambda>i m. (None, delete_conversation i m)),
      db_SaveMessage = (\<lambda>now x m. (None, save_message now x m)),
      db_GetMessagesByThread = (\<lambda>t l o' m. map_option Inr (get_messages_by_thread t l o' m)),
      db_DeleteMessagesByThread = (\<lambda>t m. (None, delete_messages_by_thread t m)),
      db_SaveJob = (\<lambda>now j m. (None, save_job now j m)),
      db_GetJob = get_job,
      db_ListJobs = (\<lambda>ks u l o' m. map_option Inr (list_jobs ks u l o' m)),
      db_UpdateJobStatus = update_job_status,
      db_DeleteJob = (\<lambda>i m. (None, delete_job i m)),
      db_SaveActionRecord = (\<lambda>now r m. (None, save_action_record now r m)),
      db_ListActionRecordsByJob = (\<lambda>i m. Inr (list_action_records_by_job i m))\<rparr>"

section \<open>The contract of a message log\<close>

text \<open>
  What the readers of conversations rely on: a saved message is appended to its own thread, deleting
  a thread empties it, and neither touches another thread.
\<close>

locale message_log =
  fixes thread :: "'d \<Rightarrow> string \<Rightarrow> message list"
    and save :: "instant \<Rightarrow> message \<Rightarrow> 'd \<Rightarrow> 'd"
    and erase :: "string \<Rightarrow> 'd \<Rightarrow> 'd"
  assumes thread_save:
    "thread (save now x d) t = (if t = msg_ThreadID x then thread d t @ [stamp_message now x] else thread d t)"
    and thread_erase: "thread (erase t d) t' = (if t' = t then [] else thread d t')"
begin

lemma thread_save_all:
  "thread (fold (\<lambda>(now, x). save now x) xs d) t =
     thread d t @ map (\<lambda>(now, x). stamp_message now x) (filter (\<lambda>(now, x). msg_ThreadID x = t) xs)"
proof (induction xs arbitrary: d)
  case (Cons x xs)
  then show ?case by (cases x) (auto simp: thread_save)
qed simp

lemma erase_idem: "thread (erase t (erase t d)) = thread (erase t d)"
  by (rule ext) (simp add: thread_erase)

end

lemma messages_save_message:
  "messages (save_message now x m) t =
     (if t = msg_ThreadID x then messages m t @ [stamp_message now x] else messages m t)"
  by (simp add: save_message_def Let_def split: option.splits)

interpretation mem_log: message_log messages save_message delete_messages_by_thread
  by unfold_locales (simp_all add: messages_save_message delete_messages_by_thread_def)

interpretation mem_conv_log: message_log messages save_message delete_conversation
  by unfold_locales (simp_all add: messages_save_message delete_conversation_def)

interpretation mem_conversations: keyed_store "\<lambda>m k. conversations m k"
  "\<lambda>k c m. m\<lparr>conversations := (conversations m)(k \<mapsto> c)\<rparr>" delete_conversation
  by unfold_locales (simp_all add: delete_conversation_def)

interpretation mem_jobs: keyed_store "\<lambda>m k. jobs m k" "\<lambda>k j m. m\<lparr>jobs := (jobs m)(k \<mapsto> j)\<rparr>" delete_job
  by unfold_locales (simp_all add: delete_job_def)

section \<open>Lemmas on paging\<close>

lemma paginate_ok:
  assumes "0 \<le> offset" and "offset + limit < 2 ^ 63" and "- (2 ^ 63) \<le> limit"
  shows "paginate limit offset xs =
    Some (if limit \<le> 0 then drop (nat offset) xs else take (nat limit) (drop (nat offset) xs))"
proof (cases "offset \<ge> int (length xs)")
  case True
  then show ?thesis by (simp add: paginate_def)
next
  case False
  have e: "int64 (offset + limit) = offset + limit"
    using assms by (intro int64_id) auto
  show ?thesis
  proof (cases "limit \<le> 0 \<or> offset + limit > int (length xs)")
    case True
    then have "take (nat limit) (drop (nat offset) xs) = drop (nat offset) xs \<or> limit \<le> 0"
      using False assms(1) by auto
    with True False assms(1) e show ?thesis by (auto simp: paginate_def Let_def slice_from)
  next
    case inside: False
    then have "nat (offset + limit) - nat offset = nat limit"
      using assms(1) by simp
    with inside False assms(1) e show ?thesis by (simp add: paginate_def Let_def slice_def)
  qed
qed

lemma paginate_negative: "offset < 0 \<Longrightarrow> paginate limit offset xs = None"
  by (simp add: paginate_def Let_def slice_def)

lemma take_chunks: "concat (map (\<lambda>i. take n (drop (i * n) xs)) [0..<k]) = take (k * n) xs"
proof (induction k)
  case (Suc k)
  have "take (k * n + n) xs = take (k * n) xs @ take n (drop (k * n) xs)"
    by (rule take_add)
  with Suc show ?case by (simp add: add.commute)
qed simp

section \<open>The log a sequence of operations leaves\<close>

text \<open>The operations that write messages, and the log they denote.\<close>

datatype msg_op = SaveMsg instant message | DelThread string | DelConv string

fun apply_msg_op :: "msg_op \<Rightarrow> memory_db \<Rightarrow> memory_db" where
  "apply_msg_op (SaveMsg now x) m = save_message now x m"
| "apply_msg_op (DelThread t) m = delete_messages_by_thread t m"
| "apply_msg_op (DelConv t) m = delete_conversation t m"

fun log_of :: "string \<Rightarrow> msg_op list \<Rightarrow> message list" where
  "log_of t [] = []"
| "log_of t (SaveMsg now x # rest) =
     (if msg_ThreadID x = t \<and> \<not> (\<exists>op \<in> set rest. op = DelThread t \<or> op = DelConv t)
      then stamp_message now x # log_of t rest else log_of t rest)"
| "log_of t (DelThread t' # rest) = log_of t rest"
| "log_of t (DelConv t' # rest) = log_of t rest"

lemma messages_after_ops:
  "messages (fold apply_msg_op ops m) t =
     (if \<exists>op \<in> set ops. op = DelThread t \<or> op = DelConv t then [] else messages m t) @ log_of t ops"
proof (induction ops arbitrary: m)
  case (Cons op ops)
  then show ?case
    by (cases op) (auto simp: messages_save_message delete_messages_by_thread_def delete_conversation_def)
qed simp

section \<open>Properties\<close>

text \<open>
  C19: the history of a thread is the log of its messages: after any sequence of saves and deletions
  on a new database, reading the thread returns exactly the messages saved to it since its last
  deletion, in the order they were saved, each with its time filled in when it had none.
\<close>

theorem thread_history_is_log:
  "get_messages_by_thread t 0 0 (fold apply_msg_op ops new_memory_db) = Some (log_of t ops)"
  by (simp add: get_messages_by_thread_def paginate_ok messages_after_ops) (simp add: new_memory_db_def)

text \<open>
  Reading a thread page by page returns every message once, in order: the pages of any positive
  size put together are the whole history, as soon as they reach past its end.
\<close>

lemma pages_cover_thread:
  assumes "0 < limit" and "int k * limit < 2 ^ 63" and "length (messages m t) \<le> k * nat limit"
  shows "concat (map (\<lambda>i. the (get_messages_by_thread t limit (int i * limit) m)) [0..<k]) = messages m t \<and>
    (\<forall>i < k. get_messages_by_thread t limit (int i * limit) m \<noteq> None)"
proof -
  have page: "get_messages_by_thread t limit (int i * limit) m =
      Some (take (nat limit) (drop (i * nat limit) (messages m t)))" if "i < k" for i
  proof -
    have "int (Suc i) * limit \<le> int k * limit"
      using that assms(1) by (intro mult_right_mono) auto
    then have "int i * limit + limit < 2 ^ 63"
      using assms(2) by (simp add: distrib_right)
    moreover have "nat (int i * limit) = i * nat limit"
      using assms(1) by (simp add: nat_mult_distrib)
    ultimately show ?thesis
      using assms(1) by (simp add: get_messages_by_thread_def paginate_ok)
  qed
  have eq: "map (\<lambda>i. the (get_messages_by_thread t limit (int i * limit) m)) [0..<k] =
      map (\<lambda>i. take (nat limit) (drop (i * nat limit) (messages m t))) [0..<k]"
    using page by (intro map_cong) auto
  show ?thesis
    unfolding eq take_chunks using page assms(3) by auto
qed

theorem pages_cover_thread_witness:
  "concat (map (\<lambda>i. the (get_messages_by_thread ''t'' 10 (int i * 10)
     (save_message 5 \<lparr>msg_ID = ''m'', msg_ThreadID = ''t'', msg_UserID = ''u'', msg_Role = ''user'',
        msg_Content = ''hi'', msg_ToolCalls = [], msg_CreatedAt = 0\<rparr> new_memory_db))) [0..<1]) =
   [\<lparr>msg_ID = ''m'', msg_ThreadID = ''t'', msg_UserID = ''u'', msg_Role = ''user'',
        msg_Content = ''hi'', msg_ToolCalls = [], msg_CreatedAt = 5\<rparr>]"
proof -
  let ?m = "save_message 5 \<lparr>msg_ID = ''m'', msg_ThreadID = ''t'', msg_UserID = ''u'', msg_Role = ''user'',
        msg_Content = ''hi'', msg_ToolCalls = [], msg_CreatedAt = 0\<rparr> new_memory_db"
  have "messages ?m ''t'' = [\<lparr>msg_ID = ''m'', msg_ThreadID = ''t'', msg_UserID = ''u'', msg_Role = ''user'',
        msg_Content = ''hi'', msg_ToolCalls = [], msg_CreatedAt = 5\<rparr>]"
    by (simp add: messages_save_message) (simp add: new_memory_db_def stamp_message_def is_zero_time_def)
  then show ?thesis
    using pages_cover_thread [of 10 1 ?m "''t''"] by simp
qed

text \<open>
  Settings of a user are a private key-value store: a value written is read back, a deleted key
  is reported missing, and no write of one user shows in another user's reads.
\<close>

lemma settings_private_store:
  "get_setting u k (set_setting u k v m) = Inr v \<and>
   (get_setting u' k' (set_setting u k v m) = get_setting u' k' m \<or> u' = u) \<and>
   (get_setting u k' (set_setting u k v m) = Inr v' \<longleftrightarrow>
      (if k' = k then v' = v else get_setting u k' m = Inr v')) \<and>
   isl (get_setting u k (delete_setting u k m)) \<and>
   (get_setting u' k' (delete_setting u k m) = get_setting u' k' m \<or> u' = u \<and> k' = k)"
  by (auto simp: get_setting_def set_setting_def delete_setting_def Let_def split: option.splits)

text \<open>
  A negative offset reaches the slice expression of the list methods and panics.
\<close>

lemma negative_offset_panics:
  "offset < 0 \<Longrightarrow> get_messages_by_thread t limit offset m = None"
  by (simp add: get_messages_by_thread_def paginate_negative)

end
