(* ===== verification/Channel_Types.thy ===== *)
theory Channel_Types
  imports Go_Prelude
begin

text \<open>The message and event types that the channels exchange with the agent, \<open>internal/channels/channel.go\<close>.\<close>

datatype attachment_kind = AttachmentKindAudio | AttachmentKindImage | AttachmentKindDocument

record attachment =
  att_ID :: string
  att_Kind :: attachment_kind
  att_MIMEType :: string
  att_Filename :: string
  att_SizeBytes :: int
  att_SourceURL :: string
  att_StorageKey :: string
  att_LocalPath :: string
  att_ExtractedText :: string
  att_Data :: string
  att_DurationSecs :: int

record incoming_message =
  im_ID :: string
  im_Channel :: string
  im_UserID :: string
  im_Content :: string
  im_ThreadID :: string
  im_Attachments :: "attachment list"

record outgoing_response =
  or_Content :: string
  or_ThreadID :: string
  or_Status :: string

datatype event_type =
    EventAgentResponse
  | EventToolCall
  | EventToolResult
  | EventGatePending
  | EventGateResolved
  | EventError
  | EventPing

definition event_type_text :: "event_type \<Rightarrow> string" where
  "event_type_text t =
     (case t of
        EventAgentResponse \<Rightarrow> ''agent_response''
      | EventToolCall \<Rightarrow> ''tool_call''
      | EventToolResult \<Rightarrow> ''tool_result''
      | EventGatePending \<Rightarrow> ''gate_pending''
      | EventGateResolved \<Rightarrow> ''gate_resolved''
      | EventError \<Rightarrow> ''error''
      | EventPing \<Rightarrow> ''ping'')"

record event =
  ev_Type :: event_type
  ev_UserID :: string
  ev_ThreadID :: string
  ev_Payload :: string
  ev_Meta :: params

text \<open>The wire names of the event types are distinct, so a consumer can tell them apart.\<close>

lemma event_type_text_inj: "event_type_text a = event_type_text b \<longleftrightarrow> a = b"
  by (cases a; cases b) (simp_all add: event_type_text_def)

end
