(* ===== verification/Tools.thy ===== *)
theory Tools
  imports Safety_Layer Pending_Store Memory_DB Channel_Types
begin

text \<open>
  Tools and their dispatch: the tool interface (\<open>internal/tools/tool.go\<close>), the registry
  (\<open>registry.go\<close>) and the dispatcher with its audit (\<open>dispatch.go\<close>). What a tool does to its
  surroundings is a function on a world \<open>'w\<close>; the built-in tools of the next theories are instances.
  The audit runs in a goroutine of its own: a dispatch returns the audit calls it has started.
\<close>

section \<open>Tools\<close>

record job_context =
  jc_UserID :: string
  jc_JobID :: string
  jc_ThreadID :: string

record tool_output =
  to_Content :: string
  to_Metadata :: params
  to_Duration :: int

definition empty_output :: tool_output where
  "empty_output = \<lparr>to_Content = [], to_Metadata = Map.empty, to_Duration = 0\<rparr>"

definition text_output :: "string \<Rightarrow> tool_output" where
  "text_output s = \<lparr>to_Content = s, to_Metadata = Map.empty, to_Duration = 0\<rparr>"

text \<open>
  A parameter map may be nil, which reads as the empty map. \<open>Execute\<close> returns an output and
  possibly an error, both of which the dispatcher uses.
\<close>

type_synonym nil_params = "params option"

definition the_params :: "nil_params \<Rightarrow> params" where
  "the_params ps = (case ps of None \<Rightarrow> Map.empty | Some m \<Rightarrow> m)"

record 'w tool =
  t_Name :: string
  t_Description :: string
  t_ParameterSchema :: params
  t_Execute :: "nil_params \<Rightarrow> job_context \<Rightarrow> 'w \<Rightarrow> (tool_output \<times> string option) \<times> 'w"
  t_RequiresApproval :: "nil_params \<Rightarrow> approval_requirement"

section \<open>Registry\<close>

record 'w registry =
  tools :: "string \<rightharpoonup> 'w tool"

definition new_registry :: "'w registry" where
  "new_registry = \<lparr>tools = Map.empty\<rparr>"

definition register :: "'w tool \<Rightarrow> 'w registry \<Rightarrow> 'w registry" where
  "register t r = r\<lparr>tools := (tools r)(t_Name t \<mapsto> t)\<rparr>"

definition registry_get :: "string \<Rightarrow> 'w registry \<Rightarrow> 'w tool option" where
  "registry_get name r = tools r name"

definition registry_count :: "'w registry \<Rightarrow> nat" where
  "registry_count r = map_len (tools r)"

definition registry_list :: "string list \<Rightarrow> 'w registry \<Rightarrow> string list" where
  "registry_list ks r = map fst (range_map ks (tools r))"

interpretation tool_registry: keyed_map "\<lambda>r k. registry_get k r"
  "\<lambda>k t (r :: 'w registry). r\<lparr>tools := (tools r)(k \<mapsto> t)\<rparr>"
  by unfold_locales (simp add: registry_get_def)

section \<open>Dispatcher\<close>

text \<open>A gate of the dispatcher reads the world (for instance the learned approvals) and the clock.\<close>

record 'w exec_gate =
  g_Name :: string
  g_Evaluate :: "'w \<Rightarrow> instant \<Rightarrow> gate_context \<Rightarrow> gate_decision"

record 'w dispatcher =
  d_registry :: "'w registry"
  d_safety :: "layer option"
  d_rateLimiter :: rate_limiter
  d_allowed :: "(string \<Rightarrow> bool) option"
  d_gates :: "'w exec_gate list"
  d_pendingStore :: pending_store
  d_autoApproved :: "string \<Rightarrow> bool"
  d_publishes :: bool

definition new_dispatcher :: "'w registry \<Rightarrow> layer option \<Rightarrow> 'w dispatcher" where
  "new_dispatcher reg safetyLayer =
     \<lparr>d_registry = reg, d_safety = safetyLayer, d_rateLimiter = new_rate_limiter 60 minute,
      d_allowed = None, d_gates = [], d_pendingStore = new_pending_store,
      d_autoApproved = (\<lambda>_. False), d_publishes = False\<rparr>"

definition new_dispatcher_with_limit :: "'w registry \<Rightarrow> layer option \<Rightarrow> string list \<Rightarrow> 'w dispatcher" where
  "new_dispatcher_with_limit reg safetyLayer allowed =
     (let d = new_dispatcher reg safetyLayer
      in if length allowed > 0 then d\<lparr>d_allowed := Some (\<lambda>n. n \<in> set allowed)\<rparr> else d)"

definition with_gates :: "'w exec_gate list \<Rightarrow> 'w dispatcher \<Rightarrow> 'w dispatcher" where
  "with_gates gs d = d\<lparr>d_gates := d_gates d @ gs\<rparr>"

definition with_auto_approved :: "string list \<Rightarrow> 'w dispatcher \<Rightarrow> 'w dispatcher" where
  "with_auto_approved names d = d\<lparr>d_autoApproved := (\<lambda>n. n \<in> set names \<or> d_autoApproved d n)\<rparr>"

definition with_event_publisher :: "'w dispatcher \<Rightarrow> 'w dispatcher" where
  "with_event_publisher d = d\<lparr>d_publishes := True\<rparr>"

datatype dispatch_error =
    NotAllowed string
  | ToolNotFound string
  | RateLimited string
  | DeniedByGate string string
  | Paused string string string
  | ToolFailed string
  | SanitizerPanic

text \<open>
  The last constructor is no error value: it stands for a dispatch that does not return because the
  leak detector panics on the tool's output. The error texts; \<open>q\<close> is \<open>strconv.Quote\<close>, the verb \<open>%q\<close>.
\<close>

definition dispatch_error_text :: "(string \<Rightarrow> string) \<Rightarrow> dispatch_error \<Rightarrow> string" where
  "dispatch_error_text q e =
     (case e of
        NotAllowed t \<Rightarrow> ''tool '' @ q t @ '' is not in the allowed list''
      | ToolNotFound t \<Rightarrow> ''tool '' @ [CHR 0x27] @ t @ [CHR 0x27] @ '' not found''
      | RateLimited t \<Rightarrow> ''rate limit exceeded for tool '' @ [CHR 0x27] @ t @ [CHR 0x27]
      | DeniedByGate t g \<Rightarrow>
          ''tool '' @ [CHR 0x27] @ t @ [CHR 0x27] @ '' denied by gate '' @ [CHR 0x27] @ g @ [CHR 0x27]
      | Paused t r d \<Rightarrow>
          ''tool '' @ [CHR 0x27] @ t @ [CHR 0x27] @ '' requires approval (request '' @ r @ ''): '' @ d
      | ToolFailed msg \<Rightarrow> msg
      | SanitizerPanic \<Rightarrow> [])"

definition is_pause_error :: "dispatch_error \<Rightarrow> bool" where
  "is_pause_error e = (case e of Paused _ _ _ \<Rightarrow> True | _ \<Rightarrow> False)"

text \<open>What one dispatch draws from outside: clock readings, a fresh identifier, a map order.\<close>

record dispatch_env =
  de_rate :: instant
  de_consume :: instant
  de_gate :: instant
  de_create :: instant
  de_start :: instant
  de_stop :: instant
  de_uuid :: string
  de_order :: "string list"

record audit_call =
  au_JobCtx :: job_context
  au_ToolName :: string
  au_Params :: nil_params
  au_Out :: tool_output
  au_Err :: "string option"

record 'w dispatch_result =
  dr_result :: "dispatch_error + tool_output"
  dr_dispatcher :: "'w dispatcher"
  dr_world :: 'w
  dr_events :: "event list"
  dr_audits :: "audit_call list"

datatype gate_outcome = GatesPassed | GateDenied string | GatePaused

fun eval_gates :: "'w exec_gate list \<Rightarrow> 'w \<Rightarrow> instant \<Rightarrow> gate_context \<Rightarrow> gate_outcome" where
  "eval_gates [] w now gctx = GatesPassed"
| "eval_gates (g # gs) w now gctx =
     (case g_Evaluate g w now gctx of
        Allow \<Rightarrow> eval_gates gs w now gctx
      | Deny \<Rightarrow> GateDenied (g_Name g)
      | Pause \<Rightarrow> GatePaused)"

definition dispatch_context :: "string \<Rightarrow> nil_params \<Rightarrow> job_context \<Rightarrow> 'w dispatcher \<Rightarrow> gate_context" where
  "dispatch_context toolName ps jobCtx d =
     \<lparr>gc_ToolName = toolName, gc_Params = the_params ps, gc_UserID = jc_UserID jobCtx,
      gc_ThreadID = jc_ThreadID jobCtx, gc_AutoApproved = d_autoApproved d,
      gc_ExecutionMode = Interactive, gc_Channel = ''repl''\<rparr>"

definition milliseconds :: "duration \<Rightarrow> int" where
  "milliseconds d = (if d < 0 then - (- d div 1000000) else d div 1000000)"

definition tool_call_event :: "string \<Rightarrow> job_context \<Rightarrow> event" where
  "tool_call_event toolName jobCtx =
     \<lparr>ev_Type = EventToolCall, ev_UserID = jc_UserID jobCtx, ev_ThreadID = jc_ThreadID jobCtx,
      ev_Payload = ''Executing tool: '' @ toolName,
      ev_Meta = [''tool_name'' \<mapsto> JStr toolName]\<rparr>"

definition tool_result_event :: "string \<Rightarrow> job_context \<Rightarrow> string \<Rightarrow> int \<Rightarrow> event" where
  "tool_result_event toolName jobCtx status dur =
     \<lparr>ev_Type = EventToolResult, ev_UserID = jc_UserID jobCtx, ev_ThreadID = jc_ThreadID jobCtx,
      ev_Payload = ''Tool '' @ toolName @ '' '' @ status @ '' ('' @ show_int dur @ '' ms)'',
      ev_Meta = [''tool_name'' \<mapsto> JStr toolName, ''status'' \<mapsto> JStr status,
                 ''duration_ms'' \<mapsto> JNum (of_int dur)]\<rparr>"

text \<open>The execution part of \<open>Dispatch\<close>, after all checks have passed.\<close>

definition run_tool ::
  "dispatch_env \<Rightarrow> 'w tool \<Rightarrow> string \<Rightarrow> nil_params \<Rightarrow> job_context \<Rightarrow> 'w dispatcher \<Rightarrow> 'w \<Rightarrow> 'w dispatch_result" where
  "run_tool env tool toolName ps jobCtx d w =
     (let ((out0, err), w') = t_Execute tool ps jobCtx w;
          dur = milliseconds (de_stop env - de_start env);
          out1 = out0\<lparr>to_Duration := dur\<rparr>;
          status = (if err = None then ''success'' else ''error'');
          events = (if d_publishes d
                    then [tool_call_event toolName jobCtx, tool_result_event toolName jobCtx status dur]
                    else []);
          sanitized = (case (err, d_safety d) of
                         (None, Some l) \<Rightarrow>
                           map_option (\<lambda>c. out1\<lparr>to_Content := c\<rparr>) (sanitize_tool_output l (to_Content out1))
                       | _ \<Rightarrow> Some out1)
      in case sanitized of
           None \<Rightarrow>
             \<lparr>dr_result = Inl SanitizerPanic, dr_dispatcher = d, dr_world = w', dr_events = events,
              dr_audits = []\<rparr>
         | Some out \<Rightarrow>
             \<lparr>dr_result = (case err of None \<Rightarrow> Inr out | Some e \<Rightarrow> Inl (ToolFailed e)),
              dr_dispatcher = d, dr_world = w', dr_events = events,
              dr_audits = [\<lparr>au_JobCtx = jobCtx, au_ToolName = toolName, au_Params = ps, au_Out = out,
                            au_Err = err\<rparr>]\<rparr>)"

definition refuse :: "dispatch_error \<Rightarrow> 'w dispatcher \<Rightarrow> 'w \<Rightarrow> 'w dispatch_result" where
  "refuse e d w =
     \<lparr>dr_result = Inl e, dr_dispatcher = d, dr_world = w, dr_events = [], dr_audits = []\<rparr>"

definition dispatch ::
  "dispatch_env \<Rightarrow> string \<Rightarrow> nil_params \<Rightarrow> job_context \<Rightarrow> 'w dispatcher \<Rightarrow> 'w \<Rightarrow> 'w dispatch_result" where
  "dispatch env toolName ps jobCtx d w =
     (if (case d_allowed d of None \<Rightarrow> False | Some allowed \<Rightarrow> \<not> allowed toolName)
      then refuse (NotAllowed toolName) d w
      else case registry_get toolName (d_registry d) of
        None \<Rightarrow> refuse (ToolNotFound toolName) d w
      | Some tool \<Rightarrow>
          (let (granted, rl) = allow (de_rate env) (jc_UserID jobCtx @ ''/'' @ toolName) (d_rateLimiter d);
               d1 = d\<lparr>d_rateLimiter := rl\<rparr>
           in if \<not> granted then refuse (RateLimited toolName) d1 w
              else
                (let (approved, st) = ps_consume_resolved (de_consume env) (jc_UserID jobCtx)
                                        (jc_ThreadID jobCtx) (d_pendingStore d1);
                     d2 = d1\<lparr>d_pendingStore := st\<rparr>;
                     outcome = (if approved \<noteq> None then GatesPassed
                                else eval_gates (d_gates d2) w (de_gate env)
                                       (dispatch_context toolName ps jobCtx d2))
                 in case outcome of
                      GatesPassed \<Rightarrow> run_tool env tool toolName ps jobCtx d2 w
                    | GateDenied g \<Rightarrow> refuse (DeniedByGate toolName g) d2 w
                    | GatePaused \<Rightarrow>
                        (let (pg, st') = ps_create (de_create env) (de_order env) (de_uuid env)
                                           (jc_UserID jobCtx) (jc_ThreadID jobCtx) toolName
                                           (the_params ps) ''repl'' (d_pendingStore d2)
                         in refuse (Paused toolName (pg_RequestID pg) (pg_Description pg))
                              (d2\<lparr>d_pendingStore := st'\<rparr>) w))))"

text \<open>
  The audit goroutine; \<open>fmt_v\<close> is the verb \<open>%v\<close> on a parameter map, and a database that is nil or
  whose \<open>SaveActionRecord\<close> fails leaves no trace.
\<close>

definition audit ::
  "(params \<Rightarrow> string) \<Rightarrow> 'd database option \<Rightarrow> instant \<Rightarrow> string \<Rightarrow> audit_call \<Rightarrow> 'd \<Rightarrow> 'd" where
  "audit fmt_v database now uuid c s =
     (case database of
        None \<Rightarrow> s
      | Some dbase \<Rightarrow>
          snd (db_SaveActionRecord dbase now
            \<lparr>ar_ID = uuid, ar_JobID = jc_JobID (au_JobCtx c), ar_ToolName = au_ToolName c,
             ar_Input = (case au_Params c of None \<Rightarrow> [] | Some m \<Rightarrow> fmt_v m),
             ar_Output = to_Content (au_Out c),
             ar_Error = (case au_Err c of None \<Rightarrow> [] | Some e \<Rightarrow> e),
             ar_Duration = to_Duration (au_Out c) * 1000000, ar_CreatedAt = now\<rparr> s))"

section \<open>When a tool runs\<close>

text \<open>The checks a call has to pass, in one predicate.\<close>

definition cleared :: "dispatch_env \<Rightarrow> string \<Rightarrow> nil_params \<Rightarrow> job_context \<Rightarrow> 'w dispatcher \<Rightarrow> 'w \<Rightarrow> bool" where
  "cleared env toolName ps jobCtx d w \<longleftrightarrow>
     (\<forall>allowed. d_allowed d = Some allowed \<longrightarrow> allowed toolName) \<and>
     registry_get toolName (d_registry d) \<noteq> None \<and>
     fst (allow (de_rate env) (jc_UserID jobCtx @ ''/'' @ toolName) (d_rateLimiter d)) \<and>
     (resolved (d_pendingStore d) (jc_ThreadID jobCtx) \<noteq> None \<or>
      (\<forall>g \<in> set (d_gates d). g_Evaluate g w (de_gate env) (dispatch_context toolName ps jobCtx d) = Allow))"

lemma eval_gates_passed: "eval_gates gs w now c = GatesPassed \<longleftrightarrow> (\<forall>g \<in> set gs. g_Evaluate g w now c = Allow)"
  by (induction gs) (auto split: gate_decision.splits)

lemma consume_resolved_iff:
  "fst (ps_consume_resolved now u t s) = resolved s t"
  by (simp add: ps_consume_resolved_def store_key_def Let_def split: option.splits)

lemma dispatch_context_frame [simp]:
  "dispatch_context n ps j (d\<lparr>d_rateLimiter := rl\<rparr>) = dispatch_context n ps j d"
  "dispatch_context n ps j (d\<lparr>d_pendingStore := st\<rparr>) = dispatch_context n ps j d"
  by (simp_all add: dispatch_context_def)

lemma refuse_simps [simp]:
  "dr_result (refuse e d w) = Inl e" "dr_world (refuse e d w) = w" "dr_events (refuse e d w) = []"
  "dr_audits (refuse e d w) = []" "dr_dispatcher (refuse e d w) = d"
  by (simp_all add: refuse_def)

text \<open>The state with which the checks leave the dispatcher when the call is cleared.\<close>

definition after_checks :: "dispatch_env \<Rightarrow> string \<Rightarrow> job_context \<Rightarrow> 'w dispatcher \<Rightarrow> 'w dispatcher" where
  "after_checks env toolName jobCtx d =
     d\<lparr>d_rateLimiter := snd (allow (de_rate env) (jc_UserID jobCtx @ ''/'' @ toolName) (d_rateLimiter d)),
       d_pendingStore := snd (ps_consume_resolved (de_consume env) (jc_UserID jobCtx) (jc_ThreadID jobCtx)
         (d_pendingStore d))\<rparr>"

definition gate_result ::
  "dispatch_env \<Rightarrow> string \<Rightarrow> nil_params \<Rightarrow> job_context \<Rightarrow> 'w dispatcher \<Rightarrow> 'w \<Rightarrow> gate_outcome" where
  "gate_result env n ps j d w =
     (if resolved (d_pendingStore d) (jc_ThreadID j) \<noteq> None then GatesPassed
      else eval_gates (d_gates d) w (de_gate env) (dispatch_context n ps j d))"

definition admitted :: "dispatch_env \<Rightarrow> string \<Rightarrow> job_context \<Rightarrow> 'w dispatcher \<Rightarrow> bool" where
  "admitted env n j d \<longleftrightarrow>
     (\<forall>allowed. d_allowed d = Some allowed \<longrightarrow> allowed n) \<and> registry_get n (d_registry d) \<noteq> None \<and>
     fst (allow (de_rate env) (jc_UserID j @ ''/'' @ n) (d_rateLimiter d))"

lemma cleared_alt: "cleared env n ps j d w \<longleftrightarrow> admitted env n j d \<and> gate_result env n ps j d w = GatesPassed"
  by (auto simp: cleared_def admitted_def gate_result_def eval_gates_passed)

lemma dispatch_admitted:
  assumes "admitted env n j d"
  shows "dispatch env n ps j d w =
    (case gate_result env n ps j d w of
       GatesPassed \<Rightarrow> run_tool env (the (registry_get n (d_registry d))) n ps j (after_checks env n j d) w
     | GateDenied g \<Rightarrow> refuse (DeniedByGate n g) (after_checks env n j d) w
     | GatePaused \<Rightarrow>
         (let (pg, st') = ps_create (de_create env) (de_order env) (de_uuid env) (jc_UserID j)
                            (jc_ThreadID j) n (the_params ps) ''repl'' (d_pendingStore (after_checks env n j d))
          in refuse (Paused n (pg_RequestID pg) (pg_Description pg))
               ((after_checks env n j d)\<lparr>d_pendingStore := st'\<rparr>) w))"
proof -
  obtain tool where tool: "registry_get n (d_registry d) = Some tool"
    using assms by (auto simp: admitted_def)
  obtain rl where rl: "allow (de_rate env) (jc_UserID j @ ''/'' @ n) (d_rateLimiter d) = (True, rl)"
    using assms unfolding admitted_def by (metis prod.collapse)
  obtain a st where st: "ps_consume_resolved (de_consume env) (jc_UserID j) (jc_ThreadID j) (d_pendingStore d) = (a, st)"
    by fastforce
  then have a: "a = resolved (d_pendingStore d) (jc_ThreadID j)"
    using consume_resolved_iff by (metis fst_conv)
  have nb: "\<not> (case d_allowed d of None \<Rightarrow> False | Some allowed \<Rightarrow> \<not> allowed n)"
    using assms by (auto simp: admitted_def split: option.splits)
  have chk: "after_checks env n j d = d\<lparr>d_rateLimiter := rl, d_pendingStore := st\<rparr>"
    using rl st by (simp add: after_checks_def)
  show ?thesis
    using nb rl st unfolding chk gate_result_def a [symmetric]
    by (simp add: dispatch_def tool Let_def split: gate_outcome.splits)
qed

lemma dispatch_not_admitted:
  assumes "\<not> admitted env n j d"
  obtains e d' where "dispatch env n ps j d w = refuse e d' w" "\<not> is_pause_error e"
proof -
  obtain b rl where rl: "allow (de_rate env) (jc_UserID j @ ''/'' @ n) (d_rateLimiter d) = (b, rl)"
    by fastforce
  consider "\<exists>allowed. d_allowed d = Some allowed \<and> \<not> allowed n"
    | "\<forall>allowed. d_allowed d = Some allowed \<longrightarrow> allowed n" "registry_get n (d_registry d) = None"
    | tool where "\<forall>allowed. d_allowed d = Some allowed \<longrightarrow> allowed n"
        "registry_get n (d_registry d) = Some tool" "\<not> b"
    using assms rl by (auto simp: admitted_def)
  then show thesis
  proof cases
    case 1
    then have "dispatch env n ps j d w = refuse (NotAllowed n) d w"
      by (auto simp: dispatch_def)
    then show ?thesis by (rule that) (simp add: is_pause_error_def)
  next
    case 2
    then have "dispatch env n ps j d w = refuse (ToolNotFound n) d w"
      by (auto simp: dispatch_def split: option.splits)
    then show ?thesis by (rule that) (simp add: is_pause_error_def)
  next
    case 3
    then have "dispatch env n ps j d w = refuse (RateLimited n) (d\<lparr>d_rateLimiter := rl\<rparr>) w"
      using rl by (auto simp: dispatch_def Let_def split: option.splits)
    then show ?thesis by (rule that) (simp add: is_pause_error_def)
  qed
qed

lemma dispatch_cleared:
  "cleared env n ps j d w \<Longrightarrow>
     dispatch env n ps j d w = run_tool env (the (registry_get n (d_registry d))) n ps j (after_checks env n j d) w"
  by (simp add: cleared_alt dispatch_admitted)

lemma dispatch_refused:
  assumes "\<not> cleared env n ps j d w"
  obtains e d' where "dispatch env n ps j d w = refuse e d' w"
proof (cases "admitted env n j d")
  case True
  with assms have "gate_result env n ps j d w \<noteq> GatesPassed"
    by (simp add: cleared_alt)
  then have "\<exists>e d'. dispatch env n ps j d w = refuse e d' w"
    unfolding dispatch_admitted [OF True]
    by (cases "gate_result env n ps j d w") (auto simp: Let_def split: prod.splits)
  then show ?thesis using that by blast
next
  case False
  then show ?thesis using that by (rule dispatch_not_admitted)
qed

lemma run_tool_world: "dr_world (run_tool env tool n ps j d w) = snd (t_Execute tool ps j w)"
  by (auto simp: run_tool_def Let_def split: prod.splits option.splits)

lemma run_tool_not_paused: "dr_result (run_tool env tool n ps j d w) \<noteq> Inl (Paused a b c)"
  by (auto simp: run_tool_def Let_def split: prod.splits option.splits)

lemma dispatch_paused:
  assumes "dr_result (dispatch env n ps j d w) = Inl (Paused n' r desc)"
  obtains pg st' where "admitted env n j d" "gate_result env n ps j d w = GatePaused"
    "ps_create (de_create env) (de_order env) (de_uuid env) (jc_UserID j) (jc_ThreadID j) n (the_params ps)
       ''repl'' (d_pendingStore (after_checks env n j d)) = (pg, st')"
    "dispatch env n ps j d w = refuse (Paused n (pg_RequestID pg) (pg_Description pg))
       ((after_checks env n j d)\<lparr>d_pendingStore := st'\<rparr>) w"
    "pg_RequestID pg = r"
proof -
  have adm: "admitted env n j d"
  proof (rule ccontr)
    assume "\<not> admitted env n j d"
    then obtain e d' where "dispatch env n ps j d w = refuse e d' w" "\<not> is_pause_error e"
      by (rule dispatch_not_admitted)
    with assms show False by (auto simp: is_pause_error_def)
  qed
  with assms have "gate_result env n ps j d w = GatePaused"
    by (auto simp: dispatch_admitted run_tool_not_paused split: gate_outcome.splits)
  with adm assms that show thesis
    by (auto simp: dispatch_admitted Let_def split: prod.splits)
qed

text \<open>After a pause the call is pending on its thread, and nothing else has changed.\<close>

lemma dispatch_pause_state:
  assumes "dr_result (dispatch env n ps j d w) = Inl (Paused n' r desc)"
  obtains pg where "admitted env n j d"
    "byKey (d_pendingStore (dr_dispatcher (dispatch env n ps j d w))) (jc_ThreadID j) = Some pg" "pg_RequestID pg = r"
    "pg_ToolName pg = n" "pg_Params pg = the_params ps" "pg_ExpiresAt pg = de_create env + ttl (d_pendingStore d)"
    "resolved (d_pendingStore (dr_dispatcher (dispatch env n ps j d w))) (jc_ThreadID j) = None"
    "d_registry (dr_dispatcher (dispatch env n ps j d w)) = d_registry d"
    "d_allowed (dr_dispatcher (dispatch env n ps j d w)) = d_allowed d"
    "dr_world (dispatch env n ps j d w) = w"
proof -
  let ?st0 = "d_pendingStore (after_checks env n j d)"
  obtain pg st' where p: "admitted env n j d" "gate_result env n ps j d w = GatePaused"
    "ps_create (de_create env) (de_order env) (de_uuid env) (jc_UserID j) (jc_ThreadID j) n (the_params ps)
       ''repl'' ?st0 = (pg, st')"
    "dispatch env n ps j d w = refuse (Paused n (pg_RequestID pg) (pg_Description pg))
       ((after_checks env n j d)\<lparr>d_pendingStore := st'\<rparr>) w"
    "pg_RequestID pg = r"
    using dispatch_paused [OF assms] .
  have "resolved (d_pendingStore d) (jc_ThreadID j) = None"
    using p(2) by (auto simp: gate_result_def split: if_splits)
  moreover from this have "?st0 = d_pendingStore d"
    by (simp add: after_checks_def ps_consume_resolved_def store_key_def Let_def)
  ultimately have "byKey st' (jc_ThreadID j) = Some pg" "pg_ExpiresAt pg = de_create env + ttl (d_pendingStore d)"
      "resolved st' (jc_ThreadID j) = None" "pg_ToolName pg = n" "pg_Params pg = the_params ps"
    using p(3) by (auto simp: ps_create_def Let_def store_key_def)
  with p(1,4,5) that show thesis by (simp add: after_checks_def)
qed

text \<open>A small tool, for the concrete instances of the properties.\<close>

definition greeter :: "string tool" where
  "greeter = \<lparr>t_Name = ''greet'', t_Description = ''says ok and leaves a mark'', t_ParameterSchema = Map.empty,
     t_Execute = (\<lambda>ps j w. ((text_output ''ok'', None), w @ ''!'')), t_RequiresApproval = (\<lambda>_. Never)\<rparr>"

section \<open>Properties\<close>

text \<open>
  C1: a tool runs exactly when the call is cleared: it is on the allow list if there is one, it is
  registered, the rate limiter grants it, and either an approval of its thread is waiting or every
  gate lets it through. A refused call leaves the world as it was, publishes nothing, starts no
  audit and returns an error.
\<close>

theorem tool_runs_iff_cleared:
  "if cleared env n ps j d w
   then (\<exists>tool. registry_get n (d_registry d) = Some tool \<and>
          dispatch env n ps j d w = run_tool env tool n ps j (after_checks env n j d) w \<and>
          dr_world (dispatch env n ps j d w) = snd (t_Execute tool ps j w))
   else dr_world (dispatch env n ps j d w) = w \<and> dr_events (dispatch env n ps j d w) = [] \<and>
        dr_audits (dispatch env n ps j d w) = [] \<and> isl (dr_result (dispatch env n ps j d w))"
proof (cases "cleared env n ps j d w")
  case True
  then obtain tool where tool: "registry_get n (d_registry d) = Some tool"
    by (auto simp: cleared_def)
  with True show ?thesis
    by (auto simp: dispatch_cleared run_tool_world)
next
  case False
  then obtain e d' where "dispatch env n ps j d w = refuse e d' w"
    by (rule dispatch_refused)
  with False show ?thesis by simp
qed

text \<open>
  C9: the content a successful dispatch returns, and the content its audit records, is the
  sanitized form of what the tool produced, whenever a safety layer is configured.
\<close>

theorem dispatched_output_sanitized:
  assumes "dr_result (dispatch env n ps j d w) = Inr out" and "d_safety d = Some l"
  shows "\<exists>tool raw w'. registry_get n (d_registry d) = Some tool \<and>
    t_Execute tool ps j w = ((raw, None), w') \<and>
    sanitize_tool_output l (to_Content raw) = Some (to_Content out) \<and>
    map au_Out (dr_audits (dispatch env n ps j d w)) = [out]"
proof -
  have c: "cleared env n ps j d w"
    using assms(1) dispatch_refused [of env n ps j d w] by (metis Inl_Inr_False refuse_simps(1))
  then obtain tool where tool: "registry_get n (d_registry d) = Some tool"
    by (auto simp: cleared_def)
  have "d_safety (after_checks env n j d) = Some l"
    using assms(2) by (simp add: after_checks_def)
  with assms(1) tool show ?thesis
    by (auto simp: dispatch_cleared [OF c] run_tool_def Let_def split: prod.splits option.splits)
qed

theorem dispatched_output_sanitized_witness:
  "sanitize_tool_output new_layer ''ok'' = Some ''ok''"
proof -
  let ?d = "new_dispatcher (register greeter new_registry) (Some new_layer)"
  let ?j = "\<lparr>jc_UserID = ''u'', jc_JobID = ''j'', jc_ThreadID = ''t''\<rparr>"
  let ?e = "\<lparr>de_rate = 0, de_consume = 0, de_gate = 0, de_create = 0, de_start = 0, de_stop = 5000000,
      de_uuid = ''r1'', de_order = []\<rparr>"
  have c: "cleared ?e ''greet'' None ?j ?d []"
    by (simp add: cleared_def new_dispatcher_def register_def registry_get_def greeter_def allow_def
        new_rate_limiter_def new_registry_def)
  have tool: "registry_get ''greet'' (d_registry ?d) = Some greeter"
    by (simp add: new_dispatcher_def register_def registry_get_def greeter_def)
  have "leak_scan new_detector ''ok'' = []"
    by code_simp
  then have clean: "sanitize_tool_output new_layer ''ok'' = Some ''ok''"
    by (simp add: sanitize_tool_output_def new_layer_def safety_default_config_def sanitizer_content
        scan_and_clean_def)
  have "dr_result (dispatch ?e ''greet'' None ?j ?d []) = Inr (text_output ''ok''\<lparr>to_Duration := 5\<rparr>)"
    unfolding dispatch_cleared [OF c] tool
    by (simp add: run_tool_def greeter_def Let_def after_checks_def new_dispatcher_def clean text_output_def
        milliseconds_def)
  from dispatched_output_sanitized [OF this, of new_layer] tool show ?thesis
    by (auto simp: new_dispatcher_def greeter_def text_output_def)
qed

text \<open>
  A call that pauses can be approved and then runs. When a dispatch pauses, its request is
  pending on the thread; approving it before it expires and dispatching again runs the tool without
  asking the gates, provided the rate limiter still grants the second call.
\<close>

lemma pause_approve_execute:
  assumes "dr_result (dispatch env n ps j d w) = Inl (Paused n r desc)"
    and "d1 = dr_dispatcher (dispatch env n ps j d w)"
    and "now \<le> de_create env + ttl (d_pendingStore d)"
    and "consumed (d_pendingStore d1) r = None"
    and "ps_resolve now u (jc_ThreadID j) r (d_pendingStore d1) = (res, st)"
    and "fst (allow (de_rate env') (jc_UserID j @ ''/'' @ n) (d_rateLimiter d1))"
  shows "isl res = False \<and>
    cleared env' n ps j (d1\<lparr>d_pendingStore := st\<rparr>) w \<and>
    dr_world (dispatch env' n ps j (d1\<lparr>d_pendingStore := st\<rparr>) w) =
      snd (t_Execute (the (registry_get n (d_registry d))) ps j w)"
proof -
  obtain pg where p: "admitted env n j d" "byKey (d_pendingStore d1) (jc_ThreadID j) = Some pg" "pg_RequestID pg = r"
    "pg_ExpiresAt pg = de_create env + ttl (d_pendingStore d)" "resolved (d_pendingStore d1) (jc_ThreadID j) = None"
    "d_registry d1 = d_registry d" "d_allowed d1 = d_allowed d"
    using dispatch_pause_state [OF assms(1)] assms(2) by metis
  then have res: "res = Inr (Some pg)" "resolved st (jc_ThreadID j) = Some pg"
    using assms(3,4,5)
    by (auto simp: ps_resolve_def ps_resolve_pending_def store_key_def Let_def is_expired_def)
  moreover have "cleared env' n ps j (d1\<lparr>d_pendingStore := st\<rparr>) w"
    using assms(6) res(2) p(1,6,7) by (auto simp: cleared_def admitted_def)
  ultimately show ?thesis
    using p(6) by (simp add: dispatch_cleared run_tool_world)
qed

theorem pause_approve_execute_witness:
  "\<exists>d1 st env'. dr_world (dispatch env' ''greet'' None \<lparr>jc_UserID = ''u'', jc_JobID = ''j'', jc_ThreadID = ''t''\<rparr>
     (d1\<lparr>d_pendingStore := st\<rparr>) []) = ''!''"
proof -
  let ?d = "with_gates [\<lparr>g_Name = ''ask'', g_Evaluate = (\<lambda>_ _ _. Pause)\<rparr>]
      (new_dispatcher (register greeter new_registry) None)"
  let ?j = "\<lparr>jc_UserID = ''u'', jc_JobID = ''j'', jc_ThreadID = ''t''\<rparr>"
  let ?e = "\<lparr>de_rate = 0, de_consume = 0, de_gate = 0, de_create = 0, de_start = 0, de_stop = 0,
      de_uuid = ''r1'', de_order = []\<rparr>"
  let ?r = "dispatch ?e ''greet'' None ?j ?d []"
  have a: "admitted ?e ''greet'' ?j ?d"
    by (simp add: admitted_def with_gates_def new_dispatcher_def register_def registry_get_def greeter_def
        allow_def new_rate_limiter_def new_registry_def)
  have g: "gate_result ?e ''greet'' None ?j ?d [] = GatePaused"
    by (simp add: gate_result_def with_gates_def new_dispatcher_def new_pending_store_def)
  have res: "dr_result ?r = Inl (Paused ''greet'' ''r1'' (describe_pending ''greet'' Map.empty))"
    unfolding dispatch_admitted [OF a] g by (simp add: ps_create_def Let_def the_params_def)
  have st: "consumed (d_pendingStore (dr_dispatcher ?r)) ''r1'' = None"
      "fst (allow 1 ''u/greet'' (d_rateLimiter (dr_dispatcher ?r)))"
    unfolding dispatch_admitted [OF a] g
    by (simp_all add: ps_create_def Let_def after_checks_def with_gates_def new_dispatcher_def allow_def
        new_pending_store_def new_rate_limiter_def ps_consume_resolved_def store_key_def)
  have "0 \<le> de_create ?e + ttl (d_pendingStore ?d)"
    by (simp add: with_gates_def new_dispatcher_def new_pending_store_def)
  from pause_approve_execute [OF res refl this st(1) surjective_pairing, of "?e\<lparr>de_rate := 1\<rparr>"] st(2)
  show ?thesis
    by (auto simp: with_gates_def new_dispatcher_def register_def registry_get_def greeter_def)
qed

end
