(* ===== verification/LLM_Types.thy ===== *)
theory LLM_Types
  imports Go_Prelude
begin

text \<open>
  The types of the language-model interface (\<open>internal/llm/llm.go\<close>). A provider itself is a network
  client, so the agent takes its \<open>Complete\<close> as a parameter.
\<close>

datatype message_role = RoleSystem | RoleUser | RoleAssistant | RoleTool

definition role_text :: "message_role \<Rightarrow> string" where
  "role_text r =
     (case r of
        RoleSystem \<Rightarrow> ''system''
      | RoleUser \<Rightarrow> ''user''
      | RoleAssistant \<Rightarrow> ''assistant''
      | RoleTool \<Rightarrow> ''tool'')"

record function_call =
  fc_Name :: string
  fc_Arguments :: string

record llm_tool_call =
  lc_ID :: string
  lc_Type :: string
  lc_Function :: function_call

record llm_message =
  lm_Role :: message_role
  lm_Content :: string
  lm_ToolCalls :: "llm_tool_call list"
  lm_ToolName :: string
  lm_ToolID :: string

record function_schema =
  fs_Name :: string
  fs_Description :: string
  fs_Parameters :: params

record tool_definition =
  td_Type :: string
  td_Function :: function_schema

record usage =
  u_PromptTokens :: int
  u_CompletionTokens :: int
  u_TotalTokens :: int

record completion_response =
  cr_Content :: string
  cr_ToolCalls :: "llm_tool_call list"
  cr_Usage :: usage
  cr_Model :: string

text \<open>A message with only a role and a content, as most struct literals of the agent are.\<close>

definition plain_message :: "message_role \<Rightarrow> string \<Rightarrow> llm_message" where
  "plain_message r c = \<lparr>lm_Role = r, lm_Content = c, lm_ToolCalls = [], lm_ToolName = [], lm_ToolID = []\<rparr>"

text \<open>\<open>LlmProvider.Complete\<close> over a world: the answer of the model, or the text of an error.\<close>

type_synonym 'w complete_fn =
  "llm_message list \<Rightarrow> tool_definition list \<Rightarrow> 'w \<Rightarrow> (string + completion_response) \<times> 'w"

lemma role_text_inj: "role_text a = role_text b \<longleftrightarrow> a = b"
  by (cases a; cases b) (simp_all add: role_text_def)

end
