(* ===== verification/Session.thy ===== *)
theory Session
  imports LLM_Types Memory_DB
begin

text \<open>
  The session manager of the agent, \<open>internal/agent/session.go\<close>. Threads are shared objects: the
  active thread of a user and the entry in the user's history are the same pointer. The model keeps
  the threads in a store and lets \<open>active\<close> and \<open>history\<close> hold addresses in it. What a user sees is
  specified without addresses, and the manager is shown to implement that specification for every
  user, whatever the other users do in between.
\<close>

section \<open>State and operations\<close>

record turn =
  tn_ID :: string
  tn_UserMsg :: string
  tn_AgentResp :: string
  tn_ToolCalls :: "tool_call list"
  tn_CreatedAt :: instant

record thread =
  th_ID :: string
  th_UserID :: string
  th_Channel :: string
  th_Title :: string
  th_Turns :: "turn list"
  th_CreatedAt :: instant
  th_UpdatedAt :: instant

record pending_execution =
  pe_RequestID :: string
  pe_UserID :: string
  pe_ThreadID :: string
  pe_Messages :: "llm_message list"
  pe_ToolCalls :: "llm_tool_call list"
  pe_NextIndex :: nat
  pe_OriginalContent :: string
  pe_CreatedAt :: instant
  pe_ExpiresAt :: instant

definition pe_is_expired :: "instant \<Rightarrow> pending_execution \<Rightarrow> bool" where
  "pe_is_expired now pe \<longleftrightarrow> now > pe_ExpiresAt pe"

record session_manager =
  sm_threads :: "thread list"
  active :: "string \<rightharpoonup> nat"
  history :: "string \<Rightarrow> nat list"
  pendingExecutions :: "string \<rightharpoonup> pending_execution"

definition new_session_manager :: session_manager where
  "new_session_manager =
     \<lparr>sm_threads = [], active = Map.empty, history = (\<lambda>_. []), pendingExecutions = Map.empty\<rparr>"

definition fresh_thread :: "string \<Rightarrow> instant \<Rightarrow> string \<Rightarrow> string \<Rightarrow> thread" where
  "fresh_thread uuid now userID channel =
     \<lparr>th_ID = uuid, th_UserID = userID, th_Channel = channel, th_Title = utf8 [230, 150, 176, 229, 175, 185, 232, 175, 157],
      th_Turns = [], th_CreatedAt = now, th_UpdatedAt = now\<rparr>"

definition get_or_create_thread ::
  "string \<Rightarrow> instant \<Rightarrow> string \<Rightarrow> string \<Rightarrow> session_manager \<Rightarrow> nat \<times> session_manager" where
  "get_or_create_thread uuid now userID channel sm =
     (case active sm userID of
        Some a \<Rightarrow> (a, sm)
      | None \<Rightarrow>
          (let a = length (sm_threads sm)
           in (a, sm\<lparr>sm_threads := sm_threads sm @ [fresh_thread uuid now userID channel],
                     active := (active sm)(userID \<mapsto> a),
                     history := (history sm)(userID := history sm userID @ [a])\<rparr>)))"

definition get_thread :: "string \<Rightarrow> string \<Rightarrow> session_manager \<Rightarrow> nat option" where
  "get_thread userID threadID sm = find (\<lambda>a. th_ID (sm_threads sm ! a) = threadID) (history sm userID)"

definition complete_turn :: "string \<Rightarrow> instant \<Rightarrow> turn \<Rightarrow> turn" where
  "complete_turn uuid now tn =
     tn\<lparr>tn_ID := (if tn_ID tn = [] then uuid else tn_ID tn),
        tn_CreatedAt := (if is_zero_time (tn_CreatedAt tn) then now else tn_CreatedAt tn)\<rparr>"

definition append_turn :: "string \<Rightarrow> instant \<Rightarrow> turn \<Rightarrow> thread \<Rightarrow> thread" where
  "append_turn uuid now tn th =
     th\<lparr>th_Turns := th_Turns th @ [complete_turn uuid now tn], th_UpdatedAt := now\<rparr>"

definition add_turn :: "string \<Rightarrow> instant \<Rightarrow> string \<Rightarrow> turn \<Rightarrow> session_manager \<Rightarrow> session_manager" where
  "add_turn uuid now userID tn sm =
     (case active sm userID of
        None \<Rightarrow> sm
      | Some a \<Rightarrow>
          sm\<lparr>sm_threads := (sm_threads sm)[a := append_turn uuid now tn (sm_threads sm ! a)]\<rparr>)"

definition get_turns :: "string \<Rightarrow> session_manager \<Rightarrow> turn list" where
  "get_turns userID sm =
     (case active sm userID of None \<Rightarrow> [] | Some a \<Rightarrow> th_Turns (sm_threads sm ! a))"

definition switch_thread :: "string \<Rightarrow> string \<Rightarrow> session_manager \<Rightarrow> bool \<times> session_manager" where
  "switch_thread userID threadID sm =
     (case find (\<lambda>a. th_ID (sm_threads sm ! a) = threadID) (history sm userID) of
        Some a \<Rightarrow> (True, sm\<lparr>active := (active sm)(userID \<mapsto> a)\<rparr>)
      | None \<Rightarrow> (False, sm))"

definition list_threads :: "string \<Rightarrow> session_manager \<Rightarrow> thread list" where
  "list_threads userID sm = map (\<lambda>a. sm_threads sm ! a) (history sm userID)"

text \<open>The slice expression of \<open>CompactThread\<close> panics (\<^const>\<open>None\<close>) for a negative bound.\<close>

definition compact_turns :: "int \<Rightarrow> thread \<Rightarrow> thread option" where
  "compact_turns maxTurns th =
     (if int (length (th_Turns th)) \<le> maxTurns then Some th
      else map_option (\<lambda>ts. th\<lparr>th_Turns := ts\<rparr>)
             (slice (th_Turns th) (int (length (th_Turns th)) - maxTurns) (int (length (th_Turns th)))))"

definition compact_thread :: "string \<Rightarrow> int \<Rightarrow> session_manager \<Rightarrow> session_manager option" where
  "compact_thread userID maxTurns sm =
     (case active sm userID of
        None \<Rightarrow> Some sm
      | Some a \<Rightarrow>
          map_option (\<lambda>th. sm\<lparr>sm_threads := (sm_threads sm)[a := th]\<rparr>)
            (compact_turns maxTurns (sm_threads sm ! a)))"

definition save_pending_execution :: "pending_execution \<Rightarrow> session_manager \<Rightarrow> session_manager" where
  "save_pending_execution pe sm =
     sm\<lparr>pendingExecutions := (pendingExecutions sm)(pe_ThreadID pe \<mapsto> pe)\<rparr>"

definition get_pending_execution ::
  "instant \<Rightarrow> string \<Rightarrow> string \<Rightarrow> session_manager \<Rightarrow> pending_execution option" where
  "get_pending_execution now userID threadID sm =
     (case pendingExecutions sm threadID of
        None \<Rightarrow> None
      | Some pe \<Rightarrow> if pe_is_expired now pe then None else Some pe)"

definition clear_pending_execution :: "string \<Rightarrow> string \<Rightarrow> session_manager \<Rightarrow> session_manager" where
  "clear_pending_execution userID threadID sm =
     sm\<lparr>pendingExecutions := (pendingExecutions sm)(threadID := None)\<rparr>"

interpretation executions: keyed_store "\<lambda>sm t. pendingExecutions sm t"
  "\<lambda>t pe sm. sm\<lparr>pendingExecutions := (pendingExecutions sm)(t \<mapsto> pe)\<rparr>" "clear_pending_execution u"
  by unfold_locales (simp_all add: clear_pending_execution_def)

section \<open>Invariant\<close>

definition session_inv :: "session_manager \<Rightarrow> bool" where
  "session_inv sm \<longleftrightarrow>
     (\<forall>u a. active sm u = Some a \<longrightarrow> a \<in> set (history sm u)) \<and>
     (\<forall>u. distinct (history sm u)) \<and>
     (\<forall>u. \<forall>a \<in> set (history sm u). a < length (sm_threads sm) \<and> th_UserID (sm_threads sm ! a) = u)"

lemma session_invD:
  assumes "session_inv sm"
  shows "active sm u = Some a \<Longrightarrow> a \<in> set (history sm u)" "distinct (history sm u)"
    "a \<in> set (history sm u) \<Longrightarrow> a < length (sm_threads sm)"
    "a \<in> set (history sm u) \<Longrightarrow> th_UserID (sm_threads sm ! a) = u"
  using assms by (auto simp: session_inv_def)

lemma session_inv_new [simp]: "session_inv new_session_manager"
  by (simp add: session_inv_def new_session_manager_def)

lemma owner_unique:
  "session_inv sm \<Longrightarrow> a \<in> set (history sm u) \<Longrightarrow> a \<in> set (history sm u') \<Longrightarrow> u = u'"
  using session_invD(4) by metis

text \<open>Replacing the active thread by one of the same owner keeps the invariant.\<close>

lemma session_inv_update:
  assumes "session_inv sm" and "th_UserID th = th_UserID (sm_threads sm ! a)"
  shows "session_inv (sm\<lparr>sm_threads := (sm_threads sm)[a := th]\<rparr>)"
proof -
  have "th_UserID ((sm_threads sm)[a := th] ! b) = th_UserID (sm_threads sm ! b)" for b
    using assms(2) by (cases "b = a \<and> a < length (sm_threads sm)") (auto simp: nth_list_update list_update_beyond)
  with assms(1) show ?thesis by (simp add: session_inv_def)
qed

section \<open>What a user sees\<close>

text \<open>The threads of a user in the order they were opened, and the position of the current one.\<close>

type_synonym session = "thread list \<times> nat option"

definition pos_of :: "'a \<Rightarrow> 'a list \<Rightarrow> nat" where
  "pos_of a xs = length (takeWhile (\<lambda>b. b \<noteq> a) xs)"

definition session_of :: "session_manager \<Rightarrow> string \<Rightarrow> session" where
  "session_of sm u =
     (map (\<lambda>a. sm_threads sm ! a) (history sm u), map_option (\<lambda>a. pos_of a (history sm u)) (active sm u))"

datatype session_op =
    OpenThread string instant string
  | TakeTurn string instant turn
  | SwitchTo string
  | Compact int

fun spec_op :: "string \<Rightarrow> session_op \<Rightarrow> session \<Rightarrow> session option" where
  "spec_op u (OpenThread uuid now ch) (ts, cur) =
     (case cur of
        Some i \<Rightarrow> Some (ts, cur)
      | None \<Rightarrow> Some (ts @ [fresh_thread uuid now u ch], Some (length ts)))"
| "spec_op u (TakeTurn uuid now tn) (ts, cur) =
     (case cur of
        None \<Rightarrow> Some (ts, cur)
      | Some i \<Rightarrow> Some (ts[i := append_turn uuid now tn (ts ! i)], cur))"
| "spec_op u (SwitchTo i) (ts, cur) =
     (case find (\<lambda>k. th_ID (ts ! k) = i) [0..<length ts] of
        None \<Rightarrow> Some (ts, cur)
      | Some k \<Rightarrow> Some (ts, Some k))"
| "spec_op u (Compact n) (ts, cur) =
     (case cur of
        None \<Rightarrow> Some (ts, cur)
      | Some i \<Rightarrow> map_option (\<lambda>th. (ts[i := th], cur)) (compact_turns n (ts ! i)))"

text \<open>The same operations on the manager.\<close>

fun manager_op :: "string \<Rightarrow> session_op \<Rightarrow> session_manager \<Rightarrow> session_manager option" where
  "manager_op u (OpenThread uuid now ch) sm = Some (snd (get_or_create_thread uuid now u ch sm))"
| "manager_op u (TakeTurn uuid now tn) sm = Some (add_turn uuid now u tn sm)"
| "manager_op u (SwitchTo i) sm = Some (snd (switch_thread u i sm))"
| "manager_op u (Compact n) sm = compact_thread u n sm"

fun manager_ops :: "(string \<times> session_op) list \<Rightarrow> session_manager \<Rightarrow> session_manager option" where
  "manager_ops [] sm = Some sm"
| "manager_ops ((u, op) # ops) sm = Option.bind (manager_op u op sm) (manager_ops ops)"

fun spec_ops :: "string \<Rightarrow> session_op list \<Rightarrow> session \<Rightarrow> session option" where
  "spec_ops u [] s = Some s"
| "spec_ops u (op # ops) s = Option.bind (spec_op u op s) (spec_ops u ops)"

section \<open>Simulation\<close>

lemma pos_of_nth: "a \<in> set xs \<Longrightarrow> pos_of a xs < length xs \<and> xs ! pos_of a xs = a"
  unfolding pos_of_def by (induction xs) auto

lemma pos_of_append: "a \<in> set xs \<Longrightarrow> pos_of a (xs @ ys) = pos_of a xs"
  unfolding pos_of_def by (induction xs) auto

lemma pos_of_fresh: "a \<notin> set xs \<Longrightarrow> pos_of a (xs @ [a]) = length xs"
  unfolding pos_of_def by (induction xs) auto

lemma map_update_member:
  assumes "distinct xs" and "a \<in> set xs" and "a < length ts"
  shows "map (\<lambda>b. ts[a := t] ! b) xs = (map (\<lambda>b. ts ! b) xs)[pos_of a xs := t]"
proof (rule nth_equalityI)
  fix i
  assume "i < length (map (\<lambda>b. ts[a := t] ! b) xs)"
  then have i: "i < length xs" by simp
  then have "xs ! i = a \<longleftrightarrow> i = pos_of a xs"
    using assms pos_of_nth by (metis nth_eq_iff_index_eq)
  with i assms(3) show "map (\<lambda>b. ts[a := t] ! b) xs ! i = (map (\<lambda>b. ts ! b) xs)[pos_of a xs := t] ! i"
    by (auto simp: nth_list_update)
qed simp

lemma map_update_other: "a \<notin> set xs \<Longrightarrow> map (\<lambda>b. ts[a := t] ! b) xs = map (\<lambda>b. ts ! b) xs"
  by (metis map_cong nth_list_update_neq)

lemma find_positions:
  assumes "distinct xs"
  shows "find (\<lambda>k. P (xs ! k)) [0..<length xs] = map_option (\<lambda>a. pos_of a xs) (find P xs)"
  using assms
proof (induction xs rule: rev_induct)
  case (snoc x xs)
  have "find (\<lambda>k. P ((xs @ [x]) ! k)) [0..<length (xs @ [x])] =
      (case find (\<lambda>k. P (xs ! k)) [0..<length xs] of Some k \<Rightarrow> Some k | None \<Rightarrow> if P x then Some (length xs) else None)"
  proof -
    have "find f (ys @ zs) = (case find f ys of Some k \<Rightarrow> Some k | None \<Rightarrow> find f zs)" for f :: "nat \<Rightarrow> bool" and ys zs
      by (induction ys) auto
    moreover have "find (\<lambda>k. P ((xs @ [x]) ! k)) [0..<length xs] = find (\<lambda>k. P (xs ! k)) [0..<length xs]"
      by (rule find_cong) (auto simp: nth_append)
    ultimately show ?thesis by (simp split: option.splits)
  qed
  moreover have "find P (xs @ [x]) = (case find P xs of Some a \<Rightarrow> Some a | None \<Rightarrow> if P x then Some x else None)"
    by (induction xs) auto
  moreover have "pos_of a (xs @ [x]) = pos_of a xs" if "find P xs = Some a" for a
    using that pos_of_append by (metis find_Some_iff nth_mem)
  moreover have "pos_of x (xs @ [x]) = length xs"
    using snoc.prems by (intro pos_of_fresh) simp
  ultimately show ?case
    using snoc by (auto split: option.splits)
qed simp

lemma session_of_update:
  assumes "session_inv sm" and "active sm u = Some a"
  shows "session_of (sm\<lparr>sm_threads := (sm_threads sm)[a := th]\<rparr>) u' =
    (if u' = u then ((fst (session_of sm u))[pos_of a (history sm u) := th], snd (session_of sm u))
     else session_of sm u')"
proof (cases "u' = u")
  case True
  moreover have "a \<in> set (history sm u)" using assms session_invD(1) by blast
  ultimately show ?thesis
    using map_update_member [OF session_invD(2) [OF assms(1)] _ session_invD(3) [OF assms(1)]] assms(2)
    by (simp add: session_of_def)
next
  case False
  then have "a \<notin> set (history sm u')"
    using assms owner_unique session_invD(1) by blast
  with False show ?thesis by (simp add: session_of_def map_update_other)
qed

lemma current_thread:
  assumes "session_inv sm" and "active sm u = Some a"
  shows "fst (session_of sm u) ! pos_of a (history sm u) = sm_threads sm ! a"
  using assms session_invD(1) pos_of_nth by (fastforce simp: session_of_def)

lemma manager_op_simulates:
  assumes inv: "session_inv sm" and op: "manager_op u op sm = Some sm'"
  shows "session_inv sm' \<and> spec_op u op (session_of sm u) = Some (session_of sm' u) \<and>
    (\<forall>u'. u' \<noteq> u \<longrightarrow> session_of sm' u' = session_of sm u')"
proof (cases op)
  case (OpenThread uuid now ch)
  show ?thesis
  proof (cases "active sm u")
    case None
    let ?a = "length (sm_threads sm)"
    have new: "?a \<notin> set (history sm v)" for v
      using inv session_invD(3) by (meson less_irrefl)
    have old: "map (\<lambda>b. (sm_threads sm @ [x]) ! b) (history sm v) = map (\<lambda>b. sm_threads sm ! b) (history sm v)" for v x
      using inv session_invD(3) by (auto simp: nth_append)
    have sm': "sm' = sm\<lparr>sm_threads := sm_threads sm @ [fresh_thread uuid now u ch],
        active := (active sm)(u \<mapsto> ?a), history := (history sm)(u := history sm u @ [?a])\<rparr>"
      using op OpenThread None by (simp add: get_or_create_thread_def Let_def)
    have "session_inv sm'"
      using inv new unfolding session_inv_def sm'
      by (auto simp: nth_append fresh_thread_def less_SucI split: if_splits)
    then show ?thesis
      using OpenThread None old new by (auto simp: sm' session_of_def pos_of_fresh)
  next
    case (Some a)
    then show ?thesis
      using inv op OpenThread by (auto simp: get_or_create_thread_def session_of_def)
  qed
next
  case (TakeTurn uuid now tn)
  show ?thesis
  proof (cases "active sm u")
    case None
    then show ?thesis using inv op TakeTurn by (auto simp: add_turn_def session_of_def)
  next
    case (Some a)
    then have sm': "sm' = sm\<lparr>sm_threads := (sm_threads sm)[a := append_turn uuid now tn (sm_threads sm ! a)]\<rparr>"
      using op TakeTurn by (simp add: add_turn_def)
    then have "session_inv sm'"
      using inv by (simp add: session_inv_update append_turn_def)
    moreover have "snd (session_of sm u) = Some (pos_of a (history sm u))"
      using Some by (simp add: session_of_def)
    ultimately show ?thesis
      using TakeTurn session_of_update [OF inv Some] current_thread [OF inv Some] sm'
      by (cases "session_of sm u") auto
  qed
next
  case (SwitchTo i)
  let ?f = "find (\<lambda>a. th_ID (sm_threads sm ! a) = i) (history sm u)"
  have f: "find (\<lambda>k. th_ID (fst (session_of sm u) ! k) = i) [0..<length (fst (session_of sm u))] =
      map_option (\<lambda>a. pos_of a (history sm u)) ?f"
  proof -
    have "find (\<lambda>k. th_ID (fst (session_of sm u) ! k) = i) [0..<length (fst (session_of sm u))] =
        find (\<lambda>k. th_ID (sm_threads sm ! (history sm u ! k)) = i) [0..<length (history sm u)]"
      by (simp add: session_of_def) (rule find_cong, auto)
    then show ?thesis
      using find_positions [OF session_invD(2) [OF inv], of "\<lambda>a. th_ID (sm_threads sm ! a) = i"] by simp
  qed
  show ?thesis
  proof (cases ?f)
    case None
    then show ?thesis
      using inv op SwitchTo f by (cases "session_of sm u") (auto simp: switch_thread_def)
  next
    case (Some a)
    then have "a \<in> set (history sm u)" by (auto simp: find_Some_iff)
    moreover have sm': "sm' = sm\<lparr>active := (active sm)(u \<mapsto> a)\<rparr>"
      using op SwitchTo Some by (simp add: switch_thread_def)
    ultimately have "session_inv sm'"
      using inv by (auto simp: session_inv_def)
    then show ?thesis
      using SwitchTo f Some by (cases "session_of sm u") (auto simp: sm' session_of_def)
  qed
next
  case (Compact n)
  show ?thesis
  proof (cases "active sm u")
    case None
    then show ?thesis using inv op Compact by (auto simp: compact_thread_def session_of_def)
  next
    case (Some a)
    then obtain th where th: "compact_turns n (sm_threads sm ! a) = Some th"
        and sm': "sm' = sm\<lparr>sm_threads := (sm_threads sm)[a := th]\<rparr>"
      using op Compact by (auto simp: compact_thread_def)
    have "th_UserID th = th_UserID (sm_threads sm ! a)"
      using th by (auto simp: compact_turns_def split: if_splits)
    then have "session_inv sm'"
      using inv sm' by (simp add: session_inv_update)
    moreover have "snd (session_of sm u) = Some (pos_of a (history sm u))"
      using Some by (simp add: session_of_def)
    ultimately show ?thesis
      using Compact th session_of_update [OF inv Some] current_thread [OF inv Some] sm'
      by (cases "session_of sm u") auto
  qed
qed

lemma manager_ops_simulate:
  "session_inv sm \<Longrightarrow> manager_ops ops sm = Some sm' \<Longrightarrow>
     session_inv sm' \<and>
     spec_ops u (map snd (filter (\<lambda>p. fst p = u) ops)) (session_of sm u) = Some (session_of sm' u)"
proof (induction ops arbitrary: sm)
  case (Cons p ops)
  obtain v op where p: "p = (v, op)" by (cases p)
  with Cons.prems(2) obtain sm1 where sm1: "manager_op v op sm = Some sm1" "manager_ops ops sm1 = Some sm'"
    by (auto simp: bind_eq_Some_conv)
  from manager_op_simulates [OF Cons.prems(1) sm1(1)] Cons.IH [OF _ sm1(2)] p show ?case
    by (cases "v = u") auto
qed simp

section \<open>Properties\<close>

text \<open>
  C11: the session manager implements, for every user, the specification of a private list of threads
  with a current one: after any interleaving of the operations of all users, what a user sees is
  what the user's own operations alone produce.
\<close>

theorem sessions_implement_spec:
  assumes "manager_ops ops new_session_manager = Some sm"
  shows "spec_ops u (map snd (filter (\<lambda>p. fst p = u) ops)) ([], None) = Some (session_of sm u)"
  using manager_ops_simulate [OF session_inv_new assms, of u]
  by (simp add: session_of_def new_session_manager_def)

theorem sessions_implement_spec_witness:
  "\<exists>sm. manager_ops [(''u'', OpenThread ''t1'' 1 ''repl''), (''v'', OpenThread ''t2'' 2 ''repl''),
       (''u'', Compact 50)] new_session_manager = Some sm \<and>
     Some (session_of sm ''u'') = Some ([fresh_thread ''t1'' 1 ''u'' ''repl''], Some 0)"
proof -
  let ?ops = "[(''u'', OpenThread ''t1'' 1 ''repl''), (''v'', OpenThread ''t2'' 2 ''repl''), (''u'', Compact 50)]"
  obtain sm where sm: "manager_ops ?ops new_session_manager = Some sm"
    by (simp add: get_or_create_thread_def new_session_manager_def Let_def compact_thread_def
        compact_turns_def fresh_thread_def)
  from sessions_implement_spec [OF sm, of "''u''"] sm show ?thesis
    by (auto simp: compact_turns_def fresh_thread_def)
qed

text \<open>
  Compaction keeps the most recent turns: for a bound that is not negative it never panics, the
  turns that remain are the last \<open>maxTurns\<close> ones in their order, and a shorter thread is not changed.
\<close>

lemma compact_keeps_recent:
  assumes "session_inv sm" and "0 \<le> maxTurns"
  shows "\<exists>sm'. compact_thread u maxTurns sm = Some sm' \<and>
    get_turns u sm' = drop (length (get_turns u sm) - nat maxTurns) (get_turns u sm) \<and>
    length (get_turns u sm') \<le> nat maxTurns"
proof (cases "active sm u")
  case None
  then show ?thesis by (simp add: compact_thread_def get_turns_def)
next
  case (Some a)
  then have a: "a < length (sm_threads sm)"
    using assms(1) session_invD by blast
  let ?ts = "th_Turns (sm_threads sm ! a)"
  show ?thesis
  proof (cases "int (length ?ts) \<le> maxTurns")
    case True
    with Some a show ?thesis
      by (auto simp: compact_thread_def compact_turns_def get_turns_def)
  next
    case False
    then have "slice ?ts (int (length ?ts) - maxTurns) (int (length ?ts)) =
        Some (drop (length ?ts - nat maxTurns) ?ts)"
      using assms(2) slice_from [of "int (length ?ts) - maxTurns" ?ts] by (simp add: nat_diff_distrib)
    with Some a False assms(2) show ?thesis
      by (auto simp: compact_thread_def compact_turns_def get_turns_def)
  qed
qed

theorem compact_keeps_recent_witness:
  "\<exists>sm'. compact_thread ''u'' 50 new_session_manager = Some sm' \<and> get_turns ''u'' sm' = []"
  using compact_keeps_recent [OF session_inv_new, of 50 "''u''"]
  by (auto simp: get_turns_def new_session_manager_def)

text \<open>
  The command that promises a new thread asks for the current one: with an active thread,
  \<open>GetOrCreateThread\<close> returns it and creates nothing.
\<close>

lemma active_thread_returned:
  "active sm u = Some a \<Longrightarrow> get_or_create_thread uuid now u ch sm = (a, sm)"
  by (simp add: get_or_create_thread_def)

end
