(* ===== verification/Router.thy ===== *)
theory Router
  imports Go_Prelude
begin

text \<open>
  The input router of the agent, \<open>internal/agent/router.go\<close>: it classifies a line of input as a
  system command, a direct tool call, a query for the language model or chat.
\<close>

section \<open>Intents\<close>

datatype intent_type = IntentChat | IntentToolCall | IntentSystemCmd | IntentLLMQuery

record intent =
  in_Type :: intent_type
  in_ToolName :: string
  in_ToolParams :: string
  in_Content :: string
  in_Command :: string
  in_Args :: "string list"

definition blank_intent :: "intent_type \<Rightarrow> string \<Rightarrow> intent" where
  "blank_intent t content =
     \<lparr>in_Type = t, in_ToolName = [], in_ToolParams = [], in_Content = content, in_Command = [], in_Args = []\<rparr>"

text \<open>
  \<open>Route\<close>. The index expressions \<open>parts[0]\<close> panic on an empty slice, which is \<^const>\<open>None\<close> here;
  \<open>strings.SplitN\<close> never returns one.
\<close>

definition route :: "string \<Rightarrow> intent option" where
  "route raw =
     (let content = trim_space raw
      in if has_prefix content ''/'' then
           (case str_fields content of
              [] \<Rightarrow> None
            | p # args \<Rightarrow>
                Some ((blank_intent IntentSystemCmd content)\<lparr>in_Command := trim_prefix p ''/'', in_Args := args\<rparr>))
         else if has_prefix content ''tool:'' then
           (let rest = trim_prefix content ''tool:''
            in case split_n2 (CHR '' '') rest of
                 [] \<Rightarrow> None
               | [name] \<Rightarrow> Some ((blank_intent IntentToolCall content)\<lparr>in_ToolName := trim_space name\<rparr>)
               | name # ps # _ \<Rightarrow>
                   Some ((blank_intent IntentToolCall content)\<lparr>in_ToolName := trim_space name,
                      in_ToolParams := trim_space ps\<rparr>))
         else if has_prefix content ''?'' then
           Some (blank_intent IntentLLMQuery (trim_prefix content ''?''))
         else Some (blank_intent IntentChat content))"

section \<open>Lemmas\<close>

lemma fields_from_keeps: "cur \<noteq> [] \<Longrightarrow> \<exists>w ws. fields_from cur s = w # ws \<and> has_prefix w cur"
proof (induction cur s rule: fields_from.induct)
  case (1 cur s)
  show ?case
  proof (cases s)
    case Nil
    with "1.prems" show ?thesis by (subst fields_from.simps) simp
  next
    case (Cons c cs)
    show ?thesis
    proof (cases "space_width space_codes s")
      case None
      from "1.IH"(1) [OF Cons None] obtain w ws where
        w: "fields_from (cur @ [c]) cs = w # ws" "has_prefix w (cur @ [c])" by auto
      then have "has_prefix w cur" by (auto simp: has_prefix_iff)
      with w Cons None show ?thesis by (subst fields_from.simps) simp
    next
      case (Some n)
      with "1.prems" Cons show ?thesis by (subst fields_from.simps) simp
    qed
  qed
qed

lemma slash_not_space: "w \<in> set space_codes \<Longrightarrow> CHR ''/'' \<notin> set w"
  by (auto simp: space_codes_def)

lemma fields_slash: "has_prefix s ''/'' \<Longrightarrow> \<exists>w ws. str_fields s = w # ws \<and> has_prefix w ''/''"
proof -
  assume "has_prefix s ''/''"
  then obtain cs where s: "s = CHR ''/'' # cs" by (auto simp: has_prefix_iff)
  have "space_width space_codes s = None"
    using space_width_append [of space_codes "CHR ''/''" "[]" cs] slash_not_space
    by (simp add: s space_width_def space_codes_def)
  then have "str_fields s = fields_from [CHR ''/''] cs"
    unfolding str_fields_def s by (subst fields_from.simps) simp
  then show ?thesis using fields_from_keeps [of "''/''" cs] by simp
qed

definition plain_bytes :: "string \<Rightarrow> bool" where
  "plain_bytes s \<longleftrightarrow> (\<forall>c \<in> set s. \<forall>w \<in> set space_codes. c \<notin> set w)"

lemma trim_space_edges:
  assumes "\<forall>w \<in> set space_codes. c \<notin> set w" and "\<forall>w \<in> set space_codes. d \<notin> set w"
  shows "trim_space ((c # x) @ [d]) = (c # x) @ [d]"
  unfolding trim_space_def
  using trim_left_stops_at [OF assms(1), of "x @ [d]"] trim_right_stops_at [OF assms(2), of "c # x" "[]"]
  by (simp add: trim_right_def)

lemma trim_space_plain:
  assumes "plain_bytes s"
  shows "trim_space s = s"
proof (cases s rule: rev_cases)
  case Nil
  then show ?thesis by (simp add: trim_space_def trim_left_def trim_right_def)
next
  case (snoc x d)
  show ?thesis
  proof (cases x)
    case Nil
    with assms snoc show ?thesis
      using trim_left_stops_at [of d "[]"] trim_right_stops_at [of d "[]" "[]"]
      by (simp add: plain_bytes_def trim_space_def trim_right_def)
  next
    case (Cons c y)
    with assms snoc show ?thesis
      using trim_space_edges [of c d y] by (simp add: plain_bytes_def)
  qed
qed

section \<open>Properties\<close>

text \<open>
  Routing is total and decided by the first bytes of the trimmed input: a slash makes it a system
  command with a non-empty word list, \<open>tool:\<close> a tool call, a question mark a query, and anything
  else chat; only chat and queries reach the language model.
\<close>

lemma route_total:
  "\<exists>i. route raw = Some i \<and>
     in_Type i =
       (if has_prefix (trim_space raw) ''/'' then IntentSystemCmd
        else if has_prefix (trim_space raw) ''tool:'' then IntentToolCall
        else if has_prefix (trim_space raw) ''?'' then IntentLLMQuery
        else IntentChat) \<and>
     in_Content i =
       (if in_Type i = IntentLLMQuery then drop 1 (trim_space raw) else trim_space raw)"
proof (cases "has_prefix (trim_space raw) ''/''")
  case True
  then obtain w ws where "str_fields (trim_space raw) = w # ws" using fields_slash by blast
  with True show ?thesis by (simp add: route_def Let_def blank_intent_def)
next
  case False
  show ?thesis
  proof (cases "has_prefix (trim_space raw) ''tool:''")
    case True
    obtain a b where "cut (CHR '' '') (trim_prefix (trim_space raw) ''tool:'') = (a, b)"
      by fastforce
    with False True show ?thesis
      by (cases b) (simp_all add: route_def Let_def blank_intent_def split_n2_def)
  next
    case nt: False
    with False show ?thesis
      by (auto simp: route_def Let_def blank_intent_def trim_prefix_def)
  qed
qed

text \<open>
  A tool call line is taken apart into what it was put together from: a name without white space
  and a JSON object come back as the tool name and its parameter text.
\<close>

lemma route_tool_roundtrip:
  assumes "plain_bytes name"
  shows "route (''tool:'' @ name @ '' '' @ ''{'' @ body @ ''}'') =
    Some \<lparr>in_Type = IntentToolCall, in_ToolName = name, in_ToolParams = ''{'' @ body @ ''}'',
      in_Content = ''tool:'' @ name @ '' '' @ ''{'' @ body @ ''}'', in_Command = [], in_Args = []\<rparr>"
proof -
  let ?ps = "''{'' @ body @ ''}''"
  let ?t = "''tool:'' @ name @ '' '' @ ?ps"
  have plain: "\<forall>w \<in> set space_codes. CHR ''t'' \<notin> set w" "\<forall>w \<in> set space_codes. CHR ''{'' \<notin> set w"
    "\<forall>w \<in> set space_codes. CHR ''}'' \<notin> set w"
    by (simp_all add: space_codes_def)
  have t: "trim_space ?t = ?t"
    using trim_space_edges [OF plain(1,3), of "''ool:'' @ name @ '' {'' @ body"] by simp
  have ps: "trim_space ?ps = ?ps"
    using trim_space_edges [OF plain(2,3), of body] by simp
  have "[CHR '' ''] \<in> set space_codes"
    by (simp add: space_codes_def)
  then have "CHR '' '' \<notin> set name"
    using assms by (fastforce simp: plain_bytes_def)
  then have "split_n2 (CHR '' '') (name @ '' '' @ ?ps) = [name, ?ps]"
    by (simp add: split_n2_def cut_append)
  moreover have "trim_prefix ?t ''tool:'' = name @ '' '' @ ?ps"
    by (rule trim_prefix_append)
  ultimately show ?thesis
    unfolding route_def Let_def t using ps trim_space_plain [OF assms] by (simp add: blank_intent_def)
qed

theorem route_tool_roundtrip_witness:
  "map_option in_ToolName (route ''tool:echo {1}'') = Some ''echo''"
  using route_tool_roundtrip [of "''echo''" "''1''"] by (simp add: plain_bytes_def space_codes_def)

end
