(* ===== verification/Skills.thy ===== *)
theory Skills
  imports LLM_Types
begin

text \<open>
  Skills: manifests with their front matter (\<open>internal/skills/manifest.go\<close>), activation
  (\<open>skill.go\<close>), the registry (\<open>registry.go\<close>), the bundled skills (\<open>bundled.go\<close>) and the
  attenuation of the tool list by trust (\<open>attenuation.go\<close>). The TOML decoder is a third-party
  package and a parameter; so are the Unicode case tables (\<open>ucase\<close>) and the verb \<open>%q\<close>.
\<close>

section \<open>Manifests\<close>

text \<open>\<open>TrustLevel\<close> is an integer type with two named values; other values stay possible.\<close>

type_synonym skill_trust = int

definition trust_installed :: skill_trust where "trust_installed = 0"
definition trust_trusted :: skill_trust where "trust_trusted = 1"

definition trust_text :: "skill_trust \<Rightarrow> string" where
  "trust_text t =
     (if t = trust_trusted then ''trusted'' else if t = trust_installed then ''installed'' else ''unknown'')"

datatype skill_source = SourceBundled | SourceUser

definition source_text :: "skill_source \<Rightarrow> string" where
  "source_text s = (case s of SourceBundled \<Rightarrow> ''bundled'' | SourceUser \<Rightarrow> ''user'')"

record activation =
  act_Keywords :: "string list"
  act_ExcludeKeywords :: "string list"
  act_Tags :: "string list"
  act_Patterns :: "string list"

record credential_location =
  cl_Type :: string
  cl_Username :: string
  cl_Name :: string
  cl_Prefix :: string

record credential_spec =
  cs_Name :: string
  cs_Provider :: string
  cs_Location :: credential_location
  cs_Hosts :: "string list"
  cs_PathPatterns :: "string list"

record manifest =
  mf_Name :: string
  mf_Version :: string
  mf_Description :: string
  mf_Activation :: activation
  mf_Credentials :: "credential_spec list"

fun validate_credentials :: "(string \<Rightarrow> string) \<Rightarrow> nat \<Rightarrow> credential_spec list \<Rightarrow> string option" where
  "validate_credentials q i [] = None"
| "validate_credentials q i (c # cs) =
     (if cs_Name c = [] then
        Some (''skill manifest: credential '' @ show_nat i @ '': name is required'')
      else if cs_Provider c = [] then
        Some (''skill manifest: credential '' @ q (cs_Name c) @ '': provider is required'')
      else validate_credentials q (Suc i) cs)"

text \<open>\<open>Validate\<close> fills in a missing version before it looks at the credentials.\<close>

definition validate_manifest :: "(string \<Rightarrow> string) \<Rightarrow> manifest \<Rightarrow> string + manifest" where
  "validate_manifest q m =
     (if mf_Name m = [] then Inl ''skill manifest: name is required''
      else let m' = (if mf_Version m = [] then m\<lparr>mf_Version := ''0.1.0''\<rparr> else m)
           in case validate_credentials q 0 (mf_Credentials m') of
                Some e \<Rightarrow> Inl e
              | None \<Rightarrow> Inr m')"

text \<open>The text between two delimiters, and the text after the second.\<close>

definition delimited :: "string \<Rightarrow> string \<Rightarrow> (string \<times> string) option" where
  "delimited delim content =
     (if has_prefix content delim
      then (case index_of (drop 3 content) delim of
              Some e \<Rightarrow> Some (trim_space (take e (drop 3 content)), trim_space (drop (3 + e + 3) content))
            | None \<Rightarrow> None)
      else None)"

definition extract_frontmatter :: "string \<Rightarrow> string + (string \<times> string)" where
  "extract_frontmatter raw =
     (let content = trim_space raw
      in if content = [] then Inl ''empty content''
         else case delimited ''+++'' content of
           Some r \<Rightarrow> Inr r
         | None \<Rightarrow>
             (case delimited ''---'' content of
                Some r \<Rightarrow> Inr r
              | None \<Rightarrow> Inr ([], content)))"

text \<open>A nil manifest is \<^const>\<open>None\<close>.\<close>

definition parse_manifest ::
  "(string \<Rightarrow> string) \<Rightarrow> (string \<Rightarrow> string + manifest) \<Rightarrow> string \<Rightarrow> string + (manifest option \<times> string)" where
  "parse_manifest q toml content =
     (case extract_frontmatter content of
        Inl e \<Rightarrow> Inl (''extract frontmatter: '' @ e)
      | Inr (frontmatter, body) \<Rightarrow>
          if frontmatter = [] then Inr (None, body)
          else (case toml frontmatter of
                  Inl e \<Rightarrow> Inl (''parse frontmatter: '' @ e)
                | Inr m \<Rightarrow>
                    (case validate_manifest q m of
                       Inl e \<Rightarrow> Inl e
                     | Inr m' \<Rightarrow> Inr (Some m', body))))"

definition parse_manifest_only ::
  "(string \<Rightarrow> string) \<Rightarrow> (string \<Rightarrow> string + manifest) \<Rightarrow> string \<Rightarrow> string + manifest option" where
  "parse_manifest_only q toml content =
     (case parse_manifest q toml content of Inl e \<Rightarrow> Inl e | Inr (m, _) \<Rightarrow> Inr m)"

section \<open>Skills and their registry\<close>

record skill =
  sk_Manifest :: manifest
  sk_Content :: string
  sk_Trust :: skill_trust
  sk_Source :: skill_source

definition skill_name :: "skill \<Rightarrow> string" where
  "skill_name s = mf_Name (sk_Manifest s)"

definition is_trusted :: "skill \<Rightarrow> bool" where
  "is_trusted s \<longleftrightarrow> sk_Trust s = trust_trusted"

definition match_input :: "(string \<Rightarrow> string) \<Rightarrow> skill \<Rightarrow> string \<Rightarrow> bool" where
  "match_input ucase s input =
     (let inputLower = to_lower ucase input;
          act = mf_Activation (sk_Manifest s)
      in if \<exists>kw \<in> set (act_ExcludeKeywords act). contains inputLower (to_lower ucase kw) then False
         else if length (act_Keywords act) > 0
         then (\<exists>kw \<in> set (act_Keywords act). contains inputLower (to_lower ucase kw))
         else True)"

record skill_registry =
  skills :: "string \<rightharpoonup> skill"

definition new_skill_registry :: skill_registry where
  "new_skill_registry = \<lparr>skills = Map.empty\<rparr>"

definition skill_register :: "skill \<Rightarrow> skill_registry \<Rightarrow> skill_registry" where
  "skill_register s r = r\<lparr>skills := (skills r)(skill_name s \<mapsto> s)\<rparr>"

definition skill_get :: "string \<Rightarrow> skill_registry \<Rightarrow> skill option" where
  "skill_get name r = skills r name"

definition skill_list :: "string list \<Rightarrow> skill_registry \<Rightarrow> string list" where
  "skill_list ks r = map fst (range_map ks (skills r))"

definition skill_all :: "string list \<Rightarrow> skill_registry \<Rightarrow> skill list" where
  "skill_all ks r = map snd (range_map ks (skills r))"

definition skill_count :: "skill_registry \<Rightarrow> nat" where
  "skill_count r = map_len (skills r)"

definition skill_remove :: "string \<Rightarrow> skill_registry \<Rightarrow> skill_registry" where
  "skill_remove name r = r\<lparr>skills := (skills r)(name := None)\<rparr>"

definition match_skills :: "(string \<Rightarrow> string) \<Rightarrow> string list \<Rightarrow> string \<Rightarrow> skill_registry \<Rightarrow> skill list" where
  "match_skills ucase ks input r = filter (\<lambda>s. match_input ucase s input) (map snd (range_map ks (skills r)))"

definition lower_trust :: "skill list \<Rightarrow> skill_trust" where
  "lower_trust ss = fold (\<lambda>s m. if sk_Trust s < m then sk_Trust s else m) ss trust_trusted"

definition min_trust :: "string list \<Rightarrow> skill_registry \<Rightarrow> skill_trust" where
  "min_trust ks r =
     (if map_len (skills r) = 0 then trust_trusted else lower_trust (map snd (range_map ks (skills r))))"

fun prompt_loop :: "skill list \<Rightarrow> string \<Rightarrow> string" where
  "prompt_loop [] sb = sb"
| "prompt_loop (s # ss) sb =
     prompt_loop ss
       (sb @ (if length sb > 0 then [CHR 0x0A, CHR 0x0A] @ ''---'' @ [CHR 0x0A, CHR 0x0A] else []) @
        ''# Skill: '' @ skill_name s @ [CHR 0x0A, CHR 0x0A] @ sk_Content s)"

definition build_system_prompt :: "string list \<Rightarrow> skill_registry \<Rightarrow> string" where
  "build_system_prompt ks r = prompt_loop (map snd (range_map ks (skills r))) []"

interpretation skill_store: keyed_store "\<lambda>r k. skill_get k r"
  "\<lambda>k s r. r\<lparr>skills := (skills r)(k \<mapsto> s)\<rparr>" skill_remove
  by unfold_locales (simp_all add: skill_get_def skill_remove_def)

section \<open>Bundled skills\<close>

text \<open>
  A file of the embedded directory: its name, whether it is a directory, and its bytes or the error
  of reading it. \<^const>\<open>None\<close> is the nil dereference of a manifest that \<open>ParseManifest\<close> left nil.
\<close>

type_synonym embed_entry = "string \<times> bool \<times> (string + string)"

text \<open>\<open>strings.TrimSuffix(name, filepath.Ext(name))\<close> of a name that ends in \<open>.md\<close>.\<close>

fun load_entries ::
  "(string \<Rightarrow> string) \<Rightarrow> (string \<Rightarrow> string + manifest) \<Rightarrow> embed_entry list \<Rightarrow> skill list \<Rightarrow> (string + skill list) option" where
  "load_entries q toml [] acc = Some (Inr acc)"
| "load_entries q toml ((name, isDir, content) # es) acc =
     (if isDir \<or> \<not> has_suffix name ''.md'' then load_entries q toml es acc
      else case content of
        Inl e \<Rightarrow> Some (Inl (''read skill file '' @ q name @ '': '' @ e))
      | Inr bytes \<Rightarrow>
          (case parse_manifest q toml bytes of
             Inl _ \<Rightarrow>
               load_entries q toml es (acc @ [\<lparr>sk_Manifest =
                  \<lparr>mf_Name = trim_suffix name ''.md'', mf_Version = ''0.1.0'',
                   mf_Description = ''Bundled skill'',
                   mf_Activation = \<lparr>act_Keywords = [], act_ExcludeKeywords = [], act_Tags = [], act_Patterns = []\<rparr>,
                   mf_Credentials = []\<rparr>,
                  sk_Content = bytes, sk_Trust = trust_trusted, sk_Source = SourceBundled\<rparr>])
           | Inr (None, _) \<Rightarrow> None
           | Inr (Some m, body) \<Rightarrow>
               load_entries q toml es (acc @ [\<lparr>sk_Manifest = m, sk_Content = body,
                  sk_Trust = trust_trusted, sk_Source = SourceBundled\<rparr>])))"

definition load_bundled_skills ::
  "(string \<Rightarrow> string) \<Rightarrow> (string \<Rightarrow> string + manifest) \<Rightarrow> string + embed_entry list \<Rightarrow> (string + skill list) option" where
  "load_bundled_skills q toml dir =
     (case dir of
        Inl e \<Rightarrow> Some (Inl (''read bundled skills dir: '' @ e))
      | Inr entries \<Rightarrow> load_entries q toml entries [])"

section \<open>Attenuation\<close>

definition read_only_tools :: "string list" where
  "read_only_tools =
     [''echo'', ''time'', ''json'', ''memory_read'', ''memory_search'', ''skill_list'', ''skill_search'']"

record attenuation_result =
  at_Tools :: "tool_definition list"
  at_MinTrust :: skill_trust
  at_Explanation :: string
  at_Removed :: "string list"

definition is_read_only :: "tool_definition \<Rightarrow> bool" where
  "is_read_only t \<longleftrightarrow> fs_Name (td_Function t) \<in> set read_only_tools"

definition restrict_tools :: "string \<Rightarrow> tool_definition list \<Rightarrow> skill_trust \<Rightarrow> attenuation_result" where
  "restrict_tools why ts minTrust =
     (let kept = filter is_read_only ts;
          removed = map (\<lambda>t. fs_Name (td_Function t)) (filter (\<lambda>t. \<not> is_read_only t) ts)
      in \<lparr>at_Tools = kept, at_MinTrust = minTrust,
          at_Explanation = why @ '': restricted to read-only tools, removed '' @
            show_nat (length removed) @ '' tool(s): ['' @ join '' '' removed @ '']'',
          at_Removed = removed\<rparr>)"

definition attenuate_tools :: "tool_definition list \<Rightarrow> skill list \<Rightarrow> attenuation_result" where
  "attenuate_tools ts activeSkills =
     (if length activeSkills = 0 then
        \<lparr>at_Tools = ts, at_MinTrust = trust_trusted,
         at_Explanation = ''No skills active, all tools available'', at_Removed = []\<rparr>
      else let minTrust = lower_trust activeSkills
        in if minTrust = trust_trusted then
             \<lparr>at_Tools = ts, at_MinTrust = minTrust,
              at_Explanation = ''All active skills are trusted (full trust), all tools available'',
              at_Removed = []\<rparr>
           else if minTrust = trust_installed then
             restrict_tools ''Installed skill present'' ts minTrust
           else restrict_tools ''Unknown trust level'' ts minTrust)"

section \<open>Lemmas\<close>

lemma lower_trust_fold:
  "fold (\<lambda>s m. if sk_Trust s < m then sk_Trust s else m) ss b = Min (insert b (sk_Trust ` set ss))"
proof (induction ss arbitrary: b)
  case (Cons s ss)
  have "Min (insert b (insert (sk_Trust s) (sk_Trust ` set ss))) =
      Min (insert (min b (sk_Trust s)) (sk_Trust ` set ss))"
    by (cases "ss = []") (auto simp: min_def)
  with Cons show ?case by (auto simp: min_def)
qed simp

lemma lower_trust_eq_trusted: "lower_trust ss = trust_trusted \<longleftrightarrow> (\<forall>s \<in> set ss. trust_trusted \<le> sk_Trust s)"
  unfolding lower_trust_def lower_trust_fold
  by (subst Min_eq_iff) (auto simp: order.antisym)

text \<open>The lowest trust does not depend on the order in which the registry is visited.\<close>

lemma min_trust_order:
  assumes "range_order ks (skills r)" and "range_order ks' (skills r)"
  shows "min_trust ks r = min_trust ks' r"
proof -
  have "set (map snd (range_map ks (skills r))) = set (map snd (range_map ks' (skills r)))"
    using set_range_map [OF assms(1)] set_range_map [OF assms(2)] by simp
  then show ?thesis
    by (simp add: min_trust_def lower_trust_def lower_trust_fold)
qed

lemma validate_credentials_ok:
  "validate_credentials q i cs = None \<Longrightarrow> c \<in> set cs \<Longrightarrow> cs_Name c \<noteq> [] \<and> cs_Provider c \<noteq> []"
  by (induction q i cs rule: validate_credentials.induct) (auto split: if_splits)

lemma validate_manifest_ok:
  "validate_manifest q m = Inr m' \<Longrightarrow>
     mf_Name m' \<noteq> [] \<and> mf_Version m' \<noteq> [] \<and>
     (\<forall>c \<in> set (mf_Credentials m'). cs_Name c \<noteq> [] \<and> cs_Provider c \<noteq> [])"
  by (auto simp: validate_manifest_def Let_def split: if_splits option.splits dest: validate_credentials_ok)

lemma delimiter_not_space: "c = CHR ''+'' \<or> c = CHR ''-'' \<Longrightarrow> w \<in> set space_codes \<Longrightarrow> c \<notin> set w"
  by (auto simp: space_codes_def)

lemma attenuation_tools_restricted:
  assumes "s \<in> set active" and "sk_Trust s < trust_trusted"
  shows "at_Tools (attenuate_tools ts active) = filter (\<lambda>t. fs_Name (td_Function t) \<in> set read_only_tools) ts"
proof -
  have "active \<noteq> []" "lower_trust active \<noteq> trust_trusted"
    using assms by (auto simp: lower_trust_eq_trusted not_le)
  then show ?thesis
    by (auto simp: attenuate_tools_def restrict_tools_def Let_def is_read_only_def [abs_def])
qed

section \<open>Properties\<close>

text \<open>
  Attenuation is a boundary: when an active skill is less than trusted, only read-only tools
  are offered, each offered before and in the same order, and every other tool is reported as
  removed; when all active skills are trusted, or none is active, the tools are offered unchanged.
\<close>

lemma attenuation_boundary:
  "at_Tools (attenuate_tools ts active) =
     (if \<forall>s \<in> set active. trust_trusted \<le> sk_Trust s then ts
      else filter (\<lambda>t. fs_Name (td_Function t) \<in> set read_only_tools) ts) \<and>
   at_Removed (attenuate_tools ts active) =
     (if \<forall>s \<in> set active. trust_trusted \<le> sk_Trust s then []
      else map (\<lambda>t. fs_Name (td_Function t))
             (filter (\<lambda>t. fs_Name (td_Function t) \<notin> set read_only_tools) ts))"
proof (cases "active = []")
  case True
  then show ?thesis by (simp add: attenuate_tools_def)
next
  case False
  then show ?thesis
    by (auto simp: attenuate_tools_def lower_trust_eq_trusted [symmetric] restrict_tools_def Let_def
        is_read_only_def [abs_def])
qed

theorem attenuation_boundary_witness:
  "at_Removed (attenuate_tools
     [\<lparr>td_Type = ''function'', td_Function = \<lparr>fs_Name = ''shell'', fs_Description = [], fs_Parameters = Map.empty\<rparr>\<rparr>]
     [\<lparr>sk_Manifest = \<lparr>mf_Name = ''s'', mf_Version = ''1'', mf_Description = [],
         mf_Activation = \<lparr>act_Keywords = [], act_ExcludeKeywords = [], act_Tags = [], act_Patterns = []\<rparr>,
         mf_Credentials = []\<rparr>, sk_Content = [], sk_Trust = trust_installed, sk_Source = SourceUser\<rparr>]) =
   [''shell'']"
  by (simp add: attenuation_boundary trust_installed_def trust_trusted_def read_only_tools_def)

text \<open>
  Front matter is found where it is written: a header between two \<open>+++\<close> or two \<open>---\<close> lines and the
  text after them come back trimmed, provided the delimiter does not occur in the header.
\<close>

lemma frontmatter_roundtrip:
  assumes "c = CHR ''+'' \<or> c = CHR ''-''" and "\<not> contains (h @ [c, c]) [c, c, c]" and "trim_right b = b"
  shows "extract_frontmatter ([c, c, c] @ h @ [c, c, c] @ b) = Inr (trim_space h, trim_space b)"
proof -
  let ?t = "[c, c, c] @ h @ [c, c, c] @ b"
  have ns: "\<forall>w \<in> set space_codes. c \<notin> set w"
    using delimiter_not_space assms(1) by blast
  have "trim_left ?t = ?t"
    using trim_left_stops_at [OF ns] by simp
  moreover have "trim_right ?t = ?t"
    using trim_right_stops_at [OF ns, of "[c, c, c] @ h @ [c, c]" b] assms(3) by simp
  ultimately have t: "trim_space ?t = ?t"
    by (simp add: trim_space_def)
  have "index_of (h @ [c, c, c] @ b) [c, c, c] = Some (length h)"
    using index_of_first [of "[c, c, c]" h b] assms(2) by simp
  moreover have "drop (3 + length h + 3) ?t = b"
  proof -
    have "?t = ([c, c, c] @ h @ [c, c, c]) @ b" "length ([c, c, c] @ h @ [c, c, c]) = 3 + length h + 3"
      by simp_all
    then show ?thesis by (metis append_eq_conv_conj)
  qed
  ultimately have d: "delimited [c, c, c] ?t = Some (trim_space h, trim_space b)"
    by (simp add: delimited_def del: drop_append)
  have nf: "delimited ''+++'' ?t = None" if "c = CHR ''-''"
    using that by (simp add: delimited_def)
  have e: "extract_frontmatter ?t =
      (case delimited ''+++'' ?t of
         Some r \<Rightarrow> Inr r
       | None \<Rightarrow> (case delimited ''---'' ?t of Some r \<Rightarrow> Inr r | None \<Rightarrow> Inr ([], ?t)))"
    unfolding extract_frontmatter_def Let_def t by simp
  from assms(1) show ?thesis
  proof
    assume "c = CHR ''+''"
    with d e show ?thesis by simp
  next
    assume "c = CHR ''-''"
    with d e nf show ?thesis by simp
  qed
qed

theorem frontmatter_roundtrip_witness:
  "extract_frontmatter (''+++'' @ [CHR 0x0A] @ ''name'' @ [CHR 0x0A] @ ''+++'' @ [CHR 0x0A] @ ''body'') =
     Inr (''name'', ''body'')"
proof -
  let ?h = "[CHR 0x0A] @ ''name'' @ [CHR 0x0A]"
  have "\<not> contains (?h @ ''++'') ''+++''" "trim_right ([CHR 0x0A] @ ''body'') = [CHR 0x0A] @ ''body''"
    "trim_space ?h = ''name''" "trim_space ([CHR 0x0A] @ ''body'') = ''body''"
    by code_simp+
  then show ?thesis
    using frontmatter_roundtrip [of "CHR ''+''" ?h "[CHR 0x0A] @ ''body''"] by simp
qed

text \<open>
  A manifest that \<open>ParseManifest\<close> accepts is complete, whatever the TOML decoder delivers: it has
  a name and a version, and every credential has a name and a provider.
\<close>

lemma parsed_manifest_complete:
  assumes "parse_manifest q toml content = Inr (Some m, body)"
  shows "mf_Name m \<noteq> [] \<and> mf_Version m \<noteq> [] \<and>
    (\<forall>c \<in> set (mf_Credentials m). cs_Name c \<noteq> [] \<and> cs_Provider c \<noteq> [])"
  using assms
  by (auto simp: parse_manifest_def split: sum.splits prod.splits if_splits dest: validate_manifest_ok)

theorem parsed_manifest_complete_witness:
  "mf_Version \<lparr>mf_Name = ''demo'', mf_Version = ''0.1.0'', mf_Description = [],
     mf_Activation = \<lparr>act_Keywords = [], act_ExcludeKeywords = [], act_Tags = [], act_Patterns = []\<rparr>,
     mf_Credentials = []\<rparr> \<noteq> []"
proof -
  let ?m = "\<lparr>mf_Name = ''demo'', mf_Version = [], mf_Description = [],
     mf_Activation = \<lparr>act_Keywords = [], act_ExcludeKeywords = [], act_Tags = [], act_Patterns = []\<rparr>,
     mf_Credentials = []\<rparr>"
  have "extract_frontmatter ''+++x+++y'' = Inr (''x'', ''y'')"
    by code_simp
  then have "parse_manifest id (\<lambda>_. Inr ?m) ''+++x+++y'' = Inr (Some (?m\<lparr>mf_Version := ''0.1.0''\<rparr>), ''y'')"
    by (simp add: parse_manifest_def validate_manifest_def Let_def)
  from parsed_manifest_complete [OF this] show ?thesis by simp
qed

text \<open>
  A bundled skill file that has text but no front matter is not given its file name: \<open>ParseManifest\<close>
  reports no error for it and leaves the manifest nil, which is then dereferenced.
\<close>

lemma bundled_without_frontmatter_panics:
  "load_bundled_skills q toml (Inr [(''notes.md'', False, Inr ''hello'')]) = None"
proof -
  have "extract_frontmatter ''hello'' = Inr ([], ''hello'')"
    by code_simp
  then show ?thesis
    by (simp add: load_bundled_skills_def parse_manifest_def has_suffix_def)
qed

end
