(* ===== verification/Hooks.thy ===== *)
theory Hooks
  imports Go_Prelude
begin

text \<open>
  The hook registry of \<open>internal/hooks/hooks.go\<close>. A handler is a function supplied by the host; it
  may act on a world \<open>'w\<close> and may return an error, which stops the remaining handlers.
\<close>

section \<open>Types and operations\<close>

datatype hook_event_type =
    EventBeforeMessage
  | EventAfterMessage
  | EventBeforeToolCall
  | EventAfterToolCall
  | EventBeforeResponse

definition hook_event_text :: "hook_event_type \<Rightarrow> string" where
  "hook_event_text t =
     (case t of
        EventBeforeMessage \<Rightarrow> ''before:message''
      | EventAfterMessage \<Rightarrow> ''after:message''
      | EventBeforeToolCall \<Rightarrow> ''before:tool_call''
      | EventAfterToolCall \<Rightarrow> ''after:tool_call''
      | EventBeforeResponse \<Rightarrow> ''before:response'')"

record hook_event =
  he_Type :: hook_event_type
  he_UserID :: string
  he_Channel :: string
  he_Data :: params

type_synonym 'w handler = "hook_event \<Rightarrow> 'w \<Rightarrow> string option \<times> 'w"

record 'w hook_registry =
  handlers :: "hook_event_type \<Rightarrow> 'w handler list"

definition new_hook_registry :: "'w hook_registry" where
  "new_hook_registry = \<lparr>handlers = (\<lambda>_. [])\<rparr>"

definition hook_register :: "hook_event_type \<Rightarrow> 'w handler \<Rightarrow> 'w hook_registry \<Rightarrow> 'w hook_registry" where
  "hook_register t h r = r\<lparr>handlers := (handlers r)(t := handlers r t @ [h])\<rparr>"

fun trigger_loop :: "'w handler list \<Rightarrow> hook_event \<Rightarrow> 'w \<Rightarrow> string option \<times> 'w" where
  "trigger_loop [] ev w = (None, w)"
| "trigger_loop (h # hs) ev w =
     (case h ev w of
        (Some e, w') \<Rightarrow> (Some (''hook '' @ hook_event_text (he_Type ev) @ '': '' @ e), w')
      | (None, w') \<Rightarrow> trigger_loop hs ev w')"

definition trigger :: "'w hook_registry \<Rightarrow> hook_event \<Rightarrow> 'w \<Rightarrow> string option \<times> 'w" where
  "trigger r ev w = trigger_loop (handlers r (he_Type ev)) ev w"

definition has_handlers :: "hook_event_type \<Rightarrow> 'w hook_registry \<Rightarrow> bool" where
  "has_handlers t r \<longleftrightarrow> length (handlers r t) > 0"

section \<open>Lemmas\<close>

lemma trigger_no_handlers [simp]: "handlers r (he_Type ev) = [] \<Longrightarrow> trigger r ev w = (None, w)"
  by (simp add: trigger_def)

text \<open>
  The handlers before the first failing one have run, in the order of registration, and no other.
\<close>

definition all_ok :: "'w handler list \<Rightarrow> hook_event \<Rightarrow> 'w \<Rightarrow> 'w \<Rightarrow> bool" where
  "all_ok hs ev w w' \<longleftrightarrow> trigger_loop hs ev w = (None, w')"

lemma trigger_loop_append:
  "trigger_loop (hs @ hs') ev w =
     (case trigger_loop hs ev w of (Some e, w') \<Rightarrow> (Some e, w') | (None, w') \<Rightarrow> trigger_loop hs' ev w')"
  by (induction hs arbitrary: w) (auto split: prod.splits option.splits)

lemma trigger_loop_error:
  "trigger_loop hs ev w = (Some e, w') \<Longrightarrow>
     \<exists>pre h post msg u. hs = pre @ h # post \<and> all_ok pre ev w u \<and> h ev u = (Some msg, w') \<and>
       e = ''hook '' @ hook_event_text (he_Type ev) @ '': '' @ msg"
proof (induction hs arbitrary: w)
  case (Cons h hs)
  obtain r v where h: "h ev w = (r, v)" by fastforce
  show ?case
  proof (cases r)
    case None
    with h Cons.prems have "trigger_loop hs ev v = (Some e, w')" by simp
    from Cons.IH [OF this] obtain pre g post msg u where
      "hs = pre @ g # post" "all_ok pre ev v u" "g ev u = (Some msg, w')"
      "e = ''hook '' @ hook_event_text (he_Type ev) @ '': '' @ msg" by blast
    moreover from this(2) h None have "all_ok (h # pre) ev w u" by (simp add: all_ok_def)
    ultimately show ?thesis by (metis append_Cons)
  next
    case (Some msg)
    with h Cons.prems show ?thesis
      by (intro exI [of _ "[]"] exI [of _ h] exI [of _ hs] exI [of _ msg] exI [of _ w])
        (simp add: all_ok_def)
  qed
qed simp

section \<open>Properties\<close>

text \<open>
  A handler registered last runs after all others of its event and only when none of them
  failed; handlers of other events are not affected by the registration.
\<close>

lemma trigger_after_register:
  "trigger (hook_register t h r) ev w =
     (if he_Type ev = t
      then (case trigger r ev w of
              (Some e, w') \<Rightarrow> (Some e, w')
            | (None, w') \<Rightarrow>
                (case h ev w' of
                   (Some e, w'') \<Rightarrow> (Some (''hook '' @ hook_event_text t @ '': '' @ e), w'')
                 | (None, w'') \<Rightarrow> (None, w'')))
      else trigger r ev w)"
  by (auto simp: trigger_def hook_register_def trigger_loop_append split: prod.splits option.splits)

end
