(* ===== verification/Agent.thy ===== *)
theory Agent
  imports Tools Session Router Skills Hooks
begin

text \<open>
  The reasoning and acting loop: \<open>internal/agent/agent.go\<close> with its dependencies
    \<open>deps.go\<close>. The
  language model, the JSON decoder and the quoting verb of \<open>fmt\<close> are fields of the
    dependencies; the
  pending store is the dispatcher's own, as the application wires it. Handlers thread an explicit
  state; \<^const>\<open>None\<close> stands for a panic. Clock readings, identifiers and map orders
    that a handler
  draws from outside are in its environment.
\<close>

section \<open>Dependencies and state\<close>

record 'w deps =
  dp_Name :: string
  dp_LLM :: "'w complete_fn option"
  dp_Tools :: "'w registry option"
  dp_Hooks :: "'w hook_registry option"
  dp_Skills :: "skill_registry option"
  dp_Document :: "(incoming_message \<Rightarrow> incoming_message) option"
  dp_SaveConversation :: "(instant \<Rightarrow> conversation \<Rightarrow> 'w \<Rightarrow> string
    option \<times> 'w) option"
  dp_publishes :: bool
  dp_unmarshal :: "string \<Rightarrow> string + nil_params"
  dp_quote :: "string \<Rightarrow> string"

record 'w state =
  st_disp :: "'w dispatcher"
  st_session :: session_manager
  st_world :: 'w
  st_events :: "event list"
  st_audits :: "audit_call list"

record agent_env =
  ae_now :: instant
  ae_uuid :: "nat \<Rightarrow> string"
  ae_dispatch :: "nat \<Rightarrow> dispatch_env"
  ae_tools :: "string list"
  ae_prompt :: "string list"
  ae_skills :: "string list"

definition response :: "string \<Rightarrow> outgoing_response" where
  "response c = \<lparr>or_Content = c, or_ThreadID = [], or_Status = []\<rparr>"

definition pending_response :: "string \<Rightarrow> outgoing_response" where
  "pending_response t = \<lparr>or_Content = [], or_ThreadID = t, or_Status = ''pending_gate''\<rparr>"

definition publish_event ::
  "'w deps \<Rightarrow> string \<Rightarrow> string \<Rightarrow> event_type \<Rightarrow> string
    \<Rightarrow> params \<Rightarrow> 'w state \<Rightarrow> 'w state" where
  "publish_event dp userID threadID evType payload meta st =
     (if dp_publishes dp
      then st\<lparr>st_events := st_events st @ [\<lparr>ev_Type = evType, ev_UserID = userID,
        ev_ThreadID = threadID,
                ev_Payload = payload, ev_Meta = meta\<rparr>]\<rparr>
      else st)"

text \<open>A call of \<open>Dispatcher.Dispatch\<close> from the agent.\<close>

definition call_tool ::
  "dispatch_env \<Rightarrow> string \<Rightarrow> nil_params \<Rightarrow> string \<Rightarrow>
    string \<Rightarrow> 'w state \<Rightarrow>
     ((dispatch_error + tool_output) \<times> 'w state) option" where
  "call_tool env name ps userID threadID st =
     (let r = dispatch env name ps \<lparr>jc_UserID = userID, jc_JobID = [], jc_ThreadID = threadID\<rparr>
                (st_disp st) (st_world st);
          st' = st\<lparr>st_disp := dr_dispatcher r, st_world := dr_world r,
                   st_events := st_events st @ dr_events r, st_audits := st_audits st @ dr_audits r\<rparr>
      in if dr_result r = Inl SanitizerPanic then None else Some (dr_result r, st'))"

definition output_of :: "dispatch_error + tool_output \<Rightarrow> tool_output" where
  "output_of r = (case r of Inr out \<Rightarrow> out | Inl _ \<Rightarrow> empty_output)"

definition fire :: "'w deps \<Rightarrow> hook_event \<Rightarrow> 'w state \<Rightarrow> string
  option \<times> 'w state" where
  "fire dp ev st =
     (case dp_Hooks dp of
        None \<Rightarrow> (None, st)
      | Some hs \<Rightarrow> (let (e, w) = trigger hs ev (st_world st) in (e, st\<lparr>st_world :=
        w\<rparr>)))"

definition session_turn :: "agent_env \<Rightarrow> nat \<Rightarrow> string \<Rightarrow> string
  \<Rightarrow> string \<Rightarrow> 'w state \<Rightarrow> 'w state" where
  "session_turn env k userID userMsg agentResp st =
     st\<lparr>st_session := add_turn (ae_uuid env k) (ae_now env) userID
          \<lparr>tn_ID = [], tn_UserMsg = userMsg, tn_AgentResp = agentResp, tn_ToolCalls = [],
            tn_CreatedAt = 0\<rparr>
          (st_session st)\<rparr>"

definition open_thread :: "agent_env \<Rightarrow> string \<Rightarrow> 'w state \<Rightarrow> nat
  \<times> 'w state" where
  "open_thread env userID st =
     (let (a, sm) = get_or_create_thread (ae_uuid env 0) (ae_now env) userID ''repl'' (st_session st)
      in (a, st\<lparr>st_session := sm\<rparr>))"

definition thread_at :: "nat \<Rightarrow> 'w state \<Rightarrow> thread" where
  "thread_at a st = sm_threads (st_session st) ! a"

section \<open>Messages and tools for the model\<close>

definition system_text :: "'w deps \<Rightarrow> string list \<Rightarrow> string" where
  "system_text dp ks =
     (let base = (utf8 [228, 189, 160, 230, 152, 175] @ '' '') @ dp_Name dp @ (utf8 [239, 188, 140,
       228, 184, 128, 228, 184, 170, 229, 174, 137, 229, 133, 168, 231, 154, 132, 228, 184, 170,
       228, 186, 186] @ '' AI '' @ utf8 [229, 138, 169, 230, 137, 139, 227, 128, 130]);
          prompt = (case dp_Skills dp of None \<Rightarrow> [] | Some sk \<Rightarrow>
            build_system_prompt ks sk);
          withSkills = (if prompt \<noteq> [] then base @ [CHR 0x0A, CHR 0x0A] @ prompt else base)
      in withSkills @ [CHR 0x0A, CHR 0x0A] @
         (utf8 [228, 189, 160, 230, 156, 137, 229, 164, 154, 228, 184, 170, 229, 143, 175, 231, 148,
           168, 229, 183, 165, 229, 133, 183, 239, 188, 136] @ ''functions'' @ utf8 [239, 188, 137,
           227, 128, 130, 229, 189, 147, 231, 148, 168, 230, 136, 183, 232, 166, 129, 230, 177, 130,
           228, 189, 160, 230, 137, 167, 232, 161, 140, 230, 150, 135, 228, 187, 182, 230, 147, 141,
           228, 189, 156, 227, 128, 129, 230, 137, 167, 232, 161, 140, 229, 145, 189, 228, 187, 164,
           230, 136, 150, 232, 176, 131, 231, 148, 168, 229, 164, 150, 233, 131, 168, 229, 183, 165,
           229, 133, 183, 230, 151, 182, 239, 188, 140, 228, 189, 160, 229, 191, 133, 233, 161, 187,
           229, 156, 168] @ '' assistant '' @ utf8 [230, 182, 136, 230, 129, 175, 228, 184, 173,
           232, 190, 147, 229, 135, 186] @ '' tool_calls '' @ utf8 [229, 173, 151, 230, 174, 181,
           230, 157, 165, 232, 176, 131, 231, 148, 168, 229, 183, 165, 229, 133, 183, 239, 188, 140,
           228, 184, 165, 231, 166, 129, 229, 156, 168] @ '' content '' @ utf8 [228, 184, 173, 231,
           155, 180, 230, 142, 165, 229, 163, 176, 231, 167, 176, 229, 183, 178, 230, 137, 167, 232,
           161, 140, 227, 128, 130, 229, 143, 170, 230, 156, 137, 231, 173, 137, 229, 183, 165, 229,
           133, 183, 232, 191, 148, 229, 155, 158, 231, 187, 147, 230, 158, 156, 229, 144, 142, 239,
           188, 140, 228, 189, 160, 230, 137, 141, 232, 131, 189, 229, 159, 186, 228, 186, 142, 231,
           187, 147, 230, 158, 156, 229, 155, 158, 229, 164, 141, 231, 148, 168, 230, 136, 183, 227,
           128, 130]))"

definition turn_messages :: "turn \<Rightarrow> llm_message list" where
  "turn_messages tn =
     plain_message RoleUser (tn_UserMsg tn) #
     (if tn_AgentResp tn \<noteq> [] then [plain_message RoleAssistant (tn_AgentResp tn)] else [])"

definition build_llm_messages :: "'w deps \<Rightarrow> agent_env \<Rightarrow> string \<Rightarrow>
  string \<Rightarrow> 'w state \<Rightarrow> llm_message list" where
  "build_llm_messages dp env userID currentContent st =
     [plain_message RoleSystem (system_text dp (ae_prompt env))] @
     concat (map turn_messages (get_turns userID (st_session st))) @
     [plain_message RoleUser currentContent]"

definition tool_def :: "'w tool \<Rightarrow> tool_definition" where
  "tool_def t =
     \<lparr>td_Type = ''function'',
      td_Function = \<lparr>fs_Name = t_Name t, fs_Description = t_Description t, fs_Parameters =
        t_ParameterSchema t\<rparr>\<rparr>"

definition build_llm_tools :: "'w deps \<Rightarrow> agent_env \<Rightarrow> tool_definition list" where
  "build_llm_tools dp env =
     (case dp_Tools dp of
        None \<Rightarrow> []
      | Some reg \<Rightarrow>
          (let names = registry_list (ae_tools env) reg;
               defs = map tool_def (List.map_filter (\<lambda>n. registry_get n reg) names)
           in case dp_Skills dp of
                None \<Rightarrow> defs
              | Some sk \<Rightarrow> at_Tools (attenuate_tools defs (skill_all (ae_skills env) sk))))"

section \<open>Tool calls of the model\<close>

definition parse_arguments :: "'w deps \<Rightarrow> string \<Rightarrow> nil_params" where
  "parse_arguments dp s =
     (case dp_unmarshal dp s of Inr m \<Rightarrow> m | Inl _ \<Rightarrow> Some [''message''
       \<mapsto> JStr s])"

definition tool_message :: "llm_tool_call \<Rightarrow> string \<Rightarrow> llm_message" where
  "tool_message call content =
     \<lparr>lm_Role = RoleTool, lm_Content = content, lm_ToolCalls = [],
      lm_ToolName = fc_Name (lc_Function call), lm_ToolID = lc_ID call\<rparr>"

definition error_content :: "'w deps \<Rightarrow> dispatch_error \<Rightarrow> string" where
  "error_content dp e = (utf8 [233, 148, 153, 232, 175, 175] @ '': '') @ dispatch_error_text (dp_quote dp) e"

definition announce_call :: "'w deps \<Rightarrow> string \<Rightarrow> string \<Rightarrow> string
  \<Rightarrow> 'w state \<Rightarrow> 'w state" where
  "announce_call dp userID threadID name st =
     publish_event dp userID threadID EventToolCall (''Executing tool: '' @ name)
       [''tool_name'' \<mapsto> JStr name] st"

definition announce_result ::
  "'w deps \<Rightarrow> string \<Rightarrow> string \<Rightarrow> string \<Rightarrow>
    dispatch_error + tool_output \<Rightarrow> 'w state \<Rightarrow> 'w state" where
  "announce_result dp userID threadID name r st =
     (let status = (if isl r then ''error'' else ''success''); dur = to_Duration (output_of r)
      in publish_event dp userID threadID EventToolResult
           (''Tool '' @ name @ '' '' @ status @ '' ('' @ show_int dur @ '' ms)'')
           [''tool_name'' \<mapsto> JStr name, ''status'' \<mapsto> JStr status, ''duration_ms''
             \<mapsto> JNum (of_int dur)] st)"

datatype loop_end = LoopDone "llm_message list" | LoopPaused nat

text \<open>The loop of \<open>handleLLMToolCalls\<close> over the calls from index \<open>i\<close>
  on.\<close>

fun tool_loop ::
  "'w deps \<Rightarrow> (nat \<Rightarrow> dispatch_env) \<Rightarrow> string \<Rightarrow> string
    \<Rightarrow> nat \<Rightarrow> llm_tool_call list \<Rightarrow> llm_message list \<Rightarrow>
     'w state \<Rightarrow> (loop_end \<times> 'w state) option" where
  "tool_loop dp denv userID threadID i [] results st = Some (LoopDone results, st)"
| "tool_loop dp denv userID threadID i (call # calls) results st =
     (let name = fc_Name (lc_Function call);
          ps = parse_arguments dp (fc_Arguments (lc_Function call))
      in case call_tool (denv i) name ps userID threadID (announce_call dp userID threadID name st) of
           None \<Rightarrow> None
         | Some (r, st1) \<Rightarrow>
             (let st2 = announce_result dp userID threadID name r st1
              in case r of
                   Inl e \<Rightarrow>
                     if is_pause_error e
                     then Some (LoopPaused i,
                            publish_event dp userID threadID EventGatePending
                              (''Waiting for approval: '' @ name) [''tool_name'' \<mapsto> JStr name] st2)
                     else tool_loop dp denv userID threadID (Suc i) calls
                            (results @ [tool_message call (error_content dp e)]) st2
                 | Inr out \<Rightarrow>
                     tool_loop dp denv userID threadID (Suc i) calls
                       (results @ [tool_message call (to_Content out)]) st2))"

text \<open>The loop of \<open>Resume\<close>, which publishes nothing.\<close>

fun resume_loop ::
  "'w deps \<Rightarrow> (nat \<Rightarrow> dispatch_env) \<Rightarrow> string \<Rightarrow> string
    \<Rightarrow> nat \<Rightarrow> llm_tool_call list \<Rightarrow> llm_message list \<Rightarrow>
     'w state \<Rightarrow> (loop_end \<times> 'w state) option" where
  "resume_loop dp denv userID threadID i [] results st = Some (LoopDone results, st)"
| "resume_loop dp denv userID threadID i (call # calls) results st =
     (let name = fc_Name (lc_Function call);
          ps = parse_arguments dp (fc_Arguments (lc_Function call))
      in case call_tool (denv i) name ps userID threadID st of
           None \<Rightarrow> None
         | Some (r, st1) \<Rightarrow>
             (case r of
                Inl e \<Rightarrow>
                  if is_pause_error e then Some (LoopPaused i, st1)
                  else resume_loop dp denv userID threadID (Suc i) calls
                         (results @ [tool_message call (error_content dp e)]) st1
              | Inr out \<Rightarrow>
                  resume_loop dp denv userID threadID (Suc i) calls
                    (results @ [tool_message call (to_Content out)]) st1))"

text \<open>The answers to the user when the model fails, at the start and at the end of a round.\<close>

definition llm_error :: "string \<Rightarrow> string" where
  "llm_error e = ''LLM '' @ utf8 [233, 148, 153, 232, 175, 175] @ '': '' @ e"

definition summary_error :: "string \<Rightarrow> string" where
  "summary_error e =
     ''LLM '' @ utf8 [230, 128, 187, 231, 187, 147, 233, 148, 153, 232, 175, 175] @ '': '' @ e"

text \<open>The conversation that closes a round of tool calls.\<close>

definition closing_messages ::
  "llm_message list \<Rightarrow> string \<Rightarrow> llm_tool_call list \<Rightarrow> llm_message
    list \<Rightarrow> llm_message list" where
  "closing_messages msgs content calls results =
     msgs @
     [\<lparr>lm_Role = RoleAssistant, lm_Content = content, lm_ToolCalls = calls, lm_ToolName = [],
       lm_ToolID = []\<rparr>] @
     results"

definition finalize_tool_results ::
  "'w deps \<Rightarrow> agent_env \<Rightarrow> string \<Rightarrow> string \<Rightarrow>
    llm_message list \<Rightarrow> string \<Rightarrow> llm_tool_call list \<Rightarrow>
     llm_message list \<Rightarrow> string \<Rightarrow> 'w state \<Rightarrow> (outgoing_response
       \<times> 'w state) option" where
  "finalize_tool_results dp env userID threadID msgs content calls results originalContent st =
     (case dp_LLM dp of
        None \<Rightarrow> None
      | Some model \<Rightarrow>
          (case model (closing_messages msgs content calls results) [] (st_world st) of
             (Inl e, w) \<Rightarrow> Some (response (summary_error e), st\<lparr>st_world := w\<rparr>)
           | (Inr final, w) \<Rightarrow>
               Some (response (cr_Content final),
                 publish_event dp userID threadID EventAgentResponse (cr_Content final) Map.empty
                   (session_turn env 2 userID originalContent (cr_Content final) (st\<lparr>st_world
                     := w\<rparr>)))))"

definition handle_llm_tool_calls ::
  "'w deps \<Rightarrow> agent_env \<Rightarrow> string \<Rightarrow> string \<Rightarrow> string
    \<Rightarrow> llm_message list \<Rightarrow> completion_response \<Rightarrow>
     'w state \<Rightarrow> (outgoing_response \<times> 'w state) option" where
  "handle_llm_tool_calls dp env userID threadID originalContent msgs resp st =
     (case tool_loop dp (ae_dispatch env) userID threadID 0 (cr_ToolCalls resp) [] st of
        None \<Rightarrow> None
      | Some (LoopPaused i, st') \<Rightarrow>
          Some (pending_response threadID,
            st'\<lparr>st_session := save_pending_execution
              \<lparr>pe_RequestID = ae_uuid env 1, pe_UserID = userID, pe_ThreadID = threadID,
               pe_Messages = msgs, pe_ToolCalls = cr_ToolCalls resp, pe_NextIndex = i,
               pe_OriginalContent = originalContent, pe_CreatedAt = ae_now env,
               pe_ExpiresAt = ae_now env + 10 * minute\<rparr> (st_session st')\<rparr>)
      | Some (LoopDone results, st') \<Rightarrow>
          finalize_tool_results dp env userID threadID msgs (cr_Content resp) (cr_ToolCalls resp)
            results originalContent st')"

text \<open>The result of a handler: an error text or a response, with the state.\<close>

type_synonym 'w handled = "((string + outgoing_response) \<times> 'w state) option"

definition handled_ok :: "(outgoing_response \<times> 'w state) option \<Rightarrow> 'w handled" where
  "handled_ok r = map_option (\<lambda>(x, st). (Inr x, st)) r"

definition resume :: "'w deps \<Rightarrow> agent_env \<Rightarrow> string \<Rightarrow> string
  \<Rightarrow> 'w state \<Rightarrow> 'w handled" where
  "resume dp env userID threadID st =
     (case get_pending_execution (ae_now env) userID threadID (st_session st) of
        None \<Rightarrow> Some (Inl (''no pending execution for user '' @ userID @ '' thread '' @
          threadID), st)
      | Some pe \<Rightarrow>
          (case resume_loop dp (ae_dispatch env) userID threadID (pe_NextIndex pe)
                  (drop (pe_NextIndex pe) (pe_ToolCalls pe)) [] st of
             None \<Rightarrow> None
           | Some (LoopPaused i, st') \<Rightarrow>
               Some (Inr (pending_response threadID),
                 st'\<lparr>st_session := save_pending_execution
                   (pe\<lparr>pe_NextIndex := i, pe_CreatedAt := ae_now env,
                       pe_ExpiresAt := ae_now env + 10 * minute\<rparr>) (st_session st')\<rparr>)
           | Some (LoopDone results, st') \<Rightarrow>
               handled_ok (finalize_tool_results dp env userID threadID (pe_Messages pe) [] (pe_ToolCalls pe)
                 results (pe_OriginalContent pe)
                 (publish_event dp userID threadID EventGateResolved
                   ''Resumed execution after approval'' Map.empty
                   (st'\<lparr>st_session := clear_pending_execution userID threadID (st_session
                     st')\<rparr>)))))"

section \<open>Handlers\<close>

definition persist_if_needed :: "'w deps \<Rightarrow> agent_env \<Rightarrow> thread \<Rightarrow>
  'w state \<Rightarrow> 'w state" where
  "persist_if_needed dp env th st =
     (case dp_SaveConversation dp of
        None \<Rightarrow> st
      | Some save \<Rightarrow>
          st\<lparr>st_world := snd (save (ae_now env)
               \<lparr>cv_ID = th_ID th, cv_UserID = th_UserID th, cv_Channel = th_Channel th,
                 cv_Title = th_Title th,
                cv_Messages = [], cv_CreatedAt = th_CreatedAt th, cv_UpdatedAt = th_UpdatedAt th\<rparr>
               (st_world st))\<rparr>)"

text \<open>The part of \<open>runLLM\<close> after the check for an interrupted execution.\<close>

definition ask_llm :: "'w deps \<Rightarrow> agent_env \<Rightarrow> string \<Rightarrow> nat
  \<Rightarrow> string \<Rightarrow> 'w state \<Rightarrow> 'w handled" where
  "ask_llm dp env userID a content st =
     (case dp_LLM dp of
        None \<Rightarrow> None
      | Some model \<Rightarrow>
          (let msgs = build_llm_messages dp env userID content st
           in case model msgs (build_llm_tools dp env) (st_world st) of
                (Inl e, w) \<Rightarrow> Some (Inr (response (llm_error e)), st\<lparr>st_world := w\<rparr>)
              | (Inr resp, w) \<Rightarrow>
                  (let st1 = st\<lparr>st_world := w\<rparr>
                   in if length (cr_ToolCalls resp) > 0
                      then handled_ok (handle_llm_tool_calls dp env userID (th_ID (thread_at a st1)) content
                             msgs resp st1)
                      else (let st2 = session_turn env 2 userID content (cr_Content resp) st1
                            in Some (Inr (response (cr_Content resp)),
                                 persist_if_needed dp env (thread_at a st2) st2)))))"

definition run_llm :: "'w deps \<Rightarrow> agent_env \<Rightarrow> string \<Rightarrow> string
  \<Rightarrow> 'w state \<Rightarrow> 'w handled" where
  "run_llm dp env userID content st =
     (let (a, st0) = open_thread env userID st; threadID = th_ID (thread_at a st0)
      in case get_pending_execution (ae_now env) userID threadID (st_session st0) of
           Some pe \<Rightarrow>
             if content = ''__resume__'' then
               (let (waiting, store) = ps_has_pending (ae_now env) userID threadID (d_pendingStore
                 (st_disp st0));
                    st1 = st0\<lparr>st_disp := (st_disp st0)\<lparr>d_pendingStore := store\<rparr>\<rparr>
                in if waiting then Some (Inr (pending_response threadID), st1)
                   else resume dp env userID threadID st1)
             else
               ask_llm dp env userID a content
                 (st0\<lparr>st_session := clear_pending_execution userID threadID (st_session st0),
                      st_disp := (st_disp st0)\<lparr>d_pendingStore :=
                        ps_clear_resolved userID threadID (d_pendingStore (st_disp st0))\<rparr>\<rparr>)
         | None \<Rightarrow> ask_llm dp env userID a content st0)"

definition echo_reply :: "'w deps \<Rightarrow> agent_env \<Rightarrow> string \<Rightarrow> string
  \<Rightarrow> 'w state \<Rightarrow> 'w handled" where
  "echo_reply dp env userID content st =
     (let st0 = snd (open_thread env userID st);
          resp = ''['' @ dp_Name dp @ ''] '' @ (utf8 [228, 189, 160, 232, 175, 180] @ '': '') @ content;
          st1 = session_turn env 2 userID content resp st0
      in case compact_thread userID 50 (st_session st1) of
           None \<Rightarrow> None
         | Some sm \<Rightarrow> Some (Inr (response resp), st1\<lparr>st_session := sm\<rparr>))"

definition handle_llm_query :: "'w deps \<Rightarrow> agent_env \<Rightarrow> string \<Rightarrow>
  intent \<Rightarrow> 'w state \<Rightarrow> 'w handled" where
  "handle_llm_query dp env userID i st =
     (if dp_LLM dp = None
      then Some (Inr (response ((''LLM '' @
        utf8 [230, 156, 170, 233, 133, 141, 231, 189, 174, 239, 188, 140, 232, 175, 183, 229, 133, 136,
          232, 174, 190, 231, 189, 174] @ '' LLM '' @ utf8 [230, 143, 144, 228, 190, 155, 229, 149, 134, 227, 128, 130]))), st)
      else run_llm dp env userID (in_Content i) st)"

definition handle_chat :: "'w deps \<Rightarrow> agent_env \<Rightarrow> string \<Rightarrow> intent
  \<Rightarrow> 'w state \<Rightarrow> 'w handled" where
  "handle_chat dp env userID i st =
     (if dp_LLM dp = None then echo_reply dp env userID (in_Content i) st
      else run_llm dp env userID (in_Content i) st)"

definition nil_map :: "nil_params \<Rightarrow> jval" where
  "nil_map ps = (case ps of None \<Rightarrow> JNull | Some m \<Rightarrow> JObj m)"

definition handle_tool_invocation :: "'w deps \<Rightarrow> agent_env \<Rightarrow> string
  \<Rightarrow> intent \<Rightarrow> 'w state \<Rightarrow> 'w handled" where
  "handle_tool_invocation dp env userID i st =
     (let (a, st0) = open_thread env userID st;
          threadID = th_ID (thread_at a st0);
          ps = (if in_ToolParams i \<noteq> [] then parse_arguments dp (in_ToolParams i) else None);
          (rejected, st1) = fire dp \<lparr>he_Type = EventBeforeToolCall, he_UserID = userID,
            he_Channel = [],
             he_Data = [''tool'' \<mapsto> JStr (in_ToolName i), ''params'' \<mapsto> nil_map ps]\<rparr> st0
      in case rejected of
           Some e \<Rightarrow> Some (Inl (''before:tool_call hook rejected: '' @ e), st1)
         | None \<Rightarrow>
             (case call_tool (ae_dispatch env 0) (in_ToolName i) ps userID threadID st1 of
                None \<Rightarrow> None
              | Some (r, st2) \<Rightarrow>
                  (let out = output_of r;
                       errStr = (case r of Inl e \<Rightarrow> dispatch_error_text (dp_quote dp) e |
                         Inr _ \<Rightarrow> []);
                       st3 = snd (fire dp \<lparr>he_Type = EventAfterToolCall, he_UserID = userID,
                         he_Channel = [],
                         he_Data = [''tool'' \<mapsto> JStr (in_ToolName i), ''output'' \<mapsto>
                           JStr (to_Content out),
                                    ''error'' \<mapsto> JStr errStr, ''duration'' \<mapsto> JNum
                                      (of_int (to_Duration out))]\<rparr> st2);
                       answer = (case r of Inl e \<Rightarrow> error_content dp e | Inr o'
                         \<Rightarrow> to_Content o')
                   in Some (Inr (response answer),
                        session_turn env 2 userID (in_Content i) answer st3))))"

text \<open>The listing of \<open>/threads\<close>; the slice \<open>t.ID[:8]\<close> panics on an
  identifier of fewer than eight bytes.\<close>

fun thread_lines :: "string \<Rightarrow> session_manager \<Rightarrow> nat \<Rightarrow> thread
  list \<Rightarrow> string option" where
  "thread_lines userID sm i [] = Some []"
| "thread_lines userID sm i (t # ts) =
     (case slice (th_ID t) 0 8 of
        None \<Rightarrow> None
      | Some short \<Rightarrow>
          (let mark = (if get_thread userID (th_ID t) sm \<noteq> None \<and> i = 0 then ''*'' else '' '')
           in map_option (\<lambda>rest. ''  '' @ mark @ '' ['' @ short @ ''] '' @ th_Title t @ '' ('' @
                show_nat (length (th_Turns t)) @ ('' '' @ utf8 [232, 189, 174] @ '')'' @ utf8 [10]) @ rest)
                (thread_lines userID sm (Suc i) ts)))"

definition help_text :: string where
  "help_text =
     (utf8 [229, 143, 175, 231, 148, 168, 229, 145, 189, 228, 187, 164] @ '':'' @ utf8 [10] @
       ''  /threads, /t    - '' @ utf8 [229, 136, 151, 229, 135, 186, 230, 137, 128, 230, 156, 137,
       229, 175, 185, 232, 175, 157, 231, 186, 191, 231, 168, 139, 10]) @
     (''  /switch, /s <id> - '' @ utf8 [229, 136, 135, 230, 141, 162, 229, 136, 176, 230, 140, 135,
       229, 174, 154, 231, 186, 191, 231, 168, 139, 10]) @
     (''  /new, /n        - '' @ utf8 [229, 136, 155, 229, 187, 186, 230, 150, 176, 231, 186, 191,
       231, 168, 139, 10]) @
     (''  /help, /h       - '' @ utf8 [230, 152, 190, 231, 164, 186, 230, 173, 164, 229, 184, 174,
       229, 138, 169, 10, 10]) @
     (utf8 [231, 155, 180, 230, 142, 165, 232, 190, 147, 229, 133, 165] @ '': '' @ utf8 [230, 153,
       174, 233, 128, 154, 229, 175, 185, 232, 175, 157, 239, 188, 136, 229, 166, 130, 230, 156,
       137] @ '' LLM '' @ utf8 [233, 133, 141, 231, 189, 174, 229, 136, 153, 233, 128, 154, 232,
       191, 135] @ '' LLM '' @ utf8 [229, 164, 132, 231, 144, 134, 239, 188, 137, 10]) @
     (''  tool:<name> <params> - '' @ utf8 [231, 155, 180, 230, 142, 165, 232, 176, 131, 231, 148,
       168, 229, 183, 165, 229, 133, 183, 10]) @
     (''  ?<query>             - LLM '' @ utf8 [230, 159, 165, 232, 175, 162])"

definition handle_system_command :: "agent_env \<Rightarrow> string \<Rightarrow> intent
  \<Rightarrow> 'w state \<Rightarrow> 'w handled" where
  "handle_system_command env userID i st =
     (let cmd = in_Command i; sm = st_session st
      in if cmd = ''threads'' \<or> cmd = ''t'' then
           (let threads = list_threads userID sm
            in if threads = [] then Some (Inr (response (utf8 [229, 189, 147, 229, 137, 141, 230,
              178, 161, 230, 156, 137, 229, 175, 185, 232, 175, 157, 231, 186, 191, 231, 168, 139,
              227, 128, 130])), st)
               else map_option (\<lambda>s. (Inr (response (s)), st))
                      (map_option (\<lambda>s. (utf8 [229, 175, 185, 232, 175, 157, 231, 186, 191,
                        231, 168, 139, 229, 136, 151, 232, 161, 168] @ '':'' @ utf8 [10]) @ s)
                        (thread_lines userID sm 0 threads)))
         else if cmd = ''switch'' \<or> cmd = ''s'' then
           (case in_Args i of
              [] \<Rightarrow> Some (Inr (response ((utf8 [231, 148, 168, 230, 179, 149] @
                '': /switch <thread-id>''))), st)
            | threadID # _ \<Rightarrow>
                (case switch_thread userID threadID sm of
                   (True, sm') \<Rightarrow>
                     map_option (\<lambda>short. (Inr (response ((utf8 [229, 183, 178, 229, 136,
                       135, 230, 141, 162, 229, 136, 176, 231, 186, 191, 231, 168, 139] @ '' '') @
                       short)), st\<lparr>st_session := sm'\<rparr>))
                       (slice threadID 0 8)
                 | (False, sm') \<Rightarrow> Some (Inr (response ((utf8 [230, 156, 170, 230, 137,
                   190, 229, 136, 176, 231, 186, 191, 231, 168, 139] @ '': '') @ threadID)),
                   st\<lparr>st_session := sm'\<rparr>)))
         else if cmd = ''new'' \<or> cmd = ''n'' then
           (let (a, st') = open_thread env userID st
            in map_option (\<lambda>short. (Inr (response ((utf8 [229, 183, 178, 229, 136, 155, 229,
              187, 186, 230, 150, 176, 231, 186, 191, 231, 168, 139] @ '': '') @ short)), st'))
                 (slice (th_ID (thread_at a st')) 0 8))
         else if cmd = ''help'' \<or> cmd = ''h'' then Some (Inr (response help_text), st)
         else Some (Inr (response ((utf8 [230, 156, 170, 231, 159, 165, 229, 145, 189, 228, 187,
           164] @ '': /'') @ cmd @ (utf8 [239, 188, 140, 232, 190, 147, 229, 133, 165] @ '' /help ''
           @ utf8 [230, 159, 165, 231, 156, 139, 229, 184, 174, 229, 138, 169]))), st))"

section \<open>Processing a message\<close>

fun extracted_loop :: "attachment list \<Rightarrow> string \<Rightarrow> string" where
  "extracted_loop [] sb = sb"
| "extracted_loop (att # atts) sb =
     (if att_ExtractedText att = [] then extracted_loop atts sb
      else extracted_loop atts
        (sb @ [CHR 0x0A, CHR 0x0A] @ ''[Attachment: '' @
         (if att_Filename att \<noteq> [] then att_Filename att else att_MIMEType att) @ '']'' @ [CHR 0x0A] @
         att_ExtractedText att))"

definition append_extracted_text :: "incoming_message \<Rightarrow> string" where
  "append_extracted_text msg =
     (if length (im_Attachments msg) = 0 then im_Content msg
      else extracted_loop (im_Attachments msg) (im_Content msg))"

definition with_documents :: "'w deps \<Rightarrow> incoming_message \<Rightarrow> incoming_message" where
  "with_documents dp msg =
     (case dp_Document dp of
        None \<Rightarrow> msg
      | Some process \<Rightarrow> (let m = process msg in m\<lparr>im_Content :=
        append_extracted_text m\<rparr>))"

definition handle_intent :: "'w deps \<Rightarrow> agent_env \<Rightarrow> string \<Rightarrow>
  intent \<Rightarrow> 'w state \<Rightarrow> 'w handled" where
  "handle_intent dp env userID i st =
     (case in_Type i of
        IntentSystemCmd \<Rightarrow> handle_system_command env userID i st
      | IntentToolCall \<Rightarrow> handle_tool_invocation dp env userID i st
      | IntentLLMQuery \<Rightarrow> handle_llm_query dp env userID i st
      | IntentChat \<Rightarrow> handle_chat dp env userID i st)"

definition message_hook :: "hook_event_type \<Rightarrow> incoming_message \<Rightarrow> params
  \<Rightarrow> hook_event" where
  "message_hook t msg payload =
     \<lparr>he_Type = t, he_UserID = im_UserID msg, he_Channel = im_Channel msg, he_Data = payload\<rparr>"

definition process_message :: "'w deps \<Rightarrow> agent_env \<Rightarrow> incoming_message
  \<Rightarrow> 'w state \<Rightarrow> 'w handled" where
  "process_message dp env msg0 st =
     (let msg = with_documents dp msg0;
          (rejected, st0) = fire dp (message_hook EventBeforeMessage msg [''content'' \<mapsto> JStr
            (im_Content msg)]) st
      in case rejected of
           Some e \<Rightarrow> Some (Inl (''before:message hook rejected: '' @ e), st0)
         | None \<Rightarrow>
             (case route (im_Content msg) of
                None \<Rightarrow> None
              | Some i \<Rightarrow>
                  (case handle_intent dp env (im_UserID msg) i st0 of
                     None \<Rightarrow> None
                   | Some (r, st1) \<Rightarrow>
                       (let resp = (case r of Inr x \<Rightarrow> x | Inl e \<Rightarrow> response
                         ((''Agent '' @ utf8 [233, 148, 153, 232, 175, 175] @ '': '') @ e));
                            st2 = snd (fire dp (message_hook EventAfterMessage msg
                                    [''content'' \<mapsto> JStr (im_Content msg), ''response''
                                      \<mapsto> JStr (or_Content resp)]) st1);
                            st3 = snd (fire dp (message_hook EventBeforeResponse msg
                                    [''response'' \<mapsto> JStr (or_Content resp)]) st2);
                            st4 = (if or_Status resp \<noteq> ''pending_gate''
                                   then publish_event dp (im_UserID msg) (im_ThreadID msg) EventAgentResponse
                                          (or_Content resp) Map.empty st3
                                   else st3)
                        in Some (Inr resp, st4)))))"

section \<open>Lemmas\<close>

text \<open>
  A tool message answers a call: it has the identifier and the tool name of the call, and its content is the
  output or the error of dispatching that call for the user and thread, which did not pause.
\<close>

definition answered ::
  "'w deps \<Rightarrow> dispatch_env \<Rightarrow> string \<Rightarrow> string \<Rightarrow> llm_tool_call \<Rightarrow> llm_message \<Rightarrow> bool" where
  "answered dp env u t call m \<longleftrightarrow>
     lm_Role m = RoleTool \<and> lm_ToolID m = lc_ID call \<and> lm_ToolName m = fc_Name (lc_Function call) \<and>
     (\<exists>d (w :: 'w).
        case dr_result (dispatch env (fc_Name (lc_Function call)) (parse_arguments dp (fc_Arguments (lc_Function call)))
               \<lparr>jc_UserID = u, jc_JobID = [], jc_ThreadID = t\<rparr> d w) of
          Inl e \<Rightarrow> \<not> is_pause_error e \<and> lm_Content m = error_content dp e
        | Inr out \<Rightarrow> lm_Content m = to_Content out)"

text \<open>A list of messages answers a list of calls, the first of which has the index \<open>i\<close>.\<close>

fun answers ::
  "'w deps \<Rightarrow> (nat \<Rightarrow> dispatch_env) \<Rightarrow> string \<Rightarrow> string \<Rightarrow> nat \<Rightarrow> llm_tool_call list \<Rightarrow> llm_message list \<Rightarrow> bool" where
  "answers dp denv u t i [] [] = True"
| "answers dp denv u t i (c # cs) (m # ms) =
     (answered dp (denv i) u t c m \<and> answers dp denv u t (Suc i) cs ms)"
| "answers dp denv u t i _ _ = False"

lemma answers_length: "answers dp denv u t i calls ms \<Longrightarrow> length ms = length calls"
  by (induction dp denv u t i calls ms rule: answers.induct) auto

lemma call_tool_result:
  "call_tool env n ps u t st = Some (r, st') \<Longrightarrow>
     r = dr_result (dispatch env n ps \<lparr>jc_UserID = u, jc_JobID = [], jc_ThreadID = t\<rparr> (st_disp st) (st_world st))"
  by (auto simp: call_tool_def Let_def split: if_splits)

lemma answered_error:
  fixes dp :: "'w deps" and st :: "'w state"
  assumes "call_tool env (fc_Name (lc_Function c)) (parse_arguments dp (fc_Arguments (lc_Function c))) u t st = Some (Inl e, st')"
    and "\<not> is_pause_error e"
  shows "answered dp env u t c (tool_message c (error_content dp e))"
  using call_tool_result [OF assms(1), symmetric] assms(2)
  by (auto simp: answered_def tool_message_def intro!: exI [of _ "st_disp st"] exI [of _ "st_world st"])

lemma answered_output:
  fixes dp :: "'w deps" and st :: "'w state"
  assumes "call_tool env (fc_Name (lc_Function c)) (parse_arguments dp (fc_Arguments (lc_Function c))) u t st = Some (Inr out, st')"
  shows "answered dp env u t c (tool_message c (to_Content out))"
  using call_tool_result [OF assms(1), symmetric]
  by (auto simp: answered_def tool_message_def intro!: exI [of _ "st_disp st"] exI [of _ "st_world st"])

lemma tool_loop_done:
  "tool_loop dp denv u t i calls rs st = Some (LoopDone rs', st') \<Longrightarrow>
     \<exists>ms. rs' = rs @ ms \<and> answers dp denv u t i calls ms"
proof (induction calls arbitrary: i rs st)
  case (Cons call calls)
  let ?n = "fc_Name (lc_Function call)"
  obtain m rs2 st2 where m: "rs2 = rs @ [m]" "answered dp (denv i) u t call m"
    and go: "tool_loop dp denv u t (Suc i) calls rs2 st2 = Some (LoopDone rs', st')"
    using Cons.prems
    by (auto simp: Let_def split: option.splits prod.splits sum.splits if_splits intro: answered_error answered_output)
  from Cons.IH [OF go] m show ?case by auto
qed simp

lemma resume_loop_done:
  "resume_loop dp denv u t i calls rs st = Some (LoopDone rs', st') \<Longrightarrow>
     \<exists>ms. rs' = rs @ ms \<and> answers dp denv u t i calls ms"
proof (induction calls arbitrary: i rs st)
  case (Cons call calls)
  let ?n = "fc_Name (lc_Function call)"
  obtain m rs2 st2 where m: "rs2 = rs @ [m]" "answered dp (denv i) u t call m"
    and go: "resume_loop dp denv u t (Suc i) calls rs2 st2 = Some (LoopDone rs', st')"
    using Cons.prems
    by (auto simp: Let_def split: option.splits prod.splits sum.splits if_splits intro: answered_error answered_output)
  from Cons.IH [OF go] m show ?case by auto
qed simp

lemma publish_frame [simp]:
  "st_disp (publish_event dp u t ty pay meta st) = st_disp st"
  "st_session (publish_event dp u t ty pay meta st) = st_session st"
  "st_world (publish_event dp u t ty pay meta st) = st_world st"
  by (simp_all add: publish_event_def)

lemma announce_frame [simp]:
  "st_disp (announce_call dp u t n st) = st_disp st" "st_session (announce_call dp u t n st) = st_session st"
  "st_disp (announce_result dp u t n r st) = st_disp st" "st_session (announce_result dp u t n r st)
    = st_session st"
  by (simp_all add: announce_call_def announce_result_def Let_def)

lemma call_tool_paused:
  assumes "call_tool env name ps u t st = Some (Inl e, st')" and "is_pause_error e"
  shows "\<exists>g. byKey (d_pendingStore (st_disp st')) t = Some g \<and> pg_ToolName g = name
    \<and> pg_UserID g = u"
proof -
  let ?j = "\<lparr>jc_UserID = u, jc_JobID = [], jc_ThreadID = t\<rparr>"
  let ?r = "dispatch env name ps ?j (st_disp st) (st_world st)"
  have r: "dr_result ?r = Inl e" "st_disp st' = dr_dispatcher ?r"
    using assms(1) by (auto simp: call_tool_def Let_def split: if_splits)
  obtain n' q d where "e = Paused n' q d"
    using assms(2) by (cases e) (auto simp: is_pause_error_def)
  with r(1) have "dr_result ?r = Inl (Paused n' q d)" by simp
  then obtain pg s' where
    "ps_create (de_create env) (de_order env) (de_uuid env) u t name (the_params ps) ''repl''
       (d_pendingStore (after_checks env name ?j (st_disp st))) = (pg, s')"
    "?r = refuse (Paused name (pg_RequestID pg) (pg_Description pg))
       ((after_checks env name ?j (st_disp st))\<lparr>d_pendingStore := s'\<rparr>) (st_world st)"
    by (rule dispatch_paused) auto
  with r(2) show ?thesis
    by (auto simp: ps_create_def Let_def store_key_def)
qed

lemma tool_loop_paused:
  "tool_loop dp denv u t i calls rs st = Some (LoopPaused k, st') \<Longrightarrow>
     i \<le> k \<and> k - i < length calls \<and>
     (\<exists>g. byKey (d_pendingStore (st_disp st')) t = Some g \<and> pg_UserID g = u \<and>
        pg_ToolName g = fc_Name (lc_Function (calls ! (k - i))))"
proof (induction calls arbitrary: i rs st)
  case (Cons call calls)
  let ?n = "fc_Name (lc_Function call)"
  obtain r st1 where c: "call_tool (denv i) ?n (parse_arguments dp (fc_Arguments (lc_Function call))) u t
      (announce_call dp u t ?n st) = Some (r, st1)"
    using Cons.prems by (auto simp: Let_def split: option.splits)
  show ?case
  proof (cases "\<exists>e. r = Inl e \<and> is_pause_error e")
    case True
    then obtain e where e: "r = Inl e" "is_pause_error e" by blast
    with call_tool_paused [of "denv i" ?n _ u t _ e st1] c obtain g where
      "byKey (d_pendingStore (st_disp st1)) t = Some g" "pg_ToolName g = ?n" "pg_UserID g = u" by blast
    with e c Cons.prems show ?thesis by (auto simp: Let_def)
  next
    case False
    with c Cons.prems obtain rs2 st2 where "tool_loop dp denv u t (Suc i) calls rs2 st2 = Some
      (LoopPaused k, st')"
      by (auto simp: Let_def split: sum.splits if_splits)
    from Cons.IH [OF this] show ?thesis
      by (auto simp: Suc_diff_Suc less_eq_Suc_le nth_Cons')
  qed
qed simp

text \<open>Before the call it stops at, an interrupted round has run and answered the calls.\<close>

lemma tool_loop_before_pause:
  "tool_loop dp denv u t i calls rs st = Some (LoopPaused k, st') \<Longrightarrow>
     \<exists>rs' st0. tool_loop dp denv u t i (take (k - i) calls) rs st = Some (LoopDone rs', st0)"
proof (induction calls arbitrary: i rs st)
  case (Cons call calls)
  let ?n = "fc_Name (lc_Function call)"
  obtain r st1 where c: "call_tool (denv i) ?n (parse_arguments dp (fc_Arguments (lc_Function call))) u t
      (announce_call dp u t ?n st) = Some (r, st1)"
    using Cons.prems by (auto simp: Let_def split: option.splits)
  show ?case
  proof (cases "\<exists>e. r = Inl e \<and> is_pause_error e")
    case True
    with c Cons.prems show ?thesis by (auto simp: Let_def)
  next
    case False
    with c Cons.prems obtain rs2 st2 where go: "tool_loop dp denv u t (Suc i) calls rs2 st2 = Some (LoopPaused k, st')"
      and step: "\<And>cs. tool_loop dp denv u t i (call # cs) rs st = tool_loop dp denv u t (Suc i) cs rs2 st2"
      by (auto simp: Let_def split: sum.splits if_splits)
    from tool_loop_paused [OF go] have "k - i = Suc (k - Suc i)" by auto
    with Cons.IH [OF go] step show ?thesis by simp
  qed
qed simp

lemma finalize_not_pending:
  "finalize_tool_results dp env u t ms c calls rs orig st = Some (r, st') \<Longrightarrow>
    or_Status r \<noteq> ''pending_gate''"
  by (auto simp: finalize_tool_results_def response_def split: option.splits prod.splits sum.splits)

text \<open>What the model is asked at the end of a round, and what the user reads.\<close>

lemma finalize_asks:
  assumes "finalize_tool_results dp env u t msgs content calls results orig st = Some (r, st')"
  shows "\<exists>model. dp_LLM dp = Some model \<and>
    or_Content r =
      (case fst (model (msgs @ [\<lparr>lm_Role = RoleAssistant, lm_Content = content, lm_ToolCalls = calls,
                              lm_ToolName = [], lm_ToolID = []\<rparr>] @ results) [] (st_world st)) of
         Inl e \<Rightarrow> summary_error e
       | Inr final \<Rightarrow> cr_Content final)"
  using assms
  by (auto simp: finalize_tool_results_def closing_messages_def response_def split: option.splits prod.splits sum.splits)

lemma finalize_executions:
  "finalize_tool_results dp env u t ms c calls rs orig st = Some (r, st') \<Longrightarrow>
    pendingExecutions (st_session st') = pendingExecutions (st_session st)"
  by (auto simp: finalize_tool_results_def session_turn_def add_turn_def Let_def
      split: option.splits prod.splits sum.splits)

lemma get_saved_execution:
  "pe_ThreadID pe = t \<Longrightarrow> now \<le> pe_ExpiresAt pe \<Longrightarrow>
     get_pending_execution now u t (save_pending_execution pe sm) = Some pe"
  by (simp add: get_pending_execution_def save_pending_execution_def pe_is_expired_def)

lemma concat_user_turns:
  "map lm_Content (filter (\<lambda>m. lm_Role m = RoleUser) (concat (map turn_messages ts))) = map
    tn_UserMsg ts"
  by (induction ts) (auto simp: turn_messages_def plain_message_def)

lemma concat_no_system: "filter (\<lambda>m. lm_Role m = RoleSystem) (concat (map turn_messages ts)) = []"
  by (induction ts) (auto simp: turn_messages_def plain_message_def)

text \<open>A small configuration, for the concrete instances of the properties.\<close>

definition demo_call :: llm_tool_call where
  "demo_call = \<lparr>lc_ID = ''c1'', lc_Type = ''function'', lc_Function = \<lparr>fc_Name =
    ''greet'', fc_Arguments = ''{}''\<rparr>\<rparr>"

definition demo_completion :: completion_response where
  "demo_completion = \<lparr>cr_Content = ''ok'', cr_ToolCalls = [demo_call],
     cr_Usage = \<lparr>u_PromptTokens = 0, u_CompletionTokens = 0, u_TotalTokens = 0\<rparr>,
       cr_Model = ''m''\<rparr>"

definition demo_deps :: "string deps" where
  "demo_deps = \<lparr>dp_Name = ''claw'', dp_LLM = Some (\<lambda>ms tds w. (Inr
    (demo_completion\<lparr>cr_ToolCalls := []\<rparr>), w)),
     dp_Tools = None, dp_Hooks = None, dp_Skills = None, dp_Document = None, dp_SaveConversation = None,
     dp_publishes = False, dp_unmarshal = (\<lambda>s. Inr None), dp_quote = id\<rparr>"

definition demo_env :: agent_env where
  "demo_env = \<lparr>ae_now = 5, ae_uuid = (\<lambda>_. ''id''),
     ae_dispatch = (\<lambda>_. \<lparr>de_rate = 5, de_consume = 5, de_gate = 5, de_create = 5,
       de_start = 5, de_stop = 5,
        de_uuid = ''r1'', de_order = []\<rparr>),
     ae_tools = [], ae_prompt = [], ae_skills = []\<rparr>"

definition asking_gate :: "string exec_gate" where
  "asking_gate = \<lparr>g_Name = ''ask'', g_Evaluate = (\<lambda>_ _ _. Pause)\<rparr>"

definition demo_state :: "string exec_gate list \<Rightarrow> string state" where
  "demo_state gs = \<lparr>st_disp = with_gates gs (new_dispatcher (register greeter new_registry) None),
     st_session = new_session_manager, st_world = [], st_events = [], st_audits = []\<rparr>"

definition demo_execution :: pending_execution where
  "demo_execution = \<lparr>pe_RequestID = ''x'', pe_UserID = ''u'', pe_ThreadID = ''tid'', pe_Messages = [],
     pe_ToolCalls = [demo_call], pe_NextIndex = 0, pe_OriginalContent = ''hi'', pe_CreatedAt = 0,
     pe_ExpiresAt = 9\<rparr>"

definition demo_session :: session_manager where
  "demo_session = \<lparr>sm_threads = [fresh_thread ''tid'' 1 ''u'' ''repl''], active = [''u'' \<mapsto> 0],
     history = (\<lambda>_. [])(''u'' := [0]), pendingExecutions = [''tid'' \<mapsto> demo_execution]\<rparr>"

definition demo_paused :: "string exec_gate list \<Rightarrow> string state" where
  "demo_paused gs = (demo_state gs)\<lparr>st_session := demo_session\<rparr>"

lemmas demo_simps = demo_completion_def demo_call_def demo_deps_def demo_env_def demo_state_def
  with_gates_def new_dispatcher_def register_def new_registry_def registry_get_def greeter_def
  new_rate_limiter_def new_pending_store_def ps_consume_resolved_def store_key_def call_tool_def
  parse_arguments_def

section \<open>Properties\<close>



text \<open>
  C15: a round that is interrupted can be taken up again: the calls before the one it stopped at have run and
  are answered, the thread has a pending gate of the user for the tool of that call, and the saved
  execution, which is found again until it expires, holds the conversation as it was before the round,
  all calls of the round, and the index of that call. The answers obtained so far and the text the model
  gave with its calls are not saved, although the design document says that they are in the saved
  conversation.
\<close>

theorem pause_saves_execution:
  assumes "handle_llm_tool_calls dp env u t orig msgs resp st = Some (r, st')"
    and "or_Status r = ''pending_gate''" and "now \<le> ae_now env + 10 * minute"
  shows "\<exists>pe g results st0. get_pending_execution now u t (st_session st') = Some pe \<and>
    pe_Messages pe = msgs \<and> pe_ToolCalls pe = cr_ToolCalls resp \<and> pe_OriginalContent pe = orig \<and>
    pe_NextIndex pe < length (cr_ToolCalls resp) \<and>
    tool_loop dp (ae_dispatch env) u t 0 (take (pe_NextIndex pe) (cr_ToolCalls resp)) [] st =
      Some (LoopDone results, st0) \<and>
    answers dp (ae_dispatch env) u t 0 (take (pe_NextIndex pe) (cr_ToolCalls resp)) results \<and>
    byKey (d_pendingStore (st_disp st')) t = Some g \<and> pg_UserID g = u \<and>
    pg_ToolName g = fc_Name (lc_Function (cr_ToolCalls resp ! pe_NextIndex pe))"
proof -
  obtain l st1 where l: "tool_loop dp (ae_dispatch env) u t 0 (cr_ToolCalls resp) [] st = Some (l, st1)"
    using assms(1) by (auto simp: handle_llm_tool_calls_def split: option.splits)
  show ?thesis
  proof (cases l)
    case (LoopDone rs)
    with assms(1,2) l show ?thesis
      using finalize_not_pending by (fastforce simp: handle_llm_tool_calls_def)
  next
    case (LoopPaused i)
    with l tool_loop_paused [of dp "ae_dispatch env" u t 0 "cr_ToolCalls resp" "[]" st i st1]
    obtain g where g: "i < length (cr_ToolCalls resp)" "byKey (d_pendingStore (st_disp st1)) t = Some g"
        "pg_UserID g = u" "pg_ToolName g = fc_Name (lc_Function (cr_ToolCalls resp ! i))"
      by auto
    obtain rs st0 where rs: "tool_loop dp (ae_dispatch env) u t 0 (take i (cr_ToolCalls resp)) [] st = Some (LoopDone rs, st0)"
      using l LoopPaused tool_loop_before_pause [of dp "ae_dispatch env" u t 0 "cr_ToolCalls resp" "[]" st i st1] by auto
    then have "answers dp (ae_dispatch env) u t 0 (take i (cr_ToolCalls resp)) rs"
      using tool_loop_done [of dp "ae_dispatch env" u t 0 _ "[]"] by fastforce
    note ran = rs this
    define pe where "pe = \<lparr>pe_RequestID = ae_uuid env 1, pe_UserID = u, pe_ThreadID = t,
       pe_Messages = msgs, pe_ToolCalls = cr_ToolCalls resp, pe_NextIndex = i,
       pe_OriginalContent = orig, pe_CreatedAt = ae_now env, pe_ExpiresAt = ae_now env + 10 * minute\<rparr>"
    have st': "st' = st1\<lparr>st_session := save_pending_execution pe (st_session st1)\<rparr>"
      using assms(1) l LoopPaused by (simp add: handle_llm_tool_calls_def pe_def)
    have "get_pending_execution now u t (st_session st') = Some pe"
      using assms(3) by (simp add: st' get_saved_execution pe_def)
    with g ran show ?thesis
      by (intro exI [of _ pe] exI [of _ g] exI [of _ rs] exI [of _ st0]) (simp add: st' pe_def)
  qed
qed

theorem pause_saves_execution_witness:
  "\<exists>st' pe. get_pending_execution 7 ''u'' ''tid'' (st_session st') = Some pe \<and>
     pe_ToolCalls (pe :: pending_execution) = [demo_call] \<and>
     handle_llm_tool_calls demo_deps demo_env ''u'' ''tid'' ''hi'' [] demo_completion (demo_state
       [asking_gate]) =
       Some (pending_response ''tid'', st')"
proof -
  have "\<exists>st'. handle_llm_tool_calls demo_deps demo_env ''u'' ''tid'' ''hi'' [] demo_completion
      (demo_state [asking_gate]) = Some (pending_response ''tid'', st')"
    by (simp add: handle_llm_tool_calls_def demo_simps dispatch_def allow_def asking_gate_def Let_def
        is_pause_error_def ps_create_def)
  then obtain st' where h: "handle_llm_tool_calls demo_deps demo_env ''u'' ''tid'' ''hi'' [] demo_completion
      (demo_state [asking_gate]) = Some (pending_response ''tid'', st')" by blast
  from pause_saves_execution [OF h, of 7] h show ?thesis
    by (auto simp: pending_response_def demo_env_def demo_completion_def)
qed



text \<open>
  A message hook that objects stops the message before anything is done for it: the answer is the
  hook's error, and sessions, tools, approvals and published events are as before.
\<close>

lemma hook_rejection_blocks:
  assumes "dp_Hooks dp = Some hs"
    and "trigger hs (message_hook EventBeforeMessage (with_documents dp msg)
           [''content'' \<mapsto> JStr (im_Content (with_documents dp msg))]) (st_world st) = (Some e, w)"
  shows "process_message dp env msg st =
    Some (Inl (''before:message hook rejected: '' @ e), st\<lparr>st_world := w\<rparr>)"
  using assms by (simp add: process_message_def fire_def Let_def)

theorem hook_rejection_blocks_witness:
  "process_message (demo_deps\<lparr>dp_Hooks := Some (hook_register EventBeforeMessage (\<lambda>ev
    w. (Some ''no'', w)) new_hook_registry)\<rparr>)
     demo_env \<lparr>im_ID = [], im_Channel = ''repl'', im_UserID = ''u'', im_Content = ''hi'',
       im_ThreadID = [],
       im_Attachments = []\<rparr> (demo_state []) =
   Some (Inl ''before:message hook rejected: hook before:message: no'', demo_state [])"
proof -
  let ?hs = "hook_register EventBeforeMessage (\<lambda>ev w. (Some ''no'', w)) new_hook_registry"
  have "trigger ?hs (message_hook EventBeforeMessage m d) w = (Some ''hook before:message: no'', w)" for m d w
    by (simp add: trigger_def hook_register_def new_hook_registry_def message_hook_def hook_event_text_def)
  then show ?thesis
    by (subst hook_rejection_blocks [where hs = ?hs and e = "''hook before:message: no''" and w = "[]"])
      (simp_all add: demo_state_def)
qed

text \<open>
  The conversation sent to the model has one system message, at its start, and its user messages
  are the user's side of the current thread followed by the new input.
\<close>

lemma conversation_shape:
  "\<exists>rest. build_llm_messages dp env u content st =
      plain_message RoleSystem (system_text dp (ae_prompt env)) # rest \<and>
    filter (\<lambda>m. lm_Role m = RoleSystem) rest = [] \<and>
    map lm_Content (filter (\<lambda>m. lm_Role m = RoleUser) rest) =
      map tn_UserMsg (get_turns u (st_session st)) @ [content]"
  by (simp add: build_llm_messages_def concat_user_turns concat_no_system)
    (simp add: plain_message_def)

text \<open>
  C29: while a skill that is not fully trusted is registered, only read-only tools are offered to the
  model, in whatever order registry and skills are visited.
\<close>

theorem offered_tools_attenuated:
  assumes "dp_Skills dp = Some sk" and "range_order (ae_skills env) (skills sk)"
    and "skills sk name = Some s" and "sk_Trust s < trust_trusted"
    and "td \<in> set (build_llm_tools dp env)"
  shows "fs_Name (td_Function td) \<in> set read_only_tools"
proof -
  have "s \<in> set (skill_all (ae_skills env) sk)"
    using set_range_map [OF assms(2)] assms(3) by (force simp: skill_all_def)
  then have "at_Tools (attenuate_tools ts (skill_all (ae_skills env) sk)) =
      filter (\<lambda>t. fs_Name (td_Function t) \<in> set read_only_tools) ts" for ts
    using assms(4) attenuation_tools_restricted by blast
  with assms(1,5) show ?thesis
    by (auto simp: build_llm_tools_def Let_def split: option.splits)
qed

theorem offered_tools_attenuated_witness:
  "fs_Name (td_Function (tool_def (greeter\<lparr>t_Name := ''echo''\<rparr>))) \<in> set read_only_tools"
proof -
  let ?s = "\<lparr>sk_Manifest = \<lparr>mf_Name = ''s'', mf_Version = ''1'', mf_Description = [],
         mf_Activation = \<lparr>act_Keywords = [], act_ExcludeKeywords = [], act_Tags = [],
           act_Patterns = []\<rparr>,
         mf_Credentials = []\<rparr>, sk_Content = [], sk_Trust = trust_installed, sk_Source =
           SourceUser\<rparr>"
  let ?sk = "skill_register ?s new_skill_registry"
  let ?dp = "demo_deps\<lparr>dp_Skills := Some ?sk, dp_Tools := Some (register
    (greeter\<lparr>t_Name := ''echo''\<rparr>) new_registry)\<rparr>"
  let ?env = "demo_env\<lparr>ae_skills := [''s''], ae_tools := [''echo'']\<rparr>"
  have o: "range_order (ae_skills ?env) (skills ?sk)" "skills ?sk ''s'' = Some ?s" "sk_Trust ?s <
    trust_trusted"
    by (simp_all add: range_order_def skill_register_def skill_name_def new_skill_registry_def
        trust_installed_def trust_trusted_def)
  have "tool_def (greeter\<lparr>t_Name := ''echo''\<rparr>) \<in> set (build_llm_tools ?dp ?env)"
    by (simp add: build_llm_tools_def registry_list_def register_def new_registry_def range_map_def
        List.map_filter_def registry_get_def skill_all_def skill_register_def skill_name_def
        new_skill_registry_def attenuate_tools_def lower_trust_def trust_installed_def trust_trusted_def
        restrict_tools_def is_read_only_def read_only_tools_def tool_def_def Let_def)
  from offered_tools_attenuated [OF _ o this] show ?thesis by simp
qed

text \<open>
  C17: a new message of the user withdraws what was still waiting: when the thread has an interrupted
  execution, the model is asked only after that execution and an approval that has not been used
  are discarded.
\<close>

theorem new_message_discards_approval:
  assumes "open_thread env u st = (a, st0)" and "t = th_ID (thread_at a st0)"
    and "get_pending_execution (ae_now env) u t (st_session st0) = Some pe" and "content \<noteq>
      ''__resume__''"
  shows "\<exists>st1. run_llm dp env u content st = ask_llm dp env u a content st1 \<and>
    resolved (d_pendingStore (st_disp st1)) t = None \<and> pendingExecutions (st_session st1) t = None \<and>
    st_world st1 = st_world st0"
proof -
  let ?st1 = "st0\<lparr>st_session := clear_pending_execution u t (st_session st0),
      st_disp := (st_disp st0)\<lparr>d_pendingStore := ps_clear_resolved u t (d_pendingStore
        (st_disp st0))\<rparr>\<rparr>"
  have "run_llm dp env u content st = ask_llm dp env u a content ?st1"
    using assms by (simp add: run_llm_def Let_def)
  then show ?thesis
    by (intro exI [of _ ?st1]) (simp add: ps_clear_resolved_def store_key_def clear_pending_execution_def)
qed

theorem new_message_discards_approval_witness:
  "\<exists>st1. run_llm demo_deps demo_env ''u'' ''hi'' (demo_paused []) =
      ask_llm demo_deps demo_env ''u'' 0 ''hi'' st1 \<and> pendingExecutions (st_session st1) ''tid'' = None"
proof -
  have o: "open_thread demo_env ''u'' (demo_paused []) = (0, demo_paused [])"
    by (simp add: open_thread_def get_or_create_thread_def demo_paused_def demo_session_def Let_def)
  have i: "''tid'' = th_ID (thread_at 0 (demo_paused []))"
    by (simp add: thread_at_def demo_paused_def demo_session_def fresh_thread_def)
  have g: "get_pending_execution (ae_now demo_env) ''u'' ''tid'' (st_session (demo_paused [])) =
    Some demo_execution"
    by (simp add: get_pending_execution_def demo_paused_def demo_session_def demo_env_def demo_execution_def
        pe_is_expired_def)
  show ?thesis
    using new_message_discards_approval [OF o i g, of "''hi''" demo_deps] by auto
qed

text \<open>
  An approval is not tied to the call it was given for: whatever tool is called next on the thread,
  at any time, passes the gates with it.
\<close>

lemma approval_covers_any_tool:
  "resolved (d_pendingStore d) (jc_ThreadID j) \<noteq> None \<Longrightarrow> gate_result env n ps
    j d w = GatesPassed"
  by (simp add: gate_result_def)

end
