(* ===== verification/Workspace.thy ===== *)
theory Workspace
  imports Go_Prelude
begin

text \<open>
  The user workspaces (\<open>internal/workspace/workspace.go\<close>): how a user's relative path is resolved and
  checked, and the file operations on top of it. \<open>Clean\<close>, \<open>Join\<close> and \<open>Dir\<close> of package \<open>filepath\<close> are
  modelled for the slash-separated paths of Unix. The operating system is a record of the calls the
  code makes, over a file system state \<open>'f\<close> about which nothing is assumed.
\<close>

section \<open>Paths\<close>

definition dot :: string where "dot = ''.''"

definition dot_dot :: string where "dot_dot = ''..''"

abbreviation slash :: char where "slash \<equiv> CHR ''/''"

definition is_abs :: "string \<Rightarrow> bool" where
  "is_abs p = has_prefix p [slash]"

text \<open>
  \<open>Clean\<close> walks over the elements of a path with a stack of those kept: empty elements and dots are
  dropped, \<open>..\<close> removes the element before it, is dropped at the root, and is kept at the start of a
  relative path.
\<close>

fun clean_elems :: "bool \<Rightarrow> string list \<Rightarrow> string list \<Rightarrow> string list" where
  "clean_elems rooted acc [] = rev acc"
| "clean_elems rooted acc (e # es) =
     (if e = [] \<or> e = dot then clean_elems rooted acc es
      else if e = dot_dot then
        (case acc of
           [] \<Rightarrow> clean_elems rooted (if rooted then [] else [dot_dot]) es
         | a # rest \<Rightarrow> clean_elems rooted (if a = dot_dot then dot_dot # acc else rest) es)
      else clean_elems rooted (e # acc) es)"

definition path_elems :: "string \<Rightarrow> string list" where
  "path_elems p = clean_elems (is_abs p) [] (split_on slash p)"

definition render_path :: "bool \<Rightarrow> string list \<Rightarrow> string" where
  "render_path rooted es =
     (if rooted then slash # join [slash] es else if es = [] then dot else join [slash] es)"

definition clean :: "string \<Rightarrow> string" where
  "clean p = render_path (is_abs p) (path_elems p)"

fun join_path :: "string list \<Rightarrow> string" where
  "join_path [] = []"
| "join_path (e # es) = (if e \<noteq> [] then clean (join [slash] (e # es)) else join_path es)"

definition dir :: "string \<Rightarrow> string" where
  "dir p = clean (rev (dropWhile (\<lambda>c. c \<noteq> slash) (rev p)))"

section \<open>The workspace\<close>

record dir_entry =
  de_Name :: string
  de_IsDir :: bool
  de_Size :: int

record file_info =
  fi_IsDir :: bool
  fi_Size :: int

record os_entry =
  oe_Name :: string
  oe_IsDir :: bool
  oe_Info :: "string + file_info"

record 'f os_calls =
  os_Stat :: "string \<Rightarrow> 'f \<Rightarrow> string + file_info"
  os_ReadFile :: "string \<Rightarrow> 'f \<Rightarrow> string + string"
  os_MkdirAll :: "string \<Rightarrow> 'f \<Rightarrow> string option \<times> 'f"
  os_WriteFile :: "string \<Rightarrow> string \<Rightarrow> 'f \<Rightarrow> string option \<times> 'f"
  os_ReadDir :: "string \<Rightarrow> 'f \<Rightarrow> string + os_entry list"
  os_Remove :: "string \<Rightarrow> 'f \<Rightarrow> string option \<times> 'f"

record fs_workspace =
  baseDir :: string
  maxSize :: int

definition new_fs_workspace :: "string \<Rightarrow> fs_workspace" where
  "new_fs_workspace base = \<lparr>baseDir = base, maxSize = 10 * 1024 * 1024\<rparr>"

definition user_dir :: "fs_workspace \<Rightarrow> string \<Rightarrow> string" where
  "user_dir ws userID = join_path [baseDir ws, userID]"

text \<open>\<open>q\<close> is the quoting of the verb \<open>%q\<close>.\<close>

definition resolve_path :: "(string \<Rightarrow> string) \<Rightarrow> fs_workspace \<Rightarrow> string \<Rightarrow> string \<Rightarrow> string + string" where
  "resolve_path q ws userID relPath =
     (if contains relPath dot_dot
      then Inl (''path contains forbidden '' @ [CHR 0x27] @ ''..'' @ [CHR 0x27] @ '' segment: '' @ q relPath)
      else let userRoot = user_dir ws userID;
               absPath = clean (join_path [userRoot, relPath])
           in if \<not> has_prefix absPath userRoot
              then Inl (''path escapes user workspace: '' @ q relPath)
              else Inr absPath)"

definition ensure_user_dir :: "'f os_calls \<Rightarrow> fs_workspace \<Rightarrow> string \<Rightarrow> 'f \<Rightarrow> string option \<times> 'f" where
  "ensure_user_dir os ws userID f = os_MkdirAll os (user_dir ws userID) f"

definition path_required :: string where
  "path_required = ''path is required''"

definition ws_read_file ::
  "(string \<Rightarrow> string) \<Rightarrow> 'f os_calls \<Rightarrow> fs_workspace \<Rightarrow> string \<Rightarrow> string \<Rightarrow> 'f \<Rightarrow> string + string" where
  "ws_read_file q os ws userID path f =
     (if path = [] then Inl path_required
      else case resolve_path q ws userID path of
        Inl e \<Rightarrow> Inl e
      | Inr absPath \<Rightarrow>
          (case os_Stat os absPath f of
             Inl e \<Rightarrow> Inl (''stat file: '' @ e)
           | Inr info \<Rightarrow>
               if fi_IsDir info then Inl (''path is a directory: '' @ q path)
               else if fi_Size info > maxSize ws
               then Inl (''file too large: '' @ show_int (fi_Size info) @ '' bytes (max '' @
                      show_int (maxSize ws) @ '')'')
               else (case os_ReadFile os absPath f of
                       Inl e \<Rightarrow> Inl (''read file: '' @ e)
                     | Inr data \<Rightarrow> Inr data)))"

definition ws_write_file ::
  "(string \<Rightarrow> string) \<Rightarrow> 'f os_calls \<Rightarrow> fs_workspace \<Rightarrow> string \<Rightarrow> string \<Rightarrow> string \<Rightarrow> 'f \<Rightarrow>
   string option \<times> 'f" where
  "ws_write_file q os ws userID path data f =
     (if path = [] then (Some path_required, f)
      else case resolve_path q ws userID path of
        Inl e \<Rightarrow> (Some e, f)
      | Inr absPath \<Rightarrow>
          (case ensure_user_dir os ws userID f of
             (Some e, f1) \<Rightarrow> (Some (''ensure user dir: '' @ e), f1)
           | (None, f1) \<Rightarrow>
               (case os_MkdirAll os (dir absPath) f1 of
                  (Some e, f2) \<Rightarrow> (Some (''create parent dirs: '' @ e), f2)
                | (None, f2) \<Rightarrow>
                    (case os_WriteFile os absPath data f2 of
                       (Some e, f3) \<Rightarrow> (Some (''write file: '' @ e), f3)
                     | (None, f3) \<Rightarrow> (None, f3)))))"

definition entry_of :: "os_entry \<Rightarrow> dir_entry" where
  "entry_of e = \<lparr>de_Name = oe_Name e, de_IsDir = oe_IsDir e,
     de_Size = (case oe_Info e of Inl err \<Rightarrow> 0 | Inr info \<Rightarrow> fi_Size info)\<rparr>"

definition ws_list_dir ::
  "(string \<Rightarrow> string) \<Rightarrow> 'f os_calls \<Rightarrow> fs_workspace \<Rightarrow> string \<Rightarrow> string \<Rightarrow> 'f \<Rightarrow> string + dir_entry list" where
  "ws_list_dir q os ws userID path f =
     (case resolve_path q ws userID path of
        Inl e \<Rightarrow> Inl e
      | Inr absPath \<Rightarrow>
          (case os_ReadDir os absPath f of
             Inl e \<Rightarrow> Inl (''read dir: '' @ e)
           | Inr entries \<Rightarrow> Inr (map entry_of entries)))"

definition ws_delete_file ::
  "(string \<Rightarrow> string) \<Rightarrow> 'f os_calls \<Rightarrow> fs_workspace \<Rightarrow> string \<Rightarrow> string \<Rightarrow> 'f \<Rightarrow> string option \<times> 'f" where
  "ws_delete_file q os ws userID path f =
     (if path = [] then (Some path_required, f)
      else case resolve_path q ws userID path of
        Inl e \<Rightarrow> (Some e, f)
      | Inr absPath \<Rightarrow>
          (case os_Remove os absPath f of
             (Some e, f1) \<Rightarrow> (Some (''remove file: '' @ e), f1)
           | (None, f1) \<Rightarrow> (None, f1)))"

definition ws_mkdir ::
  "(string \<Rightarrow> string) \<Rightarrow> 'f os_calls \<Rightarrow> fs_workspace \<Rightarrow> string \<Rightarrow> string \<Rightarrow> 'f \<Rightarrow> string option \<times> 'f" where
  "ws_mkdir q os ws userID path f =
     (if path = [] then (Some path_required, f)
      else case resolve_path q ws userID path of
        Inl e \<Rightarrow> (Some e, f)
      | Inr absPath \<Rightarrow>
          (case os_MkdirAll os absPath f of
             (Some e, f1) \<Rightarrow> (Some (''mkdir: '' @ e), f1)
           | (None, f1) \<Rightarrow> (None, f1)))"

section \<open>Lemmas on paths\<close>

text \<open>An element that \<open>Clean\<close> keeps in place.\<close>

definition proper :: "string \<Rightarrow> bool" where
  "proper e \<longleftrightarrow> e \<noteq> [] \<and> e \<noteq> dot"

lemma dots [simp]: "dot \<noteq> []" "dot_dot \<noteq> []" "dot_dot \<noteq> dot" "dot \<noteq> dot_dot"
  by (simp_all add: dot_def dot_dot_def)

lemma clean_elems_append:
  "clean_elems r acc (xs @ ys) = clean_elems r (rev (clean_elems r acc xs)) ys"
  by (induction r acc xs rule: clean_elems.induct) (auto split: list.splits)

lemma clean_elems_plain:
  "dot_dot \<notin> set es \<Longrightarrow> clean_elems r acc es = rev acc @ filter proper es"
  by (induction r acc es rule: clean_elems.induct) (auto simp: proper_def)

lemma clean_elems_ups: "clean_elems False (replicate k dot_dot) (replicate n dot_dot) = replicate (n + k) dot_dot"
proof (induction n arbitrary: k)
  case (Suc n)
  have "clean_elems False (replicate k dot_dot) (dot_dot # replicate n dot_dot) =
      clean_elems False (replicate (Suc k) dot_dot) (replicate n dot_dot)"
    by (cases k) simp_all
  then show ?case using Suc [of "Suc k"] by simp
qed simp

text \<open>The form of the elements of a cleaned path, and of the stack that leads to them.\<close>

definition clean_form :: "bool \<Rightarrow> string list \<Rightarrow> bool" where
  "clean_form r es \<longleftrightarrow> (\<exists>n rest. es = replicate n dot_dot @ rest \<and> dot_dot \<notin> set rest \<and>
     list_all proper rest \<and> (r \<longrightarrow> n = 0))"

lemma clean_form_stable: "clean_form r es \<Longrightarrow> clean_elems r [] es = es"
proof -
  assume "clean_form r es"
  then obtain n rest where *: "es = replicate n dot_dot @ rest" "dot_dot \<notin> set rest" "list_all proper rest"
      "r \<longrightarrow> n = 0"
    by (auto simp: clean_form_def)
  have ups: "clean_elems r [] (replicate n dot_dot) = replicate n dot_dot"
    using clean_elems_ups [of 0 n] *(4) by (cases r) simp_all
  have "filter proper rest = rest"
    using *(3) by (simp add: list_all_iff filter_id_conv)
  with * ups show ?thesis
    by (simp add: clean_elems_append clean_elems_plain)
qed

lemma clean_form_snoc:
  "clean_form r es \<Longrightarrow> proper e \<Longrightarrow> e \<noteq> dot_dot \<Longrightarrow> clean_form r (es @ [e])"
  unfolding clean_form_def by (force simp: list_all_iff)

lemma clean_form_pop:
  assumes "clean_form r (es @ [a])" and "a \<noteq> dot_dot"
  shows "clean_form r es"
proof -
  obtain n rest where *: "es @ [a] = replicate n dot_dot @ rest" "dot_dot \<notin> set rest" "list_all proper rest"
      "r \<longrightarrow> n = 0"
    using assms(1) by (auto simp: clean_form_def)
  have "rest \<noteq> []"
  proof
    assume "rest = []"
    with *(1) have "a \<in> set (replicate n dot_dot)" by (metis append_Nil2 in_set_conv_decomp)
    with assms(2) show False by simp
  qed
  with * have "es = replicate n dot_dot @ butlast rest" "dot_dot \<notin> set (butlast rest)" "list_all proper (butlast rest)"
    by (metis butlast_append butlast_snoc) (use * in \<open>auto simp: list_all_iff dest: in_set_butlastD\<close>)
  with *(4) show ?thesis by (auto simp: clean_form_def)
qed

lemma clean_form_up:
  assumes "clean_form r (es @ [dot_dot])"
  shows "clean_form r (es @ [dot_dot, dot_dot])"
proof -
  obtain n rest where *: "es @ [dot_dot] = replicate n dot_dot @ rest" "dot_dot \<notin> set rest" "r \<longrightarrow> n = 0"
    using assms(1) by (auto simp: clean_form_def)
  have "rest = []"
  proof (rule ccontr)
    assume "rest \<noteq> []"
    with *(1) have "last rest = dot_dot" by (metis last_appendR last_snoc)
    with \<open>rest \<noteq> []\<close> *(2) show False by (metis last_in_set)
  qed
  with *(1) have eq: "es @ [dot_dot] = replicate n dot_dot" by simp
  then have n: "n = Suc (length es)" by (metis length_append_singleton length_replicate)
  have "es @ [dot_dot, dot_dot] = replicate n dot_dot @ [dot_dot]"
    using eq by (metis append.assoc append_Cons append_Nil)
  also have "\<dots> = replicate (Suc n) dot_dot"
    by (simp add: replicate_append_same)
  finally show ?thesis
    using *(3) n unfolding clean_form_def by (intro exI [of _ "Suc n"] exI [of _ "[]"]) simp
qed

lemma clean_elems_form: "clean_form r (rev acc) \<Longrightarrow> clean_form r (clean_elems r acc es)"
proof (induction r acc es rule: clean_elems.induct)
  case (2 r acc e es)
  show ?case
  proof (cases "e = dot_dot")
    case up: True
    show ?thesis
    proof (cases acc)
      case Nil
      have "clean_form r (rev (if r then [] else [dot_dot]))"
        using exI [of "\<lambda>n. [dot_dot] = replicate n dot_dot" 1]
        by (auto simp: clean_form_def intro: exI [of _ 0] exI [of _ 1])
      with 2 up Nil show ?thesis by simp
    next
      case (Cons a rest)
      with 2 up clean_form_pop [of r "rev rest" a] clean_form_up [of r "rev rest"] show ?thesis
        by (cases "a = dot_dot") auto
    qed
  next
    case False
    with 2 clean_form_snoc [of r "rev acc" e] show ?thesis by (auto simp: proper_def)
  qed
qed simp

lemma path_elems_form: "clean_form (is_abs p) (path_elems p)"
  unfolding path_elems_def
  by (rule clean_elems_form) (auto simp: clean_form_def intro: exI [of _ 0])

lemma clean_elems_set: "set (clean_elems r acc es) \<subseteq> set acc \<union> set es \<union> {dot_dot}"
  by (induction r acc es rule: clean_elems.induct) (auto split: list.splits if_splits)

lemma path_elems_no_slash: "e \<in> set (path_elems p) \<Longrightarrow> slash \<notin> set e"
  using clean_elems_set [of "is_abs p" "[]" "split_on slash p"] split_on_sep_free [of e slash p]
  by (auto simp: path_elems_def dot_dot_def)

lemma path_elems_nonempty: "e \<in> set (path_elems p) \<Longrightarrow> e \<noteq> [] \<and> e \<noteq> dot"
  using path_elems_form [of p] unfolding clean_form_def list_all_iff proper_def
  by (metis Un_iff dots(2,3) in_set_replicate set_append)

lemma split_on_nonempty [simp]: "split_on c a \<noteq> []"
  by (cases a) (auto split: list.splits)

lemma split_on_append: "split_on c (a @ c # b) = split_on c a @ split_on c b"
  by (induction a) (auto split: list.splits)

lemma split_on_plain: "c \<notin> set a \<Longrightarrow> split_on c a = [a]"
  by (induction a) auto

lemma split_on_join: "es \<noteq> [] \<Longrightarrow> \<forall>e \<in> set es. c \<notin> set e \<Longrightarrow> split_on c (join [c] es) = es"
proof (induction es rule: induct_list012)
  case (3 e e' es)
  then show ?case by (simp add: split_on_append split_on_plain)
qed (simp_all add: split_on_plain)

lemma is_abs_Cons [simp]: "is_abs (slash # p)" "is_abs [] = False"
  by (simp_all add: is_abs_def)

lemma is_abs_append [simp]: "p \<noteq> [] \<Longrightarrow> is_abs (p @ s) = is_abs p"
  by (cases p) (simp_all add: is_abs_def)

lemma clean_elems_skip: "clean_elems r acc ([] # es) = clean_elems r acc es"
  by simp

lemma join_no_lead: "es \<noteq> [] \<Longrightarrow> \<forall>e \<in> set es. e \<noteq> [] \<and> slash \<notin> set e \<Longrightarrow> \<not> is_abs (join [slash] es) \<and> join [slash] es \<noteq> []"
proof (induction es rule: induct_list012)
  case (2 e)
  then show ?case by (cases e) (auto simp: is_abs_def)
next
  case (3 e e' es)
  then show ?case by (cases e) (auto simp: is_abs_def)
qed simp

lemma path_elems_dot: "path_elems ''.'' = []"
  by (simp add: path_elems_def dot_def)

lemma is_abs_clean [simp]: "is_abs (clean p) = is_abs p"
  and path_elems_clean [simp]: "path_elems (clean p) = path_elems p"
  and clean_nonempty [simp]: "clean p \<noteq> []"
proof -
  let ?es = "path_elems p"
  have ne: "\<forall>e \<in> set ?es. e \<noteq> [] \<and> slash \<notin> set e"
    using path_elems_nonempty path_elems_no_slash by blast
  have stable: "clean_elems (is_abs p) [] ?es = ?es"
    using path_elems_form by (rule clean_form_stable)
  consider "is_abs p" "?es = []" | "is_abs p" "?es \<noteq> []" | "\<not> is_abs p" "?es = []" | "\<not> is_abs p" "?es \<noteq> []"
    by blast
  then have "is_abs (clean p) = is_abs p \<and> path_elems (clean p) = ?es \<and> clean p \<noteq> []"
  proof cases
    case 2
    then show ?thesis
      using stable split_on_join [of ?es slash] ne
      by (simp add: clean_def render_path_def path_elems_def [of "slash # _"])
  next
    case 4
    then show ?thesis
      using stable split_on_join [of ?es slash] ne join_no_lead [of ?es]
      by (simp add: clean_def render_path_def path_elems_def [of "join [slash] _"])
  qed (simp_all add: clean_def render_path_def path_elems_def [of "[slash]"] path_elems_dot is_abs_def dot_def)
  then show "is_abs (clean p) = is_abs p" "path_elems (clean p) = path_elems p" "clean p \<noteq> []" by blast+
qed

lemma clean_eq_iff: "clean p = clean p' \<longleftrightarrow> is_abs p = is_abs p' \<and> path_elems p = path_elems p'"
proof
  assume "clean p = clean p'"
  then have "is_abs (clean p) = is_abs (clean p')" "path_elems (clean p) = path_elems (clean p')" by simp_all
  then show "is_abs p = is_abs p' \<and> path_elems p = path_elems p'" by simp
qed (simp add: clean_def)

lemma clean_idem [simp]: "clean (clean p) = clean p"
  by (simp add: clean_eq_iff)

lemma join_infix: "e \<in> set es \<Longrightarrow> \<exists>u v. join sep es = u @ e @ v"
proof (induction es rule: induct_list012)
  case (3 w w' ws)
  show ?case
  proof (cases "e = w")
    case True
    then show ?thesis by (intro exI [of _ "[]"] exI [of _ "sep @ join sep (w' # ws)"]) simp
  next
    case False
    with 3 obtain u v where "join sep (w' # ws) = u @ e @ v" by auto
    then have "join sep (w # w' # ws) = (w @ sep @ u) @ e @ v" by simp
    then show ?thesis by blast
  qed
qed (auto intro: exI [of _ "[]"])

lemma no_up_element: "\<not> contains s dot_dot \<Longrightarrow> dot_dot \<notin> set (split_on slash s)"
  by (metis contains_iff join_infix join_split_on)

text \<open>Without \<open>..\<close> in it, a path joined to another adds its proper elements to those of the other.\<close>

lemma path_elems_join:
  assumes "base \<noteq> []" and "\<not> contains rel dot_dot"
  shows "path_elems (base @ slash # rel) = path_elems base @ filter proper (split_on slash rel)"
  using assms
  by (simp add: path_elems_def split_on_append clean_elems_append clean_elems_plain no_up_element)

lemma join_path_two: "base \<noteq> [] \<Longrightarrow> join_path [base, rel] = clean (base @ slash # rel)"
  by simp

lemma resolve_path_cases:
  assumes "resolve_path q ws u rel = Inr p"
  shows "p = clean (join_path [user_dir ws u, rel]) \<and> \<not> contains rel dot_dot \<and> has_prefix p (user_dir ws u)"
  using assms by (auto simp: resolve_path_def Let_def simp del: join_path.simps split: if_splits)

lemma resolve_path_elems:
  assumes "resolve_path q ws u rel = Inr p" and "user_dir ws u \<noteq> []"
  shows "is_abs p = is_abs (user_dir ws u) \<and>
    path_elems p = path_elems (user_dir ws u) @ filter proper (split_on slash rel) \<and> clean p = p"
  using resolve_path_cases [OF assms(1)] assms(2) path_elems_join [of "user_dir ws u" rel]
  by (simp add: join_path_two del: join_path.simps)

lemma user_dir_elems:
  assumes "baseDir ws \<noteq> []" and "slash \<notin> set u" and "u \<notin> {[], dot, dot_dot}"
  shows "path_elems (user_dir ws u) = path_elems (baseDir ws) @ [u] \<and> user_dir ws u \<noteq> []"
proof -
  have "split_on slash (baseDir ws @ slash # u) = split_on slash (baseDir ws) @ [u]"
    using assms(2) by (simp add: split_on_append split_on_plain)
  then have "path_elems (baseDir ws @ slash # u) = path_elems (baseDir ws) @ [u]"
    using assms(1,3) by (simp add: path_elems_def clean_elems_append)
  then show ?thesis
    using assms(1) by (simp add: user_dir_def)
qed

section \<open>Properties\<close>

text \<open>
  C12: a path that is accepted stays inside the workspace of its user: as a sequence of path elements
  it is the user's root directory followed by the proper elements of the given path, it is clean,
  and it is relative exactly when the root is.
\<close>

theorem resolved_path_confined:
  assumes "resolve_path q ws u rel = Inr p" and "user_dir ws u \<noteq> []"
  shows "path_elems p = path_elems (user_dir ws u) @ filter (\<lambda>e. e \<noteq> [] \<and> e \<noteq> ''.'') (split_on slash rel) \<and>
    is_abs p = is_abs (user_dir ws u) \<and> clean p = p \<and> has_prefix p (user_dir ws u)"
  using resolve_path_elems [OF assms] resolve_path_cases [OF assms(1)]
  unfolding proper_def [abs_def] dot_def by blast

theorem resolved_path_confined_witness:
  "path_elems ''/data/u/a/b.txt'' = path_elems ''/data/u'' @ [''a'', ''b.txt'']"
proof -
  let ?ws = "new_fs_workspace ''/data''"
  have "resolve_path id ?ws ''u'' ''a/./b.txt'' = Inr ''/data/u/a/b.txt''" "user_dir ?ws ''u'' = ''/data/u''"
    by code_simp+
  from resolved_path_confined [OF this(1)] this(2) show ?thesis
    by simp
qed

text \<open>
  C13: no two users share a file: with user names that are single path elements, a path accepted for
  one user is never a path accepted for another, whatever relative paths they ask for.
\<close>

theorem users_paths_disjoint:
  assumes "baseDir ws \<noteq> []" and "u \<noteq> v"
    and "slash \<notin> set u" and "u \<notin> {[], ''.'', ''..''}" and "slash \<notin> set v" and "v \<notin> {[], ''.'', ''..''}"
    and "resolve_path q ws u a = Inr p" and "resolve_path q ws v b = Inr p'"
  shows "p \<noteq> p'"
proof -
  have u: "path_elems (user_dir ws u) = path_elems (baseDir ws) @ [u]" "user_dir ws u \<noteq> []"
    using user_dir_elems [of ws u] assms by (simp_all add: dot_def dot_dot_def)
  have v: "path_elems (user_dir ws v) = path_elems (baseDir ws) @ [v]" "user_dir ws v \<noteq> []"
    using user_dir_elems [of ws v] assms by (simp_all add: dot_def dot_dot_def)
  have "path_elems p \<noteq> path_elems p'"
    using resolve_path_elems [OF assms(7) u(2)] resolve_path_elems [OF assms(8) v(2)] u(1) v(1) assms(2) by simp
  then show ?thesis by blast
qed

theorem users_paths_disjoint_witness: "''/data/u/x'' \<noteq> ''/data/v/x''"
proof -
  let ?ws = "new_fs_workspace ''/data''"
  have "resolve_path id ?ws ''u'' ''x'' = Inr ''/data/u/x''" "resolve_path id ?ws ''v'' ''x'' = Inr ''/data/v/x''"
    by code_simp+
  from users_paths_disjoint [OF _ _ _ _ _ _ this] show ?thesis
    by (simp add: new_fs_workspace_def)
qed

text \<open>
  Only the relative path is checked: a user name with \<open>..\<close> in it leads out of the base directory.
\<close>

lemma user_name_escapes_base:
  "resolve_path id (new_fs_workspace ''/data'') ''../etc'' ''passwd'' = Inr ''/etc/passwd''"
  by code_simp

text \<open>
  What is written is read back: when the operating system stores and reports what it was given,
  a file of at most the size limit that was written without an error is read back unchanged under
  the same name, and a larger one is refused.
\<close>

lemma workspace_write_read:
  assumes "\<And>p d f f'. os_WriteFile os p d f = (None, f') \<Longrightarrow>
      os_Stat os p f' = Inr \<lparr>fi_IsDir = False, fi_Size = int (length d)\<rparr> \<and> os_ReadFile os p f' = Inr d"
    and "ws_write_file q os ws u path data f = (None, f')"
  shows "ws_read_file q os ws u path f' =
    (if int (length data) \<le> maxSize ws then Inr data
     else Inl (''file too large: '' @ show_int (int (length data)) @ '' bytes (max '' @ show_int (maxSize ws) @ '')''))"
proof -
  obtain absPath f2 where "path \<noteq> []" "resolve_path q ws u path = Inr absPath"
      "os_WriteFile os absPath data f2 = (None, f')"
    using assms(2) by (auto simp: ws_write_file_def split: if_splits sum.splits prod.splits option.splits)
  with assms(1) [of absPath data f2 f'] show ?thesis
    by (simp add: ws_read_file_def)
qed

text \<open>A file system as a map from paths to contents, for the concrete instance of the property.\<close>

definition map_fs :: "(string \<rightharpoonup> string) os_calls" where
  "map_fs = \<lparr>os_Stat = (\<lambda>p f. case f p of None \<Rightarrow> Inl ''no such file''
                 | Some d \<Rightarrow> Inr \<lparr>fi_IsDir = False, fi_Size = int (length d)\<rparr>),
     os_ReadFile = (\<lambda>p f. case f p of None \<Rightarrow> Inl ''no such file'' | Some d \<Rightarrow> Inr d),
     os_MkdirAll = (\<lambda>p f. (None, f)), os_WriteFile = (\<lambda>p d f. (None, f(p \<mapsto> d))),
     os_ReadDir = (\<lambda>p f. Inr []), os_Remove = (\<lambda>p f. (None, f(p := None)))\<rparr>"

theorem workspace_write_read_witness:
  "ws_read_file id map_fs (new_fs_workspace ''/data'') ''u'' ''x'' [''/data/u/x'' \<mapsto> ''hi''] = Inr ''hi''"
proof -
  let ?ws = "new_fs_workspace ''/data''"
  have "resolve_path id ?ws ''u'' ''x'' = Inr ''/data/u/x''" by code_simp
  then have "ws_write_file id map_fs ?ws ''u'' ''x'' ''hi'' Map.empty = (None, [''/data/u/x'' \<mapsto> ''hi''])"
    by (simp add: ws_write_file_def ensure_user_dir_def map_fs_def)
  from workspace_write_read [OF _ this] show ?thesis
    by (simp add: map_fs_def new_fs_workspace_def)
qed

end
