(* ===== verification/Builtin_Tools.thy ===== *)
theory Builtin_Tools
  imports Tools Workspace
begin

text \<open>
  The built-in tools (\<open>internal/tools/builtin\<close>): echo, file, http, json, memory, shell and time, each
  as an instance of the tool interface. Their world has the data of the memory tool and the system
  outside, \<open>'f\<close>, which the calls of the operating system, the HTTP client and the shell act on; these,
  the JSON codec, the verbs \<open>%q\<close> and \<open>%v\<close> and the order of a range over a map are parameters.
\<close>

type_synonym memory_data = "string \<rightharpoonup> (string \<rightharpoonup> string)"

record 'f builtin_world =
  bw_data :: memory_data
  bw_sys :: 'f

definition fails :: "string \<Rightarrow> tool_output \<times> string option" where
  "fails msg = (empty_output, Some msg)"

definition returns :: "string \<Rightarrow> tool_output \<times> string option" where
  "returns s = (text_output s, None)"

definition quoted :: "string \<Rightarrow> string" where
  "quoted s = [CHR 0x27] @ s @ [CHR 0x27]"

text \<open>The JSON schemas of the parameters.\<close>

definition schema :: "params \<Rightarrow> string list \<Rightarrow> params" where
  "schema props required =
     [''type'' \<mapsto> JStr ''object'', ''properties'' \<mapsto> JObj props, ''required'' \<mapsto> JArr (map JStr required)]"

definition field_schema :: "string \<Rightarrow> string \<Rightarrow> jval" where
  "field_schema ty desc = JObj [''type'' \<mapsto> JStr ty, ''description'' \<mapsto> JStr desc]"

definition enum_prop :: "string list \<Rightarrow> string \<Rightarrow> jval" where
  "enum_prop vals desc =
     JObj [''type'' \<mapsto> JStr ''string'', ''enum'' \<mapsto> JArr (map JStr vals), ''description'' \<mapsto> JStr desc]"

section \<open>Echo\<close>

definition echo_execute :: "nil_params \<Rightarrow> tool_output \<times> string option" where
  "echo_execute ps =
     (case param_str_ok (the_params ps) ''message'' of
        None \<Rightarrow> fails (''parameter '' @ quoted ''message'' @ '' must be a string'')
      | Some msg \<Rightarrow> returns msg)"

definition echo_tool :: "'f builtin_world tool" where
  "echo_tool = \<lparr>t_Name = ''echo'', t_Description = ''Echoes back the input message.'',
     t_ParameterSchema = schema [''message'' \<mapsto> field_schema ''string'' ''The message to echo''] [''message''],
     t_Execute = (\<lambda>ps j w. (echo_execute ps, w)), t_RequiresApproval = (\<lambda>_. Never)\<rparr>"

section \<open>File\<close>

definition list_lines :: "dir_entry list \<Rightarrow> string list" where
  "list_lines es = map (\<lambda>e. (if de_IsDir e then utf8 [240, 159, 147, 129] else utf8 [240, 159, 147, 132]) @ '' '' @ de_Name e) es"

definition file_execute ::
  "(string \<Rightarrow> string) \<Rightarrow> 'f os_calls \<Rightarrow> fs_workspace \<Rightarrow> nil_params \<Rightarrow> job_context \<Rightarrow> 'f \<Rightarrow>
   (tool_output \<times> string option) \<times> 'f" where
  "file_execute q os wks ps j f =
     (let action = param_str (the_params ps) ''action''; path = param_str (the_params ps) ''path''; u = jc_UserID j
      in if path = [] then (fails (''parameter '' @ quoted ''path'' @ '' is required''), f)
         else if contains path ''..'' then (fails (''invalid path: must not contain '' @ quoted ''..''), f)
         else if action = ''read'' then
           (case ws_read_file q os wks u path f of
              Inl e \<Rightarrow> (fails (''read file: '' @ e), f)
            | Inr data \<Rightarrow> (returns data, f))
         else if action = ''write'' then
           (let content = param_str (the_params ps) ''content''
            in case ws_write_file q os wks u path content f of
                 (Some e, f') \<Rightarrow> (fails (''write file: '' @ e), f')
               | (None, f') \<Rightarrow> (returns (''Wrote '' @ show_int (int (length content)) @ '' bytes to '' @ path), f'))
         else if action = ''list'' then
           (case ws_list_dir q os wks u path f of
              Inl e \<Rightarrow> (fails (''list dir: '' @ e), f)
            | Inr es \<Rightarrow> (returns (join [CHR 0x0A] (list_lines es)), f))
         else if action = ''delete'' then
           (case ws_delete_file q os wks u path f of
              (Some e, f') \<Rightarrow> (fails (''delete file: '' @ e), f')
            | (None, f') \<Rightarrow> (returns (''Deleted '' @ path), f'))
         else if action = ''mkdir'' then
           (case ws_mkdir q os wks u path f of
              (Some e, f') \<Rightarrow> (fails (''mkdir: '' @ e), f')
            | (None, f') \<Rightarrow> (returns (''Created directory '' @ path), f'))
         else (fails (''unknown action: '' @ q action), f))"

definition file_approval :: "nil_params \<Rightarrow> approval_requirement" where
  "file_approval ps =
     (case ps of
        None \<Rightarrow> UnlessAutoApproved
      | Some m \<Rightarrow>
          let action = param_str m ''action''
          in if action = [] then UnlessAutoApproved
             else if action = ''write'' \<or> action = ''delete'' \<or> action = ''mkdir'' then UnlessAutoApproved
             else Never)"

definition file_tool :: "(string \<Rightarrow> string) \<Rightarrow> 'f os_calls \<Rightarrow> fs_workspace \<Rightarrow> 'f builtin_world tool" where
  "file_tool q os wks = \<lparr>t_Name = ''file'', t_Description = ''Reads or writes files in the workspace.'',
     t_ParameterSchema = schema
       [''action'' \<mapsto> enum_prop [''read'', ''write'', ''list'', ''delete'', ''mkdir''] ''File operation'',
        ''path'' \<mapsto> field_schema ''string'' ''File path (relative)'',
        ''content'' \<mapsto> field_schema ''string'' ''Content to write (for write action)''] [''action'', ''path''],
     t_Execute = (\<lambda>ps j w. case file_execute q os wks ps j (bw_sys w) of (r, f) \<Rightarrow> (r, w\<lparr>bw_sys := f\<rparr>)),
     t_RequiresApproval = file_approval\<rparr>"

section \<open>HTTP\<close>

text \<open>A response: the body is the data it delivers and the error, if any, that ends it instead of the end of file.\<close>

record http_response =
  hr_Status :: string
  hr_ContentLength :: int
  hr_Data :: string
  hr_ReadError :: "string option"

text \<open>
  The parts of \<open>net/url\<close> and \<open>net/http\<close> that the tool calls: the scheme of a parsed URL, the check of a
  new request, and the client.
\<close>

record 'f http_calls =
  hc_Scheme :: "string \<Rightarrow> string + string"
  hc_NewRequest :: "string \<Rightarrow> string \<Rightarrow> string option"
  hc_Do :: "string \<Rightarrow> string \<Rightarrow> string option \<Rightarrow> (string \<times> string) list \<Rightarrow> 'f \<Rightarrow> (string + http_response) \<times> 'f"

record http_tool_state =
  ht_maxBodySize :: int

definition new_http_tool :: http_tool_state where
  "new_http_tool = \<lparr>ht_maxBodySize = 5 * 1024 * 1024\<rparr>"

text \<open>\<open>io.ReadAll\<close>, through \<open>io.LimitReader\<close> when the announced length is over the limit.\<close>

definition read_all :: "http_tool_state \<Rightarrow> http_response \<Rightarrow> string + string" where
  "read_all h r =
     (let n = nat (ht_maxBodySize h)
      in if hr_ContentLength r > ht_maxBodySize h \<and> length (hr_Data r) \<ge> n then Inr (take n (hr_Data r))
         else case hr_ReadError r of Some e \<Rightarrow> Inl e | None \<Rightarrow> Inr (hr_Data r))"

definition request_headers :: "((string \<rightharpoonup> jval) \<Rightarrow> string list) \<Rightarrow> (jval \<Rightarrow> string) \<Rightarrow> params \<Rightarrow> (string \<times> string) list" where
  "request_headers order v ps =
     (case ps ''headers'' of
        Some (JObj hs) \<Rightarrow> map (\<lambda>(k, x). (k, v x)) (range_map (order hs) hs)
      | _ \<Rightarrow> [])"

definition http_execute ::
  "((string \<rightharpoonup> jval) \<Rightarrow> string list) \<Rightarrow> (jval \<Rightarrow> string) \<Rightarrow> 'f http_calls \<Rightarrow> http_tool_state \<Rightarrow> nil_params \<Rightarrow> 'f \<Rightarrow>
   (tool_output \<times> string option) \<times> 'f" where
  "http_execute order v hc h ps f =
     (let meth = param_str (the_params ps) ''method''; rawURL = param_str (the_params ps) ''url'';
          bodyStr = param_str (the_params ps) ''body''
      in if rawURL = [] then (fails (''parameter '' @ quoted ''url'' @ '' is required''), f)
         else case hc_Scheme hc rawURL of
           Inl e \<Rightarrow> (fails (''invalid URL: '' @ e), f)
         | Inr scheme \<Rightarrow>
             if scheme \<noteq> ''http'' \<and> scheme \<noteq> ''https'' then (fails ''only http/https URLs are allowed'', f)
             else case hc_NewRequest hc meth rawURL of
               Some e \<Rightarrow> (fails (''create request: '' @ e), f)
             | None \<Rightarrow>
                 (case hc_Do hc meth rawURL (if bodyStr \<noteq> [] then Some bodyStr else None)
                         (request_headers order v (the_params ps)) f of
                    (Inl e, f') \<Rightarrow> (fails (''do request: '' @ e), f')
                  | (Inr resp, f') \<Rightarrow>
                      (case read_all h resp of
                         Inl e \<Rightarrow> (fails (''read response: '' @ e), f')
                       | Inr data \<Rightarrow>
                           (returns (''Status: '' @ hr_Status resp @ [CHR 0x0A, CHR 0x0A] @ data), f'))))"

definition http_approval :: "nil_params \<Rightarrow> approval_requirement" where
  "http_approval ps =
     (case ps of
        None \<Rightarrow> UnlessAutoApproved
      | Some m \<Rightarrow>
          let meth = param_str m ''method''
          in if meth = [] then UnlessAutoApproved
             else if meth \<noteq> ''GET'' \<and> meth \<noteq> ''HEAD'' then UnlessAutoApproved
             else Never)"

definition http_tool ::
  "((string \<rightharpoonup> jval) \<Rightarrow> string list) \<Rightarrow> (jval \<Rightarrow> string) \<Rightarrow> 'f http_calls \<Rightarrow> http_tool_state \<Rightarrow> 'f builtin_world tool" where
  "http_tool order v hc h = \<lparr>t_Name = ''http'', t_Description = ''Makes HTTP requests to external APIs.'',
     t_ParameterSchema = schema
       [''method'' \<mapsto> enum_prop [''GET'', ''POST'', ''PUT'', ''DELETE'', ''PATCH''] ''HTTP method'',
        ''url'' \<mapsto> field_schema ''string'' ''Request URL'',
        ''headers'' \<mapsto> field_schema ''object'' ''Optional headers as key-value pairs'',
        ''body'' \<mapsto> field_schema ''string'' ''Request body (for POST/PUT/PATCH)''] [''method'', ''url''],
     t_Execute = (\<lambda>ps j w. case http_execute order v hc h ps (bw_sys w) of (r, f) \<Rightarrow> (r, w\<lparr>bw_sys := f\<rparr>)),
     t_RequiresApproval = http_approval\<rparr>"

section \<open>JSON\<close>

record json_codec =
  jx_Unmarshal :: "string \<Rightarrow> string + jval"
  jx_Marshal :: "jval \<Rightarrow> string + string"
  jx_MarshalIndent :: "jval \<Rightarrow> string + string"

definition json_execute :: "(string \<Rightarrow> string) \<Rightarrow> json_codec \<Rightarrow> nil_params \<Rightarrow> tool_output \<times> string option" where
  "json_execute ucase jx ps =
     (case jx_Unmarshal jx (param_str (the_params ps) ''input'') of
        Inl e \<Rightarrow> fails (''invalid JSON: '' @ e)
      | Inr raw \<Rightarrow>
          (case (if to_lower ucase (param_str (the_params ps) ''mode'') = ''prettify''
                 then jx_MarshalIndent jx raw else jx_Marshal jx raw) of
             Inl e \<Rightarrow> fails e
           | Inr out \<Rightarrow> returns out))"

definition json_tool :: "(string \<Rightarrow> string) \<Rightarrow> json_codec \<Rightarrow> 'f builtin_world tool" where
  "json_tool ucase jx = \<lparr>t_Name = ''json'', t_Description = ''Minify or prettify JSON.'',
     t_ParameterSchema = schema
       [''input'' \<mapsto> JObj [''type'' \<mapsto> JStr ''string''],
        ''mode'' \<mapsto> JObj [''type'' \<mapsto> JStr ''string'', ''enum'' \<mapsto> JArr [JStr ''minify'', JStr ''prettify'']]]
       [''input'', ''mode''],
     t_Execute = (\<lambda>ps j w. (json_execute ucase jx ps, w)), t_RequiresApproval = (\<lambda>_. Never)\<rparr>"

section \<open>Memory\<close>

definition mem_namespace :: "params \<Rightarrow> job_context \<Rightarrow> string" where
  "mem_namespace ps j =
     (let ns = (if param_str ps ''namespace'' = [] then ''default'' else param_str ps ''namespace'')
      in if jc_UserID j \<noteq> [] then jc_UserID j @ ''/'' @ ns else ns)"

definition mem_get :: "string \<Rightarrow> string \<Rightarrow> memory_data \<Rightarrow> tool_output \<times> string option" where
  "mem_get ns key d =
     (let val = (case d ns of None \<Rightarrow> [] | Some m \<Rightarrow> (case m key of None \<Rightarrow> [] | Some v \<Rightarrow> v))
      in if d ns = None \<or> val = []
         then returns (''Key '' @ quoted key @ '' not found in namespace '' @ quoted ns)
         else returns val)"

definition mem_set :: "string \<Rightarrow> string \<Rightarrow> string \<Rightarrow> memory_data \<Rightarrow> memory_data" where
  "mem_set ns key val d = d(ns \<mapsto> (case d ns of None \<Rightarrow> Map.empty | Some m \<Rightarrow> m)(key \<mapsto> val))"

definition mem_delete :: "string \<Rightarrow> string \<Rightarrow> memory_data \<Rightarrow> memory_data" where
  "mem_delete ns key d = (case d ns of None \<Rightarrow> d | Some m \<Rightarrow> d(ns \<mapsto> m(key := None)))"

definition mem_list :: "((string \<rightharpoonup> string) \<Rightarrow> string list) \<Rightarrow> string \<Rightarrow> memory_data \<Rightarrow> tool_output \<times> string option" where
  "mem_list order ns d =
     (case d ns of
        None \<Rightarrow> returns (''Namespace '' @ quoted ns @ '' is empty'')
      | Some m \<Rightarrow>
          if map_len m = 0 then returns (''Namespace '' @ quoted ns @ '' is empty'')
          else returns (join [CHR 0x0A] (map (\<lambda>(k, v). k @ '' = '' @ v) (range_map (order m) m))))"

definition memory_execute ::
  "(string \<Rightarrow> string) \<Rightarrow> ((string \<rightharpoonup> string) \<Rightarrow> string list) \<Rightarrow> nil_params \<Rightarrow> job_context \<Rightarrow> memory_data \<Rightarrow>
   (tool_output \<times> string option) \<times> memory_data" where
  "memory_execute q order nps j d =
     (let ps = the_params nps; action = param_str ps ''action''; ns = mem_namespace ps j;
          key = param_str ps ''key''; val = param_str ps ''value''
      in if action = ''get'' then
           (if key = [] then fails (''parameter '' @ quoted ''key'' @ '' is required for get'')
            else mem_get ns key d, d)
         else if action = ''set'' then
           (if key = [] then (fails (''parameter '' @ quoted ''key'' @ '' is required for set''), d)
            else (returns (''Set '' @ quoted key @ '' = '' @ quoted val @ '' in '' @ quoted ns), mem_set ns key val d))
         else if action = ''delete'' then
           (if key = [] then (fails (''parameter '' @ quoted ''key'' @ '' is required for delete''), d)
            else (returns (''Deleted '' @ quoted key @ '' from '' @ quoted ns), mem_delete ns key d))
         else if action = ''list'' then (mem_list order ns d, d)
         else (fails (''unknown action: '' @ q action), d))"

definition memory_approval :: "nil_params \<Rightarrow> approval_requirement" where
  "memory_approval ps =
     (case ps of
        None \<Rightarrow> UnlessAutoApproved
      | Some m \<Rightarrow>
          let action = param_str m ''action''
          in if action = [] then UnlessAutoApproved
             else if action = ''set'' \<or> action = ''delete'' then UnlessAutoApproved
             else Never)"

definition memory_tool :: "(string \<Rightarrow> string) \<Rightarrow> ((string \<rightharpoonup> string) \<Rightarrow> string list) \<Rightarrow> 'f builtin_world tool" where
  "memory_tool q order = \<lparr>t_Name = ''memory'',
     t_Description = ''Stores and retrieves key-value data in a workspace namespace.'',
     t_ParameterSchema = schema
       [''action'' \<mapsto> enum_prop [''get'', ''set'', ''delete'', ''list''] ''Memory operation'',
        ''namespace'' \<mapsto> field_schema ''string'' (''Data namespace (default: '' @ quoted ''default'' @ '')''),
        ''key'' \<mapsto> field_schema ''string'' ''Key to operate on'',
        ''value'' \<mapsto> field_schema ''string'' ''Value to store (for set action)''] [''action''],
     t_Execute = (\<lambda>ps j w. case memory_execute q order ps j (bw_data w) of (r, d) \<Rightarrow> (r, w\<lparr>bw_data := d\<rparr>)),
     t_RequiresApproval = memory_approval\<rparr>"

section \<open>Shell\<close>

record shell_state =
  sh_allowedCommands :: "string list"
  sh_maxOutputLen :: int

definition new_shell_tool :: shell_state where
  "new_shell_tool = \<lparr>sh_allowedCommands = [], sh_maxOutputLen = 10000\<rparr>"

definition dangerous :: "string list" where
  "dangerous = [''rm -rf /'', '':(){ :|:& };:'', ''> /dev/sda'', ''dd if=/dev/zero'']"

text \<open>\<open>int(t)\<close> of a float truncates.\<close>

definition trunc :: "rat \<Rightarrow> int" where
  "trunc x = (if x < 0 then - floor (- x) else floor x)"

definition timeout_sec :: "params \<Rightarrow> int" where
  "timeout_sec ps = (case ps ''timeout'' of Some (JNum t) \<Rightarrow> trunc t | _ \<Rightarrow> 30)"

definition clip_output :: "shell_state \<Rightarrow> string \<Rightarrow> string option" where
  "clip_output s content =
     (if int (length content) > sh_maxOutputLen s
      then map_option (\<lambda>c. c @ [CHR 0x0A] @ ''... (truncated)'') (slice content 0 (sh_maxOutputLen s))
      else Some content)"

text \<open>
  The command runs under \<open>sh -c\<close> with a time limit: \<open>run\<close> gives its combined output and the error, if
  any. A negative output limit would make the slice panic, which is \<^const>\<open>None\<close>; with the limit of
  \<open>NewShellTool\<close> it never does.
\<close>

definition shell_execute ::
  "(string \<Rightarrow> string) \<Rightarrow> (duration \<Rightarrow> string \<Rightarrow> 'f \<Rightarrow> (string \<times> string option) \<times> 'f) \<Rightarrow> shell_state \<Rightarrow> nil_params \<Rightarrow> 'f \<Rightarrow>
   (tool_output \<times> string option) option \<times> 'f" where
  "shell_execute ucase run_cmd s nps f =
     (let ps = the_params nps
      in case param_str_ok ps ''command'' of
           None \<Rightarrow> (Some (fails (''parameter '' @ quoted ''command'' @ '' must be a non-empty string'')), f)
         | Some cmdStr \<Rightarrow>
             if trim_space cmdStr = []
             then (Some (fails (''parameter '' @ quoted ''command'' @ '' must be a non-empty string'')), f)
             else case find (\<lambda>d. contains (to_lower ucase cmdStr) d) dangerous of
               Some d \<Rightarrow> (Some (fails (''dangerous command blocked: '' @ d)), f)
             | None \<Rightarrow>
                 (case run_cmd (int64 (timeout_sec ps * second)) cmdStr f of
                    ((out, err), f') \<Rightarrow>
                      (map_option returns
                         (clip_output s (case err of
                            None \<Rightarrow> out
                          | Some e \<Rightarrow> ''Error: '' @ e @ [CHR 0x0A] @ ''Output:'' @ [CHR 0x0A] @ out)), f')))"

definition shell_tool ::
  "(string \<Rightarrow> string) \<Rightarrow> (duration \<Rightarrow> string \<Rightarrow> 'f \<Rightarrow> (string \<times> string option) \<times> 'f) \<Rightarrow> 'f builtin_world tool" where
  "shell_tool ucase run_cmd = \<lparr>t_Name = ''shell'', t_Description = ''Executes a shell command and returns the output.'',
     t_ParameterSchema = schema
       [''command'' \<mapsto> field_schema ''string'' ''The shell command to execute'',
        ''timeout'' \<mapsto> field_schema ''integer'' ''Timeout in seconds (default 30)''] [''command''],
     t_Execute = (\<lambda>ps j w. case shell_execute ucase run_cmd new_shell_tool ps (bw_sys w) of
        (r, f) \<Rightarrow> (case r of None \<Rightarrow> fails [] | Some x \<Rightarrow> x, w\<lparr>bw_sys := f\<rparr>)),
     t_RequiresApproval = (\<lambda>_. UnlessAutoApproved)\<rparr>"

section \<open>Time\<close>

definition time_tool :: "('f \<Rightarrow> string) \<Rightarrow> 'f builtin_world tool" where
  "time_tool now_text = \<lparr>t_Name = ''time'', t_Description = ''Returns the current UTC time.'',
     t_ParameterSchema = [''type'' \<mapsto> JStr ''object'', ''properties'' \<mapsto> JObj Map.empty],
     t_Execute = (\<lambda>ps j w. (returns (now_text (bw_sys w)), w)), t_RequiresApproval = (\<lambda>_. Never)\<rparr>"

section \<open>Lemmas\<close>

lemma clip_output_bound:
  assumes "0 \<le> sh_maxOutputLen s"
  shows "\<exists>c. clip_output s content = Some c \<and> int (length c) \<le> sh_maxOutputLen s + 16"
  using assms by (auto simp: clip_output_def slice_def)

lemma mem_other_namespace:
  assumes "ns' \<noteq> ns"
  shows "mem_set ns k v d ns' = d ns'" and "mem_delete ns k d ns' = d ns'"
  using assms by (simp_all add: mem_set_def mem_delete_def split: option.splits)

lemma mem_namespace_user:
  assumes "jc_UserID j \<noteq> []"
  shows "\<exists>ns. mem_namespace ps j = jc_UserID j @ ''/'' @ ns"
  using assms by (simp add: mem_namespace_def Let_def)

lemma memory_execute_frame:
  assumes "ns \<noteq> mem_namespace (the_params nps) j"
  shows "snd (memory_execute q order nps j d) ns = d ns"
  using assms by (simp add: memory_execute_def Let_def mem_other_namespace)

lemma memory_execute_reads:
  "param_str ps ''action'' = ''get'' \<Longrightarrow> memory_execute q order (Some ps) j d =
     (if param_str ps ''key'' = [] then fails (''parameter '' @ quoted ''key'' @ '' is required for get'')
      else mem_get (mem_namespace ps j) (param_str ps ''key'') d, d)"
  "param_str ps ''action'' = ''list'' \<Longrightarrow> memory_execute q order (Some ps) j d =
     (mem_list order (mem_namespace ps j) d, d)"
  by (simp_all add: memory_execute_def the_params_def)

lemma memory_view_cong:
  assumes "d ns = d' ns"
  shows "mem_get ns k d = mem_get ns k d'" and "mem_list order ns d = mem_list order ns d'"
  using assms by (simp_all add: mem_get_def mem_list_def)

text \<open>A job context, for the concrete instances of the properties.\<close>

definition job_of :: "string \<Rightarrow> job_context" where
  "job_of u = \<lparr>jc_UserID = u, jc_JobID = [], jc_ThreadID = []\<rparr>"

lemma memory_reads_cong:
  assumes "d (mem_namespace ps j) = d' (mem_namespace ps j)" and "param_str ps ''action'' \<in> {''get'', ''list''}"
  shows "fst (memory_execute q order (Some ps) j d) = fst (memory_execute q order (Some ps) j d')"
proof -
  consider "param_str ps ''action'' = ''get''" | "param_str ps ''action'' = ''list''"
    using assms(2) by blast
  then show ?thesis
    by cases (simp_all only: memory_execute_reads memory_view_cong [of d "mem_namespace ps j" d', OF assms(1)] fst_conv)
qed

section \<open>Properties\<close>

text \<open>
  C14: a call that needs no approval changes nothing: whenever the echo, json, time, file or memory
  tool asks for no approval of its parameters, executing it with them leaves the stored data and the
  file system as they were.
\<close>

theorem unapproved_calls_read_only:
  assumes "t \<in> {echo_tool, json_tool ucase jx, time_tool now_text, file_tool q os wks, memory_tool q order}"
    and "t_RequiresApproval t ps = Never"
  shows "snd (t_Execute t ps j w) = w"
proof -
  have "snd (file_execute q os wks ps j f) = f" if "file_approval ps = Never" for f
    using that
    by (auto simp: file_approval_def file_execute_def the_params_def Let_def split: option.splits if_splits sum.splits)
  moreover have "snd (memory_execute q order ps j d) = d" if "memory_approval ps = Never" for d
    using that
    by (auto simp: memory_approval_def memory_execute_def the_params_def Let_def split: option.splits if_splits)
  ultimately show ?thesis
    using assms
    by (auto simp: echo_tool_def json_tool_def time_tool_def file_tool_def memory_tool_def split_def)
qed

theorem unapproved_calls_read_only_witness:
  "snd (t_Execute (memory_tool id (\<lambda>_. [])) (Some [''action'' \<mapsto> JStr ''get'', ''key'' \<mapsto> JStr ''k'']) (job_of ''u'')
      \<lparr>bw_data = Map.empty, bw_sys = ()\<rparr>) = \<lparr>bw_data = Map.empty, bw_sys = ()\<rparr>"
proof -
  have "t_RequiresApproval (memory_tool id (\<lambda>_. []) :: unit builtin_world tool)
      (Some [''action'' \<mapsto> JStr ''get'', ''key'' \<mapsto> JStr ''k'']) = Never"
    by (simp add: memory_tool_def memory_approval_def)
  then show ?thesis
    by (rule unapproved_calls_read_only [rotated]) blast
qed

text \<open>
  C30: the memory tool keeps users apart: with user names that are not empty and have no slash, no
  call of one user changes the answer to any get or list of another; and a non-empty value that a
  user has set is what the same user gets for that key and namespace.
\<close>

theorem memory_tool_isolates_users:
  assumes "jc_UserID i \<noteq> []" and "CHR ''/'' \<notin> set (jc_UserID i)"
    and "jc_UserID j \<noteq> []" and "CHR ''/'' \<notin> set (jc_UserID j)" and "jc_UserID i \<noteq> jc_UserID j"
    and "param_str ps ''action'' \<in> {''get'', ''list''}" and "k \<noteq> []" and "v \<noteq> []"
  shows "fst (memory_execute q order (Some ps) j (snd (memory_execute q order nps i d))) =
      fst (memory_execute q order (Some ps) j d) \<and>
    fst (memory_execute q order
        (Some [''action'' \<mapsto> JStr ''get'', ''namespace'' \<mapsto> JStr ns, ''key'' \<mapsto> JStr k]) i
        (snd (memory_execute q order
          (Some [''action'' \<mapsto> JStr ''set'', ''namespace'' \<mapsto> JStr ns, ''key'' \<mapsto> JStr k, ''value'' \<mapsto> JStr v]) i d))) =
      (text_output v, None)"
proof -
  obtain ns1 ns2 where n: "mem_namespace (the_params nps) i = jc_UserID i @ ''/'' @ ns1"
      "mem_namespace ps j = jc_UserID j @ ''/'' @ ns2"
    using mem_namespace_user assms(1,3) by metis
  have "mem_namespace ps j \<noteq> mem_namespace (the_params nps) i"
    unfolding n using sep_key_inject assms(2,4,5) by metis
  then have "snd (memory_execute q order nps i d) (mem_namespace ps j) = d (mem_namespace ps j)"
    by (rule memory_execute_frame)
  then have "fst (memory_execute q order (Some ps) j (snd (memory_execute q order nps i d))) =
      fst (memory_execute q order (Some ps) j d)"
    using assms(6) by (rule memory_reads_cong)
  moreover have "fst (memory_execute q order
        (Some [''action'' \<mapsto> JStr ''get'', ''namespace'' \<mapsto> JStr ns, ''key'' \<mapsto> JStr k]) i
        (snd (memory_execute q order
          (Some [''action'' \<mapsto> JStr ''set'', ''namespace'' \<mapsto> JStr ns, ''key'' \<mapsto> JStr k, ''value'' \<mapsto> JStr v]) i d))) =
      (text_output v, None)"
    using assms(7,8)
    by (simp add: memory_execute_def the_params_def param_str_def mem_namespace_def mem_get_def mem_set_def
        returns_def Let_def)
  ultimately show ?thesis by (rule conjI)
qed

theorem memory_tool_isolates_users_witness:
  "fst (memory_execute id (\<lambda>_. []) (Some [''action'' \<mapsto> JStr ''get'', ''key'' \<mapsto> JStr ''k'']) (job_of ''v'')
      (snd (memory_execute id (\<lambda>_. [])
        (Some [''action'' \<mapsto> JStr ''set'', ''key'' \<mapsto> JStr ''k'', ''value'' \<mapsto> JStr ''1'']) (job_of ''u'') Map.empty))) =
   fst (memory_execute id (\<lambda>_. []) (Some [''action'' \<mapsto> JStr ''get'', ''key'' \<mapsto> JStr ''k'']) (job_of ''v'') Map.empty)"
  by (rule memory_tool_isolates_users [where k = "''k''" and v = "''1''", THEN conjunct1]) (simp_all add: job_of_def)

text \<open>
  A command that contains one of the blocked phrases, in any case, is never run: the tool answers
  with an error and the system is untouched; and whatever runs, the answer is at most 10016 bytes.
\<close>

lemma shell_guard:
  "\<exists>r f'. shell_execute ucase run_cmd new_shell_tool nps f = (Some r, f') \<and> length (to_Content (fst r)) \<le> 10016 \<and>
    (\<forall>cmd. param_str_ok (the_params nps) ''command'' = Some cmd \<longrightarrow>
       list_ex (contains (to_lower ucase cmd)) dangerous \<longrightarrow> f' = f \<and> (\<exists>e. snd r = Some e))"
proof -
  have clip: "\<exists>c. clip_output new_shell_tool content = Some c \<and> length c \<le> 10016" for content
    using clip_output_bound [of new_shell_tool content] by (simp add: new_shell_tool_def)
  show ?thesis
  proof (cases "param_str_ok (the_params nps) ''command''")
    case None
    then show ?thesis by (simp add: shell_execute_def fails_def empty_output_def)
  next
    case (Some cmd)
    show ?thesis
    proof (cases "trim_space cmd = []")
      case True
      with Some show ?thesis by (simp add: shell_execute_def fails_def empty_output_def)
    next
      case False
      show ?thesis
      proof (cases "find (\<lambda>d. contains (to_lower ucase cmd) d) dangerous")
        case None
        then have "\<not> list_ex (contains (to_lower ucase cmd)) dangerous"
          by (auto simp: find_None_iff list_ex_iff)
        moreover obtain out err f' where
          "run_cmd (int64 (timeout_sec (the_params nps) * second)) cmd f = ((out, err), f')"
          by (metis prod.exhaust)
        moreover obtain c where "clip_output new_shell_tool (case err of None \<Rightarrow> out
            | Some e \<Rightarrow> ''Error: '' @ e @ [CHR 0x0A] @ ''Output:'' @ [CHR 0x0A] @ out) = Some c" "length c \<le> 10016"
          using clip by blast
        ultimately show ?thesis
          using None Some False by (simp add: shell_execute_def Let_def returns_def text_output_def)
      qed (use Some False in \<open>simp add: shell_execute_def Let_def fails_def empty_output_def\<close>)
    qed
  qed
qed

theorem shell_guard_witness:
  "\<exists>r e. shell_execute id (\<lambda>t c f. ((''ran'', None), Suc f)) new_shell_tool
      (Some [''command'' \<mapsto> JStr ''sudo rm -rf /'']) 0 = (Some r, 0) \<and> snd r = Some e"
proof -
  let ?nps = "Some [''command'' \<mapsto> JStr ''sudo rm -rf /'']"
  have "param_str_ok (the_params ?nps) ''command'' = Some ''sudo rm -rf /''"
    by (simp add: param_str_ok_def the_params_def)
  moreover have "list_ex (contains (to_lower id ''sudo rm -rf /'')) dangerous" by code_simp
  moreover obtain r f' where "shell_execute id (\<lambda>t c f. ((''ran'', None), Suc f)) new_shell_tool ?nps 0 = (Some r, f')"
      "\<forall>cmd. param_str_ok (the_params ?nps) ''command'' = Some cmd \<longrightarrow>
         list_ex (contains (to_lower id cmd)) dangerous \<longrightarrow> f' = 0 \<and> (\<exists>e. snd r = Some e)"
    using shell_guard [of id "\<lambda>t c f. ((''ran'', None), Suc f)" ?nps 0] by auto
  ultimately show ?thesis by blast
qed

text \<open>
  The size limit of a response applies only when its length is announced: a body of unknown length
  is read to its end.
\<close>

lemma unannounced_body_unlimited:
  "hr_ContentLength r = - 1 \<Longrightarrow> hr_ReadError r = None \<Longrightarrow> read_all new_http_tool r = Inr (hr_Data r)"
  by (simp add: read_all_def new_http_tool_def)

text \<open>An empty value cannot be told from a missing key.\<close>

lemma empty_value_reads_as_missing:
  "mem_get ns k (mem_set ns k [] d) = returns (''Key '' @ quoted k @ '' not found in namespace '' @ quoted ns)"
  by (simp add: mem_get_def mem_set_def Let_def)

end
