(* ===== verification/Worker.thy ===== *)
theory Worker
  imports Tools
begin

text \<open>
  The background worker pool (\<open>internal/worker/worker.go\<close>): submission, polling and the execution of
  a job through the dispatcher. A job runs in a goroutine of its own; its three accesses to the
  database and its dispatch are the steps \<open>job_begin\<close>, \<open>job_dispatch\<close> and \<open>job_end\<close>, which other jobs
  may interleave with, and \<open>run_job\<close> is their sequence. \<open>Start\<close>, \<open>Stop\<close> and the ticker only decide when a
  poll happens and how much of it is started.
\<close>

section \<open>Identifiers\<close>

text \<open>The counter of \<open>generateID\<close> is guarded by its own mutex; \<open>now\<close> is the clock in seconds.\<close>

definition generate_id :: "int \<Rightarrow> int \<Rightarrow> string \<times> int" where
  "generate_id now counter =
     (''job_'' @ show_int now @ ''_'' @ show_int (counter + 1), counter + 1)"

section \<open>The pool\<close>

record pool_config =
  pc_maxWorkers :: int
  pc_interval :: duration

definition new_pool :: "int \<Rightarrow> pool_config" where
  "new_pool maxWorkers = \<lparr>pc_maxWorkers = (if maxWorkers \<le> 0 then 1 else maxWorkers), pc_interval = 5 * second\<rparr>"

definition set_interval :: "duration \<Rightarrow> pool_config \<Rightarrow> pool_config" where
  "set_interval d p = p\<lparr>pc_interval := d\<rparr>"

record ('d, 'w) pool_state =
  pl_db :: 'd
  pl_disp :: "'w dispatcher"
  pl_world :: 'w
  pl_counter :: int
  pl_audits :: "audit_call list"

text \<open>
  A poll: the jobs it starts, in order. The semaphore makes it wait for a free worker before each one,
  and a stop leaves the rest; \<open>started\<close> is how many it gets to. \<^const>\<open>None\<close> is a panic of the database.
\<close>

definition poll_jobs :: "'d database \<Rightarrow> string list \<Rightarrow> nat \<Rightarrow> 'd \<Rightarrow> job list option" where
  "poll_jobs db ks started d =
     (case db_ListJobs db ks [] 100 0 d of
        None \<Rightarrow> None
      | Some (Inl e) \<Rightarrow> Some []
      | Some (Inr js) \<Rightarrow> Some (take started (filter (\<lambda>j. job_Status j = ''pending'') js)))"

definition job_begin :: "'d database \<Rightarrow> instant \<Rightarrow> job \<Rightarrow> ('d, 'w) pool_state \<Rightarrow> string option \<times> ('d, 'w) pool_state" where
  "job_begin db now j st =
     (case db_UpdateJobStatus db now (job_ID j) ''running'' [] [] (pl_db st) of
        (e, d) \<Rightarrow> (e, st\<lparr>pl_db := d\<rparr>))"

text \<open>An input that is empty, null or not a JSON object gives the empty parameter map.\<close>

definition job_params :: "(string \<Rightarrow> string + params option) \<Rightarrow> job \<Rightarrow> nil_params" where
  "job_params unmarshal j =
     (if job_Input j = [] then Some Map.empty
      else case unmarshal (job_Input j) of
             Inr (Some m) \<Rightarrow> Some m
           | _ \<Rightarrow> Some Map.empty)"

definition job_dispatch ::
  "(string \<Rightarrow> string + params option) \<Rightarrow> dispatch_env \<Rightarrow> job \<Rightarrow> ('d, 'w) pool_state \<Rightarrow>
   (dispatch_error + tool_output) \<times> ('d, 'w) pool_state" where
  "job_dispatch unmarshal env j st =
     (let r = dispatch env (job_Name j) (job_params unmarshal j)
                \<lparr>jc_UserID = job_UserID j, jc_JobID = job_ID j, jc_ThreadID = []\<rparr> (pl_disp st) (pl_world st)
      in (dr_result r, st\<lparr>pl_disp := dr_dispatcher r, pl_world := dr_world r,
                         pl_audits := pl_audits st @ dr_audits r\<rparr>))"

definition job_end ::
  "'d database \<Rightarrow> (string \<Rightarrow> string) \<Rightarrow> instant \<Rightarrow> job \<Rightarrow> dispatch_error + tool_output \<Rightarrow> ('d, 'w) pool_state \<Rightarrow>
   ('d, 'w) pool_state" where
  "job_end db q now j r st =
     (case r of
        Inl e \<Rightarrow> st\<lparr>pl_db := snd (db_UpdateJobStatus db now (job_ID j) ''failed'' [] (dispatch_error_text q e) (pl_db st))\<rparr>
      | Inr out \<Rightarrow> st\<lparr>pl_db := snd (db_UpdateJobStatus db now (job_ID j) ''completed'' (to_Content out) [] (pl_db st))\<rparr>)"

text \<open>The whole job; \<^const>\<open>None\<close> when the dispatch panics, which ends the process.\<close>

definition run_job ::
  "'d database \<Rightarrow> (string \<Rightarrow> string + params option) \<Rightarrow> (string \<Rightarrow> string) \<Rightarrow> instant \<Rightarrow> dispatch_env \<Rightarrow> instant \<Rightarrow>
   job \<Rightarrow> ('d, 'w) pool_state \<Rightarrow> ('d, 'w) pool_state option" where
  "run_job db unmarshal q t1 env t2 j st =
     (case job_begin db t1 j st of
        (Some e, st1) \<Rightarrow> Some st1
      | (None, st1) \<Rightarrow>
          (case job_dispatch unmarshal env j st1 of
             (r, st2) \<Rightarrow> if r = Inl SanitizerPanic then None else Some (job_end db q t2 j r st2)))"

text \<open>Submission; \<open>nowSec\<close> is the clock in seconds, read for the identifier.\<close>

definition submit ::
  "'d database \<Rightarrow> int \<Rightarrow> instant \<Rightarrow> instant \<Rightarrow> string \<Rightarrow> string \<Rightarrow> string \<Rightarrow> ('d, 'w) pool_state \<Rightarrow>
   (string + job) \<times> ('d, 'w) pool_state" where
  "submit db nowSec now saved userID name input st =
     (case generate_id nowSec (pl_counter st) of
        (i, c) \<Rightarrow>
          let j = \<lparr>job_ID = i, job_UserID = userID, job_Name = name, job_Status = ''pending'', job_Input = input,
                   job_Output = [], job_Error = [], job_CreatedAt = now, job_UpdatedAt = 0\<rparr>
          in case db_SaveJob db saved j (pl_db st) of
               (Some e, d) \<Rightarrow> (Inl (''save job: '' @ e), st\<lparr>pl_db := d, pl_counter := c\<rparr>)
             | (None, d) \<Rightarrow> (Inr j, st\<lparr>pl_db := d, pl_counter := c\<rparr>))"

section \<open>Lemmas\<close>

text \<open>Decimal numbers are read back from their digits, so different numbers have different texts.\<close>

definition digits_value :: "string \<Rightarrow> nat" where
  "digits_value s = foldl (\<lambda>n c. 10 * n + (of_char c - 48)) 0 s"

lemma digits_value_show: "digits_value (show_nat n) = n"
proof (induction n rule: show_nat.induct)
  case (1 n)
  show ?case
  proof (cases "n < 10")
    case True
    then show ?thesis by (simp add: show_nat.simps [of n] digits_value_def)
  next
    case False
    with 1 have "digits_value (show_nat (n div 10)) = n div 10" by simp
    with False show ?thesis by (simp add: show_nat.simps [of n] digits_value_def)
  qed
qed

lemma show_nat_no_sep: "\<forall>c \<in> set (show_nat n). 48 \<le> (of_char c :: nat) \<and> (of_char c :: nat) \<le> 57"
proof (induction n rule: show_nat.induct)
  case (1 n)
  then show ?case
    by (cases "n < 10") (auto simp: show_nat.simps [of n])
qed

lemma underscore_not_digit: "CHR ''_'' \<notin> set (show_int i)"
proof -
  have "CHR ''_'' \<notin> set (show_nat n)" for n
    using show_nat_no_sep [of n] by auto
  then show ?thesis by (simp add: show_int_def)
qed

lemma show_int_inject: "0 \<le> a \<Longrightarrow> 0 \<le> b \<Longrightarrow> show_int a = show_int b \<Longrightarrow> a = b"
  using digits_value_show by (metis int_nat_eq linorder_not_less show_int_def)

lemma memory_update_status:
  "db_UpdateJobStatus memory_database = update_job_status" "db_SaveJob memory_database = (\<lambda>now j m. (None, save_job now j m))"
  by (simp_all add: memory_database_def)

section \<open>Properties\<close>

text \<open>
  C22: a job that is run on the in-memory database is settled: unless its dispatch panics, a stored job ends
  as completed with the tool's output or as failed with the text of the dispatch error, whatever its
  dispatch returns, and no other job of the database is changed by it.
\<close>

theorem job_is_settled:
  assumes "jobs (pl_db st) (job_ID j) = Some j0"
    and "r = dispatch env (job_Name j) (job_params unmarshal j)
           \<lparr>jc_UserID = job_UserID j, jc_JobID = job_ID j, jc_ThreadID = []\<rparr> (pl_disp st) (pl_world st)"
    and "dr_result r \<noteq> Inl SanitizerPanic"
  shows "\<exists>st'. run_job memory_database unmarshal q t1 env t2 j st = Some st' \<and>
    jobs (pl_db st') = (jobs (pl_db st))(job_ID j \<mapsto>
      (case dr_result r of
         Inr out \<Rightarrow> j0\<lparr>job_Status := ''completed'', job_Output := to_Content out, job_Error := [], job_UpdatedAt := t2\<rparr>
       | Inl e \<Rightarrow> j0\<lparr>job_Status := ''failed'', job_Output := [], job_Error := dispatch_error_text q e, job_UpdatedAt := t2\<rparr>))"
  using assms
  by (cases "dr_result r")
    (simp_all add: run_job_def job_begin_def job_dispatch_def job_end_def memory_update_status update_job_status_def Let_def)

definition demo_job :: job where
  "demo_job = \<lparr>job_ID = ''j'', job_UserID = ''u'', job_Name = ''missing'', job_Status = ''pending'', job_Input = [],
     job_Output = [], job_Error = [], job_CreatedAt = 1, job_UpdatedAt = 1\<rparr>"

definition demo_pool :: "(memory_db, unit) pool_state" where
  "demo_pool = \<lparr>pl_db = new_memory_db\<lparr>jobs := [''j'' \<mapsto> demo_job]\<rparr>, pl_disp = new_dispatcher new_registry None,
     pl_world = (), pl_counter = 0, pl_audits = []\<rparr>"

definition demo_dispatch_env :: dispatch_env where
  "demo_dispatch_env = \<lparr>de_rate = 2, de_consume = 2, de_gate = 2, de_create = 2, de_start = 2, de_stop = 2,
     de_uuid = ''r'', de_order = []\<rparr>"

theorem job_is_settled_witness:
  "\<exists>st'. run_job memory_database (\<lambda>s. Inr None) id 2 demo_dispatch_env 3 demo_job demo_pool = Some st' \<and>
     map_option job_Status (jobs (pl_db st') ''j'') = Some ''failed''"
proof -
  let ?r = "dispatch demo_dispatch_env (job_Name demo_job) (job_params (\<lambda>s. Inr None) demo_job)
    \<lparr>jc_UserID = job_UserID demo_job, jc_JobID = job_ID demo_job, jc_ThreadID = []\<rparr> (pl_disp demo_pool) (pl_world demo_pool)"
  have r: "dr_result ?r = Inl (ToolNotFound ''missing'')"
    by (simp add: dispatch_def demo_pool_def demo_job_def new_dispatcher_def new_registry_def registry_get_def)
  have j: "jobs (pl_db demo_pool) (job_ID demo_job) = Some demo_job"
    by (simp add: demo_pool_def demo_job_def)
  from r j show ?thesis
    using job_is_settled [OF j refl, where env = demo_dispatch_env and unmarshal = "\<lambda>s. Inr None" and q = id
        and ?t1.0 = 2 and ?t2.0 = 3]
    by (auto simp: demo_job_def)
qed

text \<open>
  Job identifiers never repeat: two values of the counter give different identifiers, at whatever
  times they are drawn.
\<close>

lemma generated_ids_unique:
  assumes "0 \<le> c" and "0 \<le> c'" and "c \<noteq> c'"
  shows "fst (generate_id t c) \<noteq> fst (generate_id t' c')"
proof
  assume "fst (generate_id t c) = fst (generate_id t' c')"
  then have "show_int t @ [CHR ''_''] @ show_int (c + 1) = show_int t' @ [CHR ''_''] @ show_int (c' + 1)"
    by (simp add: generate_id_def)
  from sep_key_inject [OF this] underscore_not_digit have "show_int (c + 1) = show_int (c' + 1)" by blast
  with show_int_inject [of "c + 1" "c' + 1"] assms show False by simp
qed

theorem generated_ids_unique_witness: "fst (generate_id 7 0) \<noteq> fst (generate_id 7 1)"
  using generated_ids_unique [of 0 1 7 7] by simp

text \<open>
  Background jobs have no thread, so all of them, of every user, use the approvals of the empty
  thread: one approval lets the next job through, whoever it belongs to.
\<close>

lemma jobs_share_approvals:
  "resolved (d_pendingStore d) [] \<noteq> None \<Longrightarrow>
     gate_result env n ps \<lparr>jc_UserID = u, jc_JobID = i, jc_ThreadID = []\<rparr> d w = GatesPassed"
  by (simp add: gate_result_def)

text \<open>
  A poll does not mark the jobs it starts: until a started job has marked itself, the next poll
  starts it again.
\<close>

lemma job_started_twice:
  "poll_jobs memory_database [''j''] 1 (pl_db demo_pool) = Some [demo_job] \<and>
   poll_jobs memory_database [''j''] 1 (pl_db (snd (job_begin memory_database 2 demo_job demo_pool))) = Some []"
  by (simp add: poll_jobs_def memory_database_def list_jobs_def paginate_def slice_def range_map_def
      List.map_filter_def demo_pool_def demo_job_def job_begin_def update_job_status_def Let_def int64_def)

end
