(* ===== verification/Accounts.thy ===== *)
theory Accounts
  imports Go_Prelude
begin

text \<open>
  Users and their credentials: roles, user identifiers and the ownership cache
  (\<open>internal/ownership\<close>), API key authentication (\<open>internal/auth/auth.go\<close>) and the error types of
  \<open>internal/errors/errors.go\<close>.
\<close>

section \<open>Roles\<close>

datatype user_role = RoleRegular | RoleAdmin | RoleOwner

definition from_db_role :: "(string \<Rightarrow> string) \<Rightarrow> string \<Rightarrow> user_role" where
  "from_db_role ucase role =
     (let r = trim_space (to_lower ucase role)
      in if r = ''owner'' then RoleOwner else if r = ''admin'' then RoleAdmin else RoleRegular)"

definition as_db_role :: "user_role \<Rightarrow> string" where
  "as_db_role r = (case r of RoleOwner \<Rightarrow> ''owner'' | RoleAdmin \<Rightarrow> ''admin'' | RoleRegular \<Rightarrow> ''regular'')"

definition role_is_admin :: "user_role \<Rightarrow> bool" where
  "role_is_admin r \<longleftrightarrow> r = RoleAdmin \<or> r = RoleOwner"

definition role_is_owner :: "user_role \<Rightarrow> bool" where
  "role_is_owner r \<longleftrightarrow> r = RoleOwner"

definition role_is_regular :: "user_role \<Rightarrow> bool" where
  "role_is_regular r \<longleftrightarrow> r = RoleRegular"

section \<open>User identifiers\<close>

record user_id =
  uid_id :: string
  uid_role :: user_role

definition user_id_error_text :: "string \<Rightarrow> string" where
  "user_id_error_text reason = ''invalid user id: '' @ reason"

definition new_user_id :: "string \<Rightarrow> user_role \<Rightarrow> string + user_id" where
  "new_user_id i role =
     (if i = [] then Inl (user_id_error_text ''must not be empty'')
      else if trim_space i = [] then Inl (user_id_error_text ''must not be whitespace-only'')
      else Inr \<lparr>uid_id = i, uid_role = role\<rparr>)"

definition from_trusted :: "string \<Rightarrow> user_role \<Rightarrow> user_id" where
  "from_trusted i role = \<lparr>uid_id = i, uid_role = role\<rparr>"

definition uid_is_owner :: "user_id \<Rightarrow> bool" where "uid_is_owner u = role_is_owner (uid_role u)"

definition uid_is_admin :: "user_id \<Rightarrow> bool" where "uid_is_admin u = role_is_admin (uid_role u)"

definition uid_is_regular :: "user_id \<Rightarrow> bool" where "uid_is_regular u = role_is_regular (uid_role u)"

text \<open>Equality of possibly nil identifiers, by the identifier alone.\<close>

definition uid_equal :: "user_id option \<Rightarrow> user_id option \<Rightarrow> bool" where
  "uid_equal a b =
     (case (a, b) of (Some u, Some v) \<Rightarrow> uid_id u = uid_id v | (None, None) \<Rightarrow> True | _ \<Rightarrow> False)"

datatype resource_scope = ScopeUser | ScopeGlobal

record base_owned =
  bo_UserID :: string

definition owner_user_id :: "base_owned \<Rightarrow> string" where "owner_user_id b = bo_UserID b"

definition is_owned_by :: "string \<Rightarrow> base_owned \<Rightarrow> bool" where
  "is_owned_by userID b \<longleftrightarrow> bo_UserID b = userID"

section \<open>The ownership cache\<close>

record cache_entry =
  ce_UserID :: user_id
  ce_ExternalID :: string
  ce_Channel :: string

type_synonym ownership_cache = "string \<rightharpoonup> cache_entry"

definition new_cache :: ownership_cache where
  "new_cache = Map.empty"

definition cache_key :: "string \<Rightarrow> string \<Rightarrow> string" where
  "cache_key channel externalID = channel @ ''/'' @ externalID"

definition cache_get :: "string \<Rightarrow> string \<Rightarrow> ownership_cache \<Rightarrow> cache_entry option" where
  "cache_get channel externalID c = c (cache_key channel externalID)"

definition cache_set :: "string \<Rightarrow> string \<Rightarrow> user_id \<Rightarrow> ownership_cache \<Rightarrow> ownership_cache" where
  "cache_set channel externalID u c =
     c(cache_key channel externalID \<mapsto> \<lparr>ce_UserID = u, ce_ExternalID = externalID, ce_Channel = channel\<rparr>)"

definition cache_remove :: "string \<Rightarrow> string \<Rightarrow> ownership_cache \<Rightarrow> ownership_cache" where
  "cache_remove channel externalID c = c(cache_key channel externalID := None)"

definition cache_count :: "ownership_cache \<Rightarrow> nat" where
  "cache_count c = map_len c"

section \<open>Authentication\<close>

type_synonym api_key_auth = "string \<rightharpoonup> string"

definition new_api_key_auth :: "(string \<rightharpoonup> string) option \<Rightarrow> api_key_auth" where
  "new_api_key_auth keys = (case keys of None \<Rightarrow> Map.empty | Some m \<Rightarrow> m)"

definition authenticate :: "string \<Rightarrow> api_key_auth \<Rightarrow> string + string" where
  "authenticate key a = (case a key of None \<Rightarrow> Inl ''invalid api key'' | Some userID \<Rightarrow> Inr userID)"

definition add_key :: "string \<Rightarrow> string \<Rightarrow> api_key_auth \<Rightarrow> api_key_auth" where
  "add_key key userID a = a(key \<mapsto> userID)"

definition remove_key :: "string \<Rightarrow> api_key_auth \<Rightarrow> api_key_auth" where
  "remove_key key a = a(key := None)"

definition no_auth :: "string \<Rightarrow> string + string" where
  "no_auth credential = Inr ''anonymous''"

section \<open>Error texts\<close>

definition config_error_text :: "string \<Rightarrow> string \<Rightarrow> string" where
  "config_error_text key hint = ''config error: '' @ key @ '' '' @ utf8 [226, 128, 148] @ '' '' @ hint"

record tool_error =
  te_Tool :: string
  te_Message :: string
  te_Code :: string

definition new_tool_error_execution_failed :: "string \<Rightarrow> string \<Rightarrow> tool_error" where
  "new_tool_error_execution_failed tool msg = \<lparr>te_Tool = tool, te_Message = msg, te_Code = ''execution_failed''\<rparr>"

definition tool_error_text :: "tool_error \<Rightarrow> string" where
  "tool_error_text e = ''tool '' @ [CHR 0x27] @ te_Tool e @ [CHR 0x27] @ '' failed ('' @ te_Code e @ ''): '' @ te_Message e"

definition channel_error_text :: "string \<Rightarrow> string \<Rightarrow> string \<Rightarrow> string" where
  "channel_error_text channel opn cause =
     ''channel '' @ [CHR 0x27] @ channel @ [CHR 0x27] @ '' '' @ opn @ '' failed: '' @ cause"

definition database_error_text :: "string \<Rightarrow> string \<Rightarrow> string" where
  "database_error_text opn err = ''database '' @ opn @ '': '' @ err"

section \<open>Lemmas\<close>

interpretation api_keys: keyed_store "\<lambda>a k. a k" add_key remove_key
  by unfold_locales (simp_all add: add_key_def remove_key_def)

text \<open>Roles survive the database, and an unknown text gives the least privilege.\<close>

lemma role_roundtrip: "from_db_role ucase (as_db_role r) = r"
proof -
  have "trim_space (to_lower ucase ''owner'') = ''owner''" "trim_space (to_lower ucase ''admin'') = ''admin''"
    "trim_space (to_lower ucase ''regular'') = ''regular''"
    by code_simp+
  then show ?thesis by (cases r) (simp_all add: from_db_role_def as_db_role_def)
qed

lemma admin_only_by_name:
  "role_is_admin (from_db_role ucase s) \<longleftrightarrow> trim_space (to_lower ucase s) \<in> {''owner'', ''admin''}"
  by (simp add: from_db_role_def role_is_admin_def Let_def)

lemma key_lifecycle:
  "authenticate key (add_key key u a) = Inr u"
  "authenticate key (remove_key key a) = Inl ''invalid api key''"
  "key' \<noteq> key \<Longrightarrow> authenticate key' (add_key key u a) = authenticate key' a"
  "key' \<noteq> key \<Longrightarrow> authenticate key' (remove_key key a) = authenticate key' a"
  by (simp_all add: authenticate_def add_key_def remove_key_def)

text \<open>
  With channel names that have no slash, the cache answers for exactly the channel and external
  identifier that were stored; a slash in a channel name makes two pairs share an entry.
\<close>

lemma cache_lookup:
  assumes "CHR ''/'' \<notin> set ch" and "CHR ''/'' \<notin> set ch'"
  shows "cache_get ch' ext' (cache_set ch ext u c) =
    (if ch' = ch \<and> ext' = ext then Some \<lparr>ce_UserID = u, ce_ExternalID = ext, ce_Channel = ch\<rparr>
     else cache_get ch' ext' c)"
  using sep_key_inject [of ch' "CHR ''/''" ext' ch ext] assms by (auto simp: cache_get_def cache_set_def cache_key_def)

lemma cache_collision: "cache_get ''a'' ''b/c'' (cache_set ''a/b'' ''c'' u new_cache) \<noteq> None"
  by (simp add: cache_get_def cache_set_def cache_key_def)

end
