(* ===== verification/Go_Runes.thy ===== *)
theory Go_Runes
  imports Go_Prelude
begin

text \<open>
  Iteration over the runes of a string, \<open>for i, r := range s\<close>: the width of the rune a text starts
  with, whether it is well formed, the bytes \<open>WriteRune\<close> puts out for it (those of U+FFFD for an
  ill-formed byte), and the offsets the iteration visits. Also the integer verb of \<open>fmt.Sscanf\<close>,
  \<open>filepath.Ext\<close> and the two floating-point verbs the sources print sizes with.
\<close>

section \<open>Runes\<close>

text \<open>\<open>utf8.DecodeRuneInString\<close>: the number of bytes of the first rune, and whether they encode one.\<close>

definition decode_rune :: "string \<Rightarrow> nat \<times> bool" where
  "decode_rune s =
     (case s of
        [] \<Rightarrow> (0, False)
      | c # s1 \<Rightarrow>
          if is_ascii c then (1, True)
          else case utf8_lead (of_char c) of
            None \<Rightarrow> (1, False)
          | Some (lo, hi, n) \<Rightarrow>
              (case s1 of
                 [] \<Rightarrow> (1, False)
               | c1 # s2 \<Rightarrow>
                   if lo \<le> (of_char c1 :: nat) \<and> (of_char c1 :: nat) \<le> hi \<and> n \<le> length s2 \<and>
                      list_all is_continuation (take n s2)
                   then (n + 2, True) else (1, False)))"

definition rune_width :: "string \<Rightarrow> nat" where
  "rune_width s = max 1 (fst (decode_rune s))"

text \<open>\<open>WriteRune\<close> of the first rune.\<close>

definition write_rune :: "string \<Rightarrow> string" where
  "write_rune s =
     (if snd (decode_rune s) then take (rune_width s) s else [CHR 0xEF, CHR 0xBF, CHR 0xBD])"

lemma rune_width_pos [simp]: "0 < rune_width s"
  by (simp add: rune_width_def)

lemma rune_width_less [simp]: "s \<noteq> [] \<Longrightarrow> length s - rune_width s < length s"
  by (cases s) (auto simp: rune_width_def)

lemma utf8_lead_bound: "utf8_lead b = Some (lo, hi, n) \<Longrightarrow> n \<le> 2"
  by (auto simp: utf8_lead_def split: if_splits)

lemma rune_width_le4: "rune_width s \<le> 4"
  unfolding rune_width_def decode_rune_def
  by (auto split: list.splits option.splits dest: utf8_lead_bound)

lemma rune_width_le_length: "s \<noteq> [] \<Longrightarrow> rune_width s \<le> length s"
  unfolding rune_width_def decode_rune_def by (auto split: list.splits option.splits)

text \<open>A text is well formed if its first rune is and the rest is.\<close>

lemma valid_utf8_decode:
  "valid_utf8 (c # s) \<longleftrightarrow>
     snd (decode_rune (c # s)) \<and> valid_utf8 (drop (rune_width (c # s)) (c # s))"
  by (auto simp: decode_rune_def rune_width_def split: list.splits option.splits)

lemma decode_rune_take:
  "snd (decode_rune s) \<Longrightarrow> rune_width s \<le> k \<Longrightarrow> decode_rune (take k s) = decode_rune s"
  unfolding rune_width_def decode_rune_def
  by (cases k) (auto split: list.splits option.splits if_splits simp: take_Cons' min_def)

text \<open>A well-formed rune is one ASCII byte or has none.\<close>

lemma decode_rune_ascii:
  assumes "snd (decode_rune s)"
  shows "is_ascii (hd s) \<and> rune_width s = 1 \<or> (\<forall>x\<in>set (take (rune_width s) s). \<not> is_ascii x)"
proof (cases s)
  case (Cons c s1)
  show ?thesis
  proof (cases "is_ascii c")
    case True
    with Cons show ?thesis by (simp add: rune_width_def decode_rune_def)
  next
    case False
    with assms Cons obtain lo hi n c1 s2 where
      u: "utf8_lead (of_char c) = Some (lo, hi, n)" "s1 = c1 # s2" "lo \<le> (of_char c1 :: nat)"
         "list_all is_continuation (take n s2)" and w: "rune_width s = n + 2"
      by (auto simp: decode_rune_def rune_width_def split: option.splits list.splits if_splits)
    from u(1) have "128 \<le> lo" by (auto simp: utf8_lead_def split: if_splits)
    with u False Cons w show ?thesis
      by (auto simp: is_ascii_def is_continuation_def list_all_iff)
  qed
qed (use assms in \<open>simp add: decode_rune_def\<close>)

section \<open>Cutting a text at a rune boundary\<close>

text \<open>The offsets \<open>for idx := range s\<close> visits, from offset \<open>i\<close> on.\<close>

function range_from :: "nat \<Rightarrow> string \<Rightarrow> nat list" where
  "range_from i s = (if s = [] then [] else i # range_from (i + rune_width s) (drop (rune_width s) s))"
  by pat_completeness auto
termination
  by (relation "measure (\<lambda>(i, s). length s)") (auto simp: rune_width_def)

declare range_from.simps [simp del]

lemma range_from_Nil [simp]: "range_from i [] = []"
  by (simp add: range_from.simps)

lemma range_from_ge: "j \<in> set (range_from i s) \<Longrightarrow> i \<le> j"
  by (induction i s rule: range_from.induct) (subst (asm) (2) range_from.simps, fastforce split: if_splits)

lemma sorted_range_from: "sorted_wrt (<) (range_from i s)"
proof (induction i s rule: range_from.induct)
  case (1 i s)
  show ?case
  proof (cases "s = []")
    case False
    have "i < j" if "j \<in> set (range_from (i + rune_width s) (drop (rune_width s) s))" for j
      using range_from_ge [OF that] rune_width_pos [of s] by linarith
    with 1 [OF False] False show ?thesis
      by (subst range_from.simps) simp
  qed simp
qed

text \<open>Every visited offset cuts a well-formed text into a well-formed part.\<close>

lemma range_from_boundary:
  "valid_utf8 s \<Longrightarrow> j \<in> set (range_from i s) \<Longrightarrow> valid_utf8 (take (j - i) s)"
proof (induction i s rule: range_from.induct)
  case (1 i s)
  show ?case
  proof (cases s)
    case (Cons c cs)
    let ?w = "rune_width s"
    from 1(2) Cons have ok: "snd (decode_rune s)" and rest: "valid_utf8 (drop ?w s)"
      using valid_utf8_decode [of c cs] by auto
    from 1(3) Cons have "j = i \<or> j \<in> set (range_from (i + ?w) (drop ?w s))"
      by (subst (asm) range_from.simps) auto
    then show ?thesis
    proof
      assume j: "j \<in> set (range_from (i + ?w) (drop ?w s))"
      from range_from_ge [OF j] have le: "?w \<le> j - i" by simp
      have "valid_utf8 (take (j - (i + ?w)) (drop ?w s))"
        using 1(1) [OF _ rest j] Cons by simp
      moreover have "drop ?w (take (j - i) s) = take (j - (i + ?w)) (drop ?w s)"
        by (simp add: drop_take)
      moreover have dec: "decode_rune (take (j - i) s) = decode_rune s"
        by (rule decode_rune_take [OF ok le])
      moreover from dec have "rune_width (take (j - i) s) = ?w"
        by (simp add: rune_width_def)
      moreover obtain c' cs' where "take (j - i) s = c' # cs'"
        using less_le_trans [OF rune_width_pos [of s] le] Cons by (cases "take (j - i) s") auto
      ultimately show ?thesis
        using valid_utf8_decode [of c' cs'] ok by simp
    qed simp
  qed (use 1 in simp)
qed

section \<open>Scanning and printing\<close>

text \<open>
  \<open>fmt.Sscanf(s, "%d", &n)\<close> with \<open>n = 0\<close> before the call: leading white space is skipped, a newline
  there is an error; then an optional sign and decimal digits. On an error, and on a value outside 64
  bits, \<open>n\<close> keeps its value \<open>0\<close>.
\<close>

definition is_digit :: "char \<Rightarrow> bool" where
  "is_digit c \<longleftrightarrow> 48 \<le> (of_char c :: nat) \<and> (of_char c :: nat) \<le> 57"

definition digits_value :: "string \<Rightarrow> nat" where
  "digits_value ds = foldl (\<lambda>n c. n * 10 + (of_char c - 48)) 0 ds"

definition scan_space_codes :: "string list" where
  "scan_space_codes = filter (\<lambda>c. c \<noteq> [CHR 0x0A]) space_codes"

definition sscanf_d :: "string \<Rightarrow> int" where
  "sscanf_d s =
     (let s1 = trim_left_codes scan_space_codes s;
          (neg, s2) = (case s1 of
                         c # r \<Rightarrow> if c = CHR ''-'' then (True, r)
                                  else if c = CHR ''+'' then (False, r) else (False, s1)
                       | [] \<Rightarrow> (False, s1));
          ds = takeWhile is_digit s2;
          v = (if neg then - int (digits_value ds) else int (digits_value ds))
      in if ds = [] then 0 else if - (2 ^ 63) \<le> v \<and> v < 2 ^ 63 then v else 0)"

text \<open>
  \<open>strconv.Atoi\<close> with the text of its error: an optional sign and at least one digit, nothing else, and a
  value of 64 bits. The argument \<open>quote\<close> is \<open>strconv.Quote\<close>.
\<close>

definition atoi :: "(string \<Rightarrow> string) \<Rightarrow> string \<Rightarrow> string + int" where
  "atoi quote s =
     (let (neg, ds) = (case s of
                         c # r \<Rightarrow> if c = CHR ''-'' then (True, r)
                                  else if c = CHR ''+'' then (False, r) else (False, s)
                       | [] \<Rightarrow> (False, s));
          v = (if neg then - int (digits_value ds) else int (digits_value ds));
          what = ''strconv.Atoi: parsing '' @ quote s @ '': ''
      in if ds = [] \<or> \<not> list_all is_digit ds then Inl (what @ ''invalid syntax'')
         else if - (2 ^ 63) \<le> v \<and> v < 2 ^ 63 then Inr v else Inl (what @ ''value out of range''))"

text \<open>\<open>filepath.Ext\<close>: from the last dot of the last path element on.\<close>

definition path_ext :: "string \<Rightarrow> string" where
  "path_ext p =
     (let r = takeWhile (\<lambda>c. c \<noteq> CHR ''/'') (rev p) in
      if CHR ''.'' \<in> set r then rev (takeWhile (\<lambda>c. c \<noteq> CHR ''.'') r @ ''.'') else [])"

text \<open>
  \<open>%.0f\<close> and \<open>%.1f\<close> of a non-negative number, rounding to nearest and half to even. Floating-point
  values are taken as the rational numbers they stand for.
\<close>

definition round_half_even :: "rat \<Rightarrow> int" where
  "round_half_even x =
     (let f = \<lfloor>x\<rfloor>; d = x - of_int f in
      if d < 1 / 2 then f else if d > 1 / 2 then f + 1 else if even f then f else f + 1)"

definition show_f0 :: "rat \<Rightarrow> string" where
  "show_f0 x = show_int (round_half_even x)"

definition show_f1 :: "rat \<Rightarrow> string" where
  "show_f1 x =
     (let n = round_half_even (x * 10) in show_int (n div 10) @ ''.'' @ show_int (n mod 10))"

lemma digits_value_snoc: "digits_value (ds @ [c]) = digits_value ds * 10 + (of_char c - 48)"
  by (simp add: digits_value_def)

lemma is_digit_char_of [simp]: "k < (10::nat) \<Longrightarrow> is_digit (char_of (48 + k))"
  by (simp add: is_digit_def)

lemma show_nat_digits: "list_all is_digit (show_nat n) \<and> show_nat n \<noteq> []"
proof (induction n rule: show_nat.induct)
  case (1 n)
  show ?case
  proof (cases "n < 10")
    case True
    then show ?thesis by (subst (1 2) show_nat.simps) simp
  next
    case False
    with 1 show ?thesis by (subst (1 2) show_nat.simps) simp
  qed
qed

text \<open>Reading back a printed number gives the number.\<close>

lemma digits_value_show_nat: "digits_value (show_nat n) = n"
proof (induction n rule: show_nat.induct)
  case (1 n)
  show ?case
  proof (cases "n < 10")
    case True
    then show ?thesis by (subst show_nat.simps) (simp add: digits_value_def)
  next
    case False
    then show ?thesis using 1 by (subst show_nat.simps) (simp add: digits_value_snoc)
  qed
qed

lemma takeWhile_all: "list_all P xs \<Longrightarrow> takeWhile P xs = xs"
  by (induction xs) auto

lemma scan_space_heads: "list_all (\<lambda>w. w \<noteq> [] \<and> \<not> is_digit (hd w)) scan_space_codes"
  by code_simp

lemma digit_not_space: "is_digit c \<Longrightarrow> space_width scan_space_codes (c # s) = None"
  using scan_space_heads
  by (auto simp: space_width_def find_None_iff has_prefix_iff list_all_iff Cons_eq_append_conv)

lemma sscanf_show_nat: "int n < 2 ^ 63 \<Longrightarrow> sscanf_d (show_nat n) = int n"
proof -
  assume n: "int n < 2 ^ 63"
  obtain c cs where s: "show_nat n = c # cs" and d: "list_all is_digit (c # cs)"
    using show_nat_digits [of n] by (cases "show_nat n") auto
  have t: "trim_left_codes scan_space_codes (c # cs) = c # cs"
    using digit_not_space [of c cs] d by (subst trim_left_codes.simps) simp
  from d have "c \<noteq> CHR ''-''" "c \<noteq> CHR ''+''" by (auto simp: is_digit_def)
  then show ?thesis
    using t n takeWhile_all [OF d] digits_value_show_nat [of n]
    by (simp add: sscanf_d_def s Let_def)
qed

lemma atoi_show_nat: "int n < 2 ^ 63 \<Longrightarrow> atoi quote (show_nat n) = Inr (int n)"
proof -
  assume n: "int n < 2 ^ 63"
  obtain c cs where s: "show_nat n = c # cs" and d: "list_all is_digit (c # cs)"
    using show_nat_digits [of n] by (cases "show_nat n") auto
  from d have "c \<noteq> CHR ''-''" "c \<noteq> CHR ''+''" by (auto simp: is_digit_def)
  then show ?thesis
    using n d digits_value_show_nat [of n] by (simp add: atoi_def s Let_def)
qed

end
