(* ===== verification/Document.thy ===== *)
theory Document
  imports Go_Runes Channel_Types "HOL-Library.Multiset" "HOL-Library.Char_ord" "HOL-Library.List_Lexorder"
begin

text \<open>
  Text extraction from document attachments: \<open>internal/document/extract.go\<close> and the middleware of
  \<open>internal/document/middleware.go\<close>.

  Decompression and XML tokenisation belong to the standard library's \<open>archive/zip\<close> and
  \<open>encoding/xml\<close>; they are the arguments \<open>dl_zip\<close> and \<open>dl_xml\<close> of a record: an archive is the list of
  its entries with the streams they decompress to, and a document is the list of tokens up to the
  first error. A Go \<open>error\<close> is its text; \<open>(string, error)\<close> is a sum with the error on the left.
\<close>

section \<open>The library interfaces\<close>

text \<open>A stream delivers its bytes and then ends, or fails with an error.\<close>

record zip_stream =
  zs_bytes :: string
  zs_fails :: "string option"

record zip_file =
  zf_Name :: string
  zf_Open :: "string + zip_stream"

record zip_reader =
  zr_File :: "zip_file list"
  zr_Open :: "string \<Rightarrow> string + zip_stream"

datatype xml_token =
    StartElement string "(string \<times> string) list"
  | EndElement string
  | CharData string
  | OtherToken

record doc_lib =
  dl_zip :: "string \<Rightarrow> string + zip_reader"
  dl_xml :: "string \<Rightarrow> xml_token list"
  dl_ucase :: "string \<Rightarrow> string"

text \<open>\<open>io.ReadAll(io.LimitReader(r, n))\<close>: at most \<open>n\<close> bytes; an error beyond them is not met.\<close>

definition read_limited :: "nat \<Rightarrow> zip_stream \<Rightarrow> string \<times> string option" where
  "read_limited n z =
     (take n (zs_bytes z), if length (zs_bytes z) < n then zs_fails z else None)"

section \<open>Limits\<close>

definition MaxDocumentSize :: nat where "MaxDocumentSize = 10 * 1024 * 1024"
definition MaxExtractedTextLen :: nat where "MaxExtractedTextLen = 100000"
definition MaxDecompressedEntry :: nat where "MaxDecompressedEntry = 50 * 1024 * 1024"
definition MaxDecompressedTotal :: nat where "MaxDecompressedTotal = 100 * 1024 * 1024"

section \<open>Plain text\<close>

text \<open>Converting between \<open>string\<close> and \<open>[]byte\<close> copies the bytes and changes none of them.\<close>

definition bytesToValidUTF8 :: "string \<Rightarrow> string" where
  "bytesToValidUTF8 data = data"

definition utf8Valid :: "string \<Rightarrow> bool" where
  "utf8Valid data \<longleftrightarrow> data = bytesToValidUTF8 data"

definition extractUTF8 :: "string \<Rightarrow> string + string" where
  "extractUTF8 data = (if utf8Valid data then Inr data else Inr (bytesToValidUTF8 data))"

section \<open>RTF\<close>

definition isASCIIAlpha :: "char \<Rightarrow> bool" where
  "isASCIIAlpha b \<longleftrightarrow>
     (97 \<le> (of_char b :: nat) \<and> (of_char b :: nat) \<le> 122) \<or> (65 \<le> (of_char b :: nat) \<and> (of_char b :: nat) \<le> 90)"

definition isASCIIDigit :: "char \<Rightarrow> bool" where
  "isASCIIDigit b \<longleftrightarrow> 48 \<le> (of_char b :: nat) \<and> (of_char b :: nat) \<le> 57"

text \<open>A control word: its letters, and the text after its numeric parameter and one space.\<close>

definition control_word :: "string \<Rightarrow> string \<times> string" where
  "control_word text =
     (let word = takeWhile isASCIIAlpha text;
          r1 = dropWhile isASCIIAlpha text;
          r2 = dropWhile (\<lambda>b. isASCIIDigit b \<or> b = CHR ''-'') r1
      in (word, if r2 \<noteq> [] \<and> hd r2 = CHR '' '' then tl r2 else r2))"

definition control_output :: "string \<Rightarrow> string" where
  "control_output word =
     (if word = ''par'' \<or> word = ''line'' then [CHR 0x0A]
      else if word = ''tab'' then [CHR 0x09] else [])"

lemma length_control_word [simp]: "length (snd (control_word text)) \<le> length text"
proof -
  define r2 where "r2 = dropWhile (\<lambda>b. isASCIIDigit b \<or> b = CHR ''-'') (dropWhile isASCIIAlpha text)"
  have "length r2 \<le> length text"
    unfolding r2_def by (rule le_trans [OF length_dropWhile_le length_dropWhile_le])
  then show ?thesis
    by (auto simp: control_word_def Let_def r2_def [symmetric])
qed

text \<open>The loop at \<open>text[i:]\<close> with group depth \<open>depth\<close> and the text written so far.\<close>

function rtf_loop :: "nat \<Rightarrow> string \<Rightarrow> string \<Rightarrow> string" where
  "rtf_loop depth result [] = result"
| "rtf_loop depth result (ch # text) =
     (if ch = CHR ''{'' then rtf_loop (depth + 1) result text
      else if ch = CHR ''}'' then rtf_loop (if depth > 0 then depth - 1 else depth) result text
      else if ch = CHR 0x5C
      then rtf_loop depth (result @ control_output (fst (control_word text))) (snd (control_word text))
      else rtf_loop depth (if depth \<le> 1 then result @ [ch] else result) text)"
  by pat_completeness auto
termination
  by (relation "measure (\<lambda>(depth, result, text). length text)") (auto simp: less_Suc_eq_le)

definition extractRTF :: "string \<Rightarrow> string + string" where
  "extractRTF data =
     (let trimmed = trim_space (rtf_loop 0 [] data) in
      if trimmed = [] then Inl ''no text found in RTF'' else Inr trimmed)"

section \<open>Legacy binary formats\<close>

definition printable_byte :: "char \<Rightarrow> bool" where
  "printable_byte b \<longleftrightarrow> 32 \<le> (of_char b :: nat) \<and> (of_char b :: nat) < 127"

fun binary_loop :: "string list \<Rightarrow> string \<Rightarrow> string \<Rightarrow> string list" where
  "binary_loop results current [] = (if 4 \<le> length current then results @ [current] else results)"
| "binary_loop results current (b # data) =
     (if printable_byte b then binary_loop results (current @ [b]) data
      else binary_loop (if 4 \<le> length current then results @ [current] else results) [] data)"

definition extractBinaryStrings :: "string \<Rightarrow> string + string" where
  "extractBinaryStrings data =
     (let results = binary_loop [] [] data in
      if results = [] then Inl ''no readable text in binary document'' else Inr (join '' '' results))"

section \<open>Office archives\<close>

definition openZipEntry :: "zip_reader \<Rightarrow> string \<Rightarrow> string + zip_stream" where
  "openZipEntry r name =
     (case find (\<lambda>f. zf_Name f = name) (zr_File r) of
        Some f \<Rightarrow> zf_Open f
      | None \<Rightarrow> Inl (''content file not found in archive: '' @ name))"

text \<open>The new total is returned in any case, as the code updates it before it compares.\<close>

definition readZipEntryBounded :: "zip_stream \<Rightarrow> nat \<Rightarrow> (string + string) \<times> nat" where
  "readZipEntryBounded r tot =
     (case read_limited MaxDecompressedEntry r of
        (data, Some err) \<Rightarrow> (Inl err, tot)
      | (data, None) \<Rightarrow>
          let tot' = tot + length data in
          (if tot' > MaxDecompressedTotal then Inl ''total decompressed size exceeds limit'' else Inr data,
           tot'))"

text \<open>One rune of the tag stripper: the text written, \<open>inTag\<close> and \<open>lastWasSpace\<close>.\<close>

definition strip_step :: "string \<Rightarrow> string \<times> bool \<times> bool \<Rightarrow> string \<times> bool \<times> bool" where
  "strip_step s st =
     (case st of (result, inTag, lastWasSpace) \<Rightarrow>
        if hd s = CHR ''<'' then (result, True, lastWasSpace)
        else if hd s = CHR ''>''
        then (if \<not> lastWasSpace \<and> length result > 0 then (result @ '' '', False, True)
              else (result, False, lastWasSpace))
        else if inTag then st
        else if hd s \<in> {CHR '' '', CHR 0x09, CHR 0x0A, CHR 0x0D}
        then (if lastWasSpace then st else (result @ '' '', inTag, True))
        else (result @ write_rune s, inTag, False))"

function strip_loop :: "string \<times> bool \<times> bool \<Rightarrow> string \<Rightarrow> string" where
  "strip_loop st s =
     (if s = [] then fst st else strip_loop (strip_step s st) (drop (rune_width s) s))"
  by pat_completeness auto
termination
  by (relation "measure (\<lambda>(st, s). length s)") auto

declare strip_loop.simps [simp del]

definition decode_entities :: "string \<Rightarrow> string" where
  "decode_entities s =
     replace_all (replace_all (replace_all (replace_all (replace_all s
       ''&amp;'' ''&'') ''&lt;'' ''<'') ''&gt;'' ''>'') ''&quot;'' [CHR 0x22]) ''&apos;'' [CHR 0x27]"

definition stripXMLTags :: "string \<Rightarrow> string" where
  "stripXMLTags xmlStr = trim_space (decode_entities (strip_loop ([], False, True) xmlStr))"

text \<open>
  \<open>sortStrings\<close>: for each \<open>i\<close> in turn, the element at \<open>i\<close> is exchanged with every smaller one after
  it. One pass of the inner loop over the tail returns the smallest element and the new tail.
\<close>

fun less_string :: "string \<Rightarrow> string \<Rightarrow> bool" where
  "less_string s [] \<longleftrightarrow> False"
| "less_string [] (d # t) \<longleftrightarrow> True"
| "less_string (c # s) (d # t) \<longleftrightarrow>
     (of_char c :: nat) < of_char d \<or> (c = d \<and> less_string s t)"

fun exchange_pass :: "string \<Rightarrow> string list \<Rightarrow> string \<times> string list" where
  "exchange_pass x [] = (x, [])"
| "exchange_pass x (y # ys) =
     (if less_string y x then (case exchange_pass y ys of (m, zs) \<Rightarrow> (m, x # zs))
      else (case exchange_pass x ys of (m, zs) \<Rightarrow> (m, y # zs)))"

lemma exchange_pass_length: "length (snd (exchange_pass x ys)) = length ys"
  by (induction ys arbitrary: x) (auto split: prod.splits dest: arg_cong [of _ _ snd] simp: case_prod_beta)

function sortStrings :: "string list \<Rightarrow> string list" where
  "sortStrings [] = []"
| "sortStrings (x # ys) = (case exchange_pass x ys of (m, zs) \<Rightarrow> m # sortStrings zs)"
  by pat_completeness auto
termination
  by (relation "measure length")
     (auto, metis exchange_pass_length less_Suc_eq snd_conv)

text \<open>The names of the parts to read, and the loop that reads and strips them.\<close>

definition part_names :: "string \<Rightarrow> zip_reader \<Rightarrow> string list" where
  "part_names pre r =
     sortStrings (filter (\<lambda>n. has_prefix n pre \<and> has_suffix n ''.xml'') (map zf_Name (zr_File r)))"

fun parts_loop :: "zip_reader \<Rightarrow> (string \<Rightarrow> string) \<Rightarrow> nat \<Rightarrow> string list \<Rightarrow> string list \<Rightarrow> string list \<times> nat" where
  "parts_loop r strip tot allText [] = (allText, tot)"
| "parts_loop r strip tot allText (name # names) =
     (case zr_Open r name of
        Inl err \<Rightarrow> parts_loop r strip tot allText names
      | Inr f \<Rightarrow>
          (case readZipEntryBounded f tot of
             (Inl err, tot') \<Rightarrow> parts_loop r strip tot' allText names
           | (Inr text, tot') \<Rightarrow>
               let stripped = strip text in
               parts_loop r strip tot' (if stripped \<noteq> [] then allText @ [stripped] else allText) names))"

definition extractDOCX :: "doc_lib \<Rightarrow> string \<Rightarrow> string + string" where
  "extractDOCX L data =
     (case dl_zip L data of
        Inl err \<Rightarrow> Inl (''invalid DOCX archive: '' @ err)
      | Inr r \<Rightarrow>
          (case openZipEntry r ''word/document.xml'' of
             Inl err \<Rightarrow> Inl err
           | Inr f \<Rightarrow>
               (case read_limited MaxDecompressedEntry f of
                  (text, Some err) \<Rightarrow> Inl (''failed to read content: '' @ err)
                | (text, None) \<Rightarrow>
                    let result = stripXMLTags text in
                    if result = [] then Inl ''no text content found'' else Inr result)))"

definition extractPPTX :: "doc_lib \<Rightarrow> string \<Rightarrow> string + string" where
  "extractPPTX L data =
     (case dl_zip L data of
        Inl err \<Rightarrow> Inl (''invalid PPTX archive: '' @ err)
      | Inr r \<Rightarrow>
          let allText = fst (parts_loop r stripXMLTags 0 [] (part_names ''ppt/slides/slide'' r)) in
          if allText = [] then Inl ''no text found in PPTX slides''
          else Inr (join ([CHR 0x0A, CHR 0x0A] @ ''---'' @ [CHR 0x0A, CHR 0x0A]) allText))"

section \<open>Spreadsheets\<close>

fun shared_loop :: "string list \<Rightarrow> bool \<Rightarrow> string \<Rightarrow> xml_token list \<Rightarrow> string list" where
  "shared_loop results inT current [] = results"
| "shared_loop results inT current (StartElement n attrs # toks) =
     (if n = ''t'' then shared_loop results True [] toks else shared_loop results inT current toks)"
| "shared_loop results inT current (EndElement n # toks) =
     (if n = ''t'' then shared_loop (results @ [current]) False current toks
      else shared_loop results inT current toks)"
| "shared_loop results inT current (CharData d # toks) =
     shared_loop results inT (if inT then current @ d else current) toks"
| "shared_loop results inT current (OtherToken # toks) = shared_loop results inT current toks"

definition parseXLSXSharedStrings :: "doc_lib \<Rightarrow> string \<Rightarrow> string list" where
  "parseXLSXSharedStrings L xmlStr = shared_loop [] False [] (dl_xml L xmlStr)"

record sheet_state =
  sh_rows :: "string list list"
  sh_currentRow :: "string list"
  sh_inV :: bool
  sh_cellType :: string
  sh_currentVal :: string

definition cell_value :: "string list \<Rightarrow> string \<Rightarrow> string \<Rightarrow> string" where
  "cell_value sharedStrings cellType val =
     (if cellType = ''s''
      then (let idx = sscanf_d val in
            if 0 \<le> idx \<and> idx < int (length sharedStrings) then sharedStrings ! nat idx else val)
      else val)"

fun sheet_step :: "string list \<Rightarrow> xml_token \<Rightarrow> sheet_state \<Rightarrow> sheet_state" where
  "sheet_step sharedStrings (StartElement n attrs) st =
     (if n = ''row'' then st\<lparr>sh_currentRow := []\<rparr>
      else if n = ''c''
      then st\<lparr>sh_cellType := foldl (\<lambda>ct (a, v). if a = ''t'' then v else ct) [] attrs\<rparr>
      else if n = ''v'' then st\<lparr>sh_inV := True, sh_currentVal := []\<rparr>
      else st)"
| "sheet_step sharedStrings (EndElement n) st =
     (if n = ''row''
      then (if length (sh_currentRow st) > 0 then st\<lparr>sh_rows := sh_rows st @ [sh_currentRow st]\<rparr> else st)
      else if n = ''v''
      then st\<lparr>sh_inV := False,
              sh_currentRow := sh_currentRow st @
                [cell_value sharedStrings (sh_cellType st) (sh_currentVal st)]\<rparr>
      else st)"
| "sheet_step sharedStrings (CharData d) st =
     (if sh_inV st then st\<lparr>sh_currentVal := sh_currentVal st @ d\<rparr> else st)"
| "sheet_step sharedStrings OtherToken st = st"

definition sheet_start :: sheet_state where
  "sheet_start = \<lparr>sh_rows = [], sh_currentRow = [], sh_inV = False, sh_cellType = [], sh_currentVal = []\<rparr>"

definition parseXLSXSheet :: "doc_lib \<Rightarrow> string list \<Rightarrow> string \<Rightarrow> string" where
  "parseXLSXSheet L sharedStrings xmlStr =
     join [CHR 0x0A]
       (map (join [CHR 0x09]) (sh_rows (fold (sheet_step sharedStrings) (dl_xml L xmlStr) sheet_start)))"

definition shared_part :: "doc_lib \<Rightarrow> zip_reader \<Rightarrow> string list \<times> nat" where
  "shared_part L r =
     (case openZipEntry r ''xl/sharedStrings.xml'' of
        Inl err \<Rightarrow> ([], 0)
      | Inr f \<Rightarrow>
          let text = fst (read_limited MaxDecompressedEntry f) in
          (parseXLSXSharedStrings L text, length text))"

definition extractXLSX :: "doc_lib \<Rightarrow> string \<Rightarrow> string + string" where
  "extractXLSX L data =
     (case dl_zip L data of
        Inl err \<Rightarrow> Inl (''invalid XLSX archive: '' @ err)
      | Inr r \<Rightarrow>
          (case shared_part L r of
             (sharedStrings, tot) \<Rightarrow>
               let allText = fst (parts_loop r (parseXLSXSheet L sharedStrings) tot []
                                    (part_names ''xl/worksheets/sheet'' r)) in
               if allText = [] \<and> length sharedStrings > 0 then Inr (join [CHR 0x0A] sharedStrings)
               else if allText = [] then Inl ''no text found in XLSX''
               else Inr (join [CHR 0x0A, CHR 0x0A] allText)))"

section \<open>Choosing the extractor\<close>

definition text_extensions :: "string list" where
  "text_extensions =
     [''.txt'', ''.md'', ''.csv'', ''.json'', ''.xml'', ''.yaml'', ''.yml'', ''.toml'',
      ''.py'', ''.go'', ''.rs'', ''.java'', ''.c'', ''.cpp'', ''.h'', ''.js'', ''.ts'',
      ''.html'', ''.css'', ''.sh'', ''.rb'', ''.log'']"

text \<open>\<open>text, _ := f(data)\<close>: an error leaves the empty text.\<close>

definition drop_error :: "string + string \<Rightarrow> string" where
  "drop_error r = (case r of Inl _ \<Rightarrow> [] | Inr t \<Rightarrow> t)"

definition tryExtractByExtension :: "doc_lib \<Rightarrow> string \<Rightarrow> string \<Rightarrow> string option" where
  "tryExtractByExtension L data filename =
     (let ext = to_lower (dl_ucase L) (path_ext filename) in
      if ext \<in> set text_extensions then Some (drop_error (extractUTF8 data))
      else if ext = ''.rtf'' then Some (drop_error (extractRTF data))
      else if ext = ''.docx'' then Some (drop_error (extractDOCX L data))
      else if ext = ''.pptx'' then Some (drop_error (extractPPTX L data))
      else if ext = ''.xlsx'' then Some (drop_error (extractXLSX L data))
      else None)"

definition text_types :: "string list" where
  "text_types =
     [''text/plain'', ''text/csv'', ''text/tab-separated-values'', ''text/markdown'',
      ''text/html'', ''text/xml'',
      ''text/x-python'', ''text/x-java'', ''text/x-c'', ''text/x-c++'', ''text/x-rust'', ''text/x-go'',
      ''text/x-ruby'', ''text/x-shellscript'', ''text/javascript'', ''text/css'',
      ''text/x-toml'', ''text/x-yaml'', ''text/x-log'',
      ''application/json'', ''application/xml'', ''application/x-yaml'', ''application/yaml'',
      ''application/toml'', ''application/x-sh'']"

definition base_mime :: "string \<Rightarrow> string" where
  "base_mime mimeType = trim_space (hd (split_on (CHR '';'') mimeType))"

definition ExtractText :: "doc_lib \<Rightarrow> string \<Rightarrow> string \<Rightarrow> string \<Rightarrow> string + string" where
  "ExtractText L data mimeType filename =
     (let baseMime = base_mime mimeType in
      if baseMime = ''application/pdf'' then Inl ''PDF extraction not yet implemented''
      else if baseMime = ''application/vnd.openxmlformats-officedocument.wordprocessingml.document''
      then extractDOCX L data
      else if baseMime = ''application/vnd.openxmlformats-officedocument.presentationml.presentation''
      then extractPPTX L data
      else if baseMime = ''application/vnd.openxmlformats-officedocument.spreadsheetml.sheet''
      then extractXLSX L data
      else if baseMime \<in> {''application/msword'', ''application/vnd.ms-powerpoint'', ''application/vnd.ms-excel''}
      then extractBinaryStrings data
      else if baseMime \<in> set text_types then extractUTF8 data
      else if baseMime = ''application/rtf'' \<or> baseMime = ''text/rtf'' then extractRTF data
      else (case tryExtractByExtension L data filename of
              Some text \<Rightarrow> Inr text
            | None \<Rightarrow> Inl (''unsupported document type: '' @ baseMime)))"

section \<open>The middleware\<close>

definition too_large_text :: "int \<Rightarrow> string" where
  "too_large_text sizeBytes =
     ''[Document too large for text extraction: '' @ show_f1 (of_int sizeBytes / (1024 * 1024)) @
     '' MB exceeds '' @ show_f0 (of_nat MaxDocumentSize / (1024 * 1024)) @
     '' MB limit. Please send a smaller file or copy-paste the relevant text.]''"

definition no_data_text :: string where
  "no_data_text = ''[Document has no inline data. Please try sending the file again.]''"

definition failed_text :: "attachment \<Rightarrow> string \<Rightarrow> string" where
  "failed_text att err =
     (let name = (if att_Filename att = [] then ''document'' else att_Filename att) in
      ''[Failed to extract text from '' @ [CHR 0x27] @ name @ [CHR 0x27] @ '' ('' @ att_MIMEType att @
      ''): '' @ err @ ''. The file format may not be supported.]'')"

definition truncated_note :: string where
  "truncated_note = [CHR 0x0A, CHR 0x0A] @ ''[... truncated, document too long ...]''"

text \<open>The scan \<open>for idx := range text\<close> that stops at the first offset beyond the limit.\<close>

fun boundary_loop :: "nat \<Rightarrow> nat list \<Rightarrow> nat" where
  "boundary_loop boundary [] = boundary"
| "boundary_loop boundary (idx # idxs) =
     (if idx > MaxExtractedTextLen then boundary else boundary_loop idx idxs)"

definition truncate_text :: "string \<Rightarrow> string" where
  "truncate_text text =
     (if length text > MaxExtractedTextLen
      then take (boundary_loop 0 (range_from 0 text)) text @ truncated_note else text)"

text \<open>What an attachment's text becomes; \<^const>\<open>None\<close> when the attachment is left alone.\<close>

definition extraction :: "doc_lib \<Rightarrow> attachment \<Rightarrow> string option" where
  "extraction L att =
     (if att_Kind att \<noteq> AttachmentKindDocument then None
      else if att_ExtractedText att \<noteq> [] then None
      else if att_SizeBytes att > int MaxDocumentSize then Some (too_large_text (att_SizeBytes att))
      else if length (att_Data att) = 0 then Some no_data_text
      else if length (att_Data att) > MaxDocumentSize
      then Some (too_large_text (int (length (att_Data att))))
      else case ExtractText L (att_Data att) (att_MIMEType att) (att_Filename att) of
             Inl err \<Rightarrow> Some (failed_text att err)
           | Inr text \<Rightarrow> Some (truncate_text text))"

text \<open>The first loop collects index and text, the second writes them back.\<close>

fun collect_extractions :: "doc_lib \<Rightarrow> nat \<Rightarrow> attachment list \<Rightarrow> (nat \<times> string) list" where
  "collect_extractions L i [] = []"
| "collect_extractions L i (att # atts) =
     (case extraction L att of
        None \<Rightarrow> collect_extractions L (Suc i) atts
      | Some t \<Rightarrow> (i, t) # collect_extractions L (Suc i) atts)"

definition write_extraction :: "attachment list \<Rightarrow> nat \<times> string \<Rightarrow> attachment list" where
  "write_extraction atts e = atts[fst e := (atts ! fst e)\<lparr>att_ExtractedText := snd e\<rparr>]"

definition document_Process :: "doc_lib \<Rightarrow> incoming_message \<Rightarrow> incoming_message" where
  "document_Process L msg =
     msg\<lparr>im_Attachments :=
           foldl write_extraction (im_Attachments msg) (collect_extractions L 0 (im_Attachments msg))\<rparr>"

section \<open>What the extractors do\<close>

subsection \<open>Sorting the parts\<close>

lemma less_string_lex: "less_string s t \<longleftrightarrow> s < t"
  by (induction s t rule: less_string.induct) (auto simp: less_char_def)

lemma exchange_pass_spec:
  "exchange_pass x ys = (m, zs) \<Longrightarrow> add_mset m (mset zs) = add_mset x (mset ys) \<and> (\<forall>z\<in>set zs. m \<le> z)"
proof (induction ys arbitrary: x m zs)
  case (Cons y ys)
  show ?case
  proof (cases "less_string y x")
    case True
    then obtain zs' where zs: "exchange_pass y ys = (m, zs')" "zs = x # zs'"
      using Cons.prems by (auto split: prod.splits)
    note IH = Cons.IH [OF zs(1)]
    then have "m \<le> y"
      by (metis insert_iff set_mset_add_mset_insert set_mset_mset order_refl)
    with True IH zs(2) show ?thesis
      by (auto simp: less_string_lex)
  next
    case False
    then obtain zs' where zs: "exchange_pass x ys = (m, zs')" "zs = y # zs'"
      using Cons.prems by (auto split: prod.splits)
    note IH = Cons.IH [OF zs(1)]
    then have "m \<le> x"
      by (metis insert_iff set_mset_add_mset_insert set_mset_mset order_refl)
    with False IH zs(2) show ?thesis
      by (auto simp: less_string_lex)
  qed
qed simp

lemma sortStrings_mset: "mset (sortStrings xs) = mset xs"
  by (induction xs rule: sortStrings.induct) (auto split: prod.splits dest: exchange_pass_spec)

text \<open>
  The exchange sort of the archive parts agrees with the library's sorting function on strings
  ordered byte by byte.
\<close>

lemma sortStrings_sort: "sortStrings xs = sort xs"
proof (rule properties_for_sort [symmetric])
  show "mset (sortStrings xs) = mset xs"
    by (rule sortStrings_mset)
  show "sorted (sortStrings xs)"
  proof (induction xs rule: sortStrings.induct)
    case (2 x ys)
    obtain m zs where p: "exchange_pass x ys = (m, zs)" by (cases "exchange_pass x ys")
    have "set (sortStrings zs) = set zs"
      by (rule mset_eq_setD [OF sortStrings_mset])
    with 2 [OF p [symmetric]] exchange_pass_spec [OF p] show ?case
      by (simp add: p)
  qed simp
qed

subsection \<open>Legacy binary formats\<close>

lemma binary_loop_split:
  "binary_loop results current data =
     results @ filter (\<lambda>w. 4 \<le> length w)
       (case split_on (CHR 0x00) (map (\<lambda>b. if printable_byte b then b else CHR 0x00) data) of
          [] \<Rightarrow> [current] | w # ws \<Rightarrow> (current @ w) # ws)"
proof (induction results current data rule: binary_loop.induct)
  case (2 results current b data)
  then show ?case
    by (cases "split_on (CHR 0x00) (map (\<lambda>b. if printable_byte b then b else CHR 0x00) data)")
       (auto simp: printable_byte_def)
qed simp

text \<open>
  C34: text recovery from a legacy binary file returns exactly the maximal runs of at least four
  printable bytes, in order, separated by one space, and reports an error when there is none.
\<close>

theorem binary_strings_exact:
  "extractBinaryStrings data =
     (let runs = filter (\<lambda>w. 4 \<le> length w)
                   (split_on (CHR 0x00) (map (\<lambda>b. if printable_byte b then b else CHR 0x00) data))
      in if runs = [] then Inl ''no readable text in binary document'' else Inr (join '' '' runs))"
proof -
  have "split_on (CHR 0x00) s \<noteq> []" for s
    by (cases s) (auto split: list.splits)
  then show ?thesis
    by (simp add: extractBinaryStrings_def binary_loop_split Let_def split: list.splits)
qed

subsection \<open>Tags and entities\<close>

text \<open>No rune but \<open>c\<close> itself writes the ASCII character \<open>c\<close>.\<close>

lemma write_rune_ascii: "is_ascii c \<Longrightarrow> s \<noteq> [] \<Longrightarrow> c \<in> set (write_rune s) \<Longrightarrow> hd s = c"
  using decode_rune_ascii [of s] by (cases s) (auto simp: write_rune_def is_ascii_def split: if_splits)

lemma strip_step_tags:
  "s \<noteq> [] \<Longrightarrow> strip_step s (r, i, l) = (r', i', l') \<Longrightarrow> CHR ''<'' \<notin> set r \<Longrightarrow> CHR ''>'' \<notin> set r \<Longrightarrow>
     CHR ''<'' \<notin> set r' \<and> CHR ''>'' \<notin> set r'"
  using write_rune_ascii [of "CHR ''<''" s] write_rune_ascii [of "CHR ''>''" s]
  by (auto simp: strip_step_def is_ascii_def split: if_splits)

lemma strip_step_amp:
  "s \<noteq> [] \<Longrightarrow> strip_step s (r, i, l) = (r', i', l') \<Longrightarrow> CHR ''&'' \<notin> set s \<Longrightarrow> CHR ''&'' \<notin> set r \<Longrightarrow>
     CHR ''&'' \<notin> set r'"
  using write_rune_ascii [of "CHR ''&''" s]
  by (cases s) (auto simp: strip_step_def is_ascii_def split: if_splits)

lemma strip_loop_tags:
  "CHR ''<'' \<notin> set (fst st) \<Longrightarrow> CHR ''>'' \<notin> set (fst st) \<Longrightarrow>
     CHR ''<'' \<notin> set (strip_loop st s) \<and> CHR ''>'' \<notin> set (strip_loop st s)"
proof (induction st s rule: strip_loop.induct)
  case (1 st s)
  obtain r i l r' i' l' where st: "st = (r, i, l)" "strip_step s st = (r', i', l')"
    by (cases st, cases "strip_step s st") auto
  show ?case
  proof (cases "s = []")
    case False
    with 1 st strip_step_tags [OF False, of r i l r' i' l'] show ?thesis
      by (subst (1 2) strip_loop.simps) simp
  qed (use 1 in \<open>simp add: strip_loop.simps\<close>)
qed

lemma strip_loop_amp:
  "CHR ''&'' \<notin> set (fst st) \<Longrightarrow> CHR ''&'' \<notin> set s \<Longrightarrow> CHR ''&'' \<notin> set (strip_loop st s)"
proof (induction st s rule: strip_loop.induct)
  case (1 st s)
  obtain r i l r' i' l' where st: "st = (r, i, l)" "strip_step s st = (r', i', l')"
    by (cases st, cases "strip_step s st") auto
  show ?case
  proof (cases "s = []")
    case False
    with 1 st strip_step_amp [OF False, of r i l r' i' l'] show ?thesis
      by (subst strip_loop.simps) (auto dest: in_set_dropD)
  qed (use 1 in \<open>simp add: strip_loop.simps\<close>)
qed

lemma decode_entities_id: "CHR ''&'' \<notin> set s \<Longrightarrow> decode_entities s = s"
proof -
  assume a: "CHR ''&'' \<notin> set s"
  have "\<not> contains s (CHR ''&'' # t)" for t
    using a by (auto simp: contains_iff)
  then show ?thesis
    by (simp add: decode_entities_def replace_all_absent)
qed

text \<open>
  Without entities in the document, the text of a slide or of a word-processor file has no angle
  bracket left: every tag is removed, and an unclosed one swallows the rest.
\<close>

lemma strip_removes_tags:
  assumes "CHR ''&'' \<notin> set xmlStr"
  shows "CHR ''<'' \<notin> set (stripXMLTags xmlStr) \<and> CHR ''>'' \<notin> set (stripXMLTags xmlStr)"
proof -
  let ?t = "strip_loop ([], False, True) xmlStr"
  have "decode_entities ?t = ?t"
    using assms by (intro decode_entities_id strip_loop_amp) auto
  moreover obtain u v where "?t = u @ trim_space ?t @ v"
    using trim_space_infix by blast
  moreover have "CHR ''<'' \<notin> set ?t \<and> CHR ''>'' \<notin> set ?t"
    by (rule strip_loop_tags) auto
  ultimately show ?thesis
    by (metis Un_iff set_append stripXMLTags_def)
qed

lemma strip_removes_tags_witness:
  "CHR ''&'' \<notin> set ''<p>one</p> two'' \<and> CHR ''<'' \<notin> set (stripXMLTags ''<p>one</p> two'') \<and>
   stripXMLTags ''<p>one</p> two'' = ''one two''"
proof -
  have a: "CHR ''&'' \<notin> set ''<p>one</p> two''" by simp
  have b: "stripXMLTags ''<p>one</p> two'' = ''one two''" by code_simp
  show ?thesis using strip_removes_tags [OF a] a b by simp
qed

text \<open>
  The entities are decoded one after the other, \<open>&amp;\<close> first: an escaped entity, such as the text
  \<open>&lt;\<close> that a document writes as \<open>&amp;lt;\<close>, is decoded twice.
\<close>

lemma escaped_entity_decoded_twice: "stripXMLTags ''&amp;lt;'' = ''<''"
  by code_simp

text \<open>No byte sequence counts as invalid, and text files are passed on byte by byte.\<close>

lemma extractUTF8_identity: "utf8Valid data \<and> extractUTF8 data = Inr data"
  by (simp add: utf8Valid_def bytesToValidUTF8_def extractUTF8_def)

subsection \<open>Decompression bounds\<close>

lemma parts_loop_texts:
  "\<exists>ts. fst (parts_loop r strip tot allText names) = allText @ filter (\<lambda>t. t \<noteq> []) (map strip ts) \<and>
        (ts = [] \<or> tot + sum_list (map length ts) \<le> MaxDecompressedTotal)"
proof (induction names arbitrary: tot allText)
  case (Cons name names)
  show ?case
  proof (cases "zr_Open r name")
    case (Inl err)
    with Cons show ?thesis by simp
  next
    case (Inr f)
    obtain res tot' where rd: "readZipEntryBounded f tot = (res, tot')" by fastforce
    then have le: "tot \<le> tot'"
      by (auto simp: readZipEntryBounded_def Let_def split: prod.splits option.splits)
    show ?thesis
    proof (cases res)
      case (Inl err)
      then have "fst (parts_loop r strip tot allText (name # names)) =
                 fst (parts_loop r strip tot' allText names)"
        using Inr rd by simp
      with Cons [of tot' allText] le show ?thesis by (metis add_le_mono1 le_trans)
    next
      case res: (Inr content)
      with rd have tot': "tot' = tot + length content" "tot' \<le> MaxDecompressedTotal"
        by (auto simp: readZipEntryBounded_def Let_def split: prod.splits option.splits if_splits)
      from Cons [of tot' "if strip content \<noteq> [] then allText @ [strip content] else allText"]
      obtain ts where ts:
        "fst (parts_loop r strip tot' (if strip content \<noteq> [] then allText @ [strip content] else allText) names) =
           (if strip content \<noteq> [] then allText @ [strip content] else allText) @
             filter (\<lambda>t. t \<noteq> []) (map strip ts)"
        "ts = [] \<or> tot' + sum_list (map length ts) \<le> MaxDecompressedTotal" by blast
      have "fst (parts_loop r strip tot allText (name # names)) =
              allText @ filter (\<lambda>t. t \<noteq> []) (map strip (content # ts))"
        using ts(1) Inr res rd by (simp add: Let_def)
      moreover have "tot + sum_list (map length (content # ts)) \<le> MaxDecompressedTotal"
        using ts(2) tot' by auto
      ultimately show ?thesis by blast
    qed
  qed
qed (auto intro!: exI [of _ "[]"])

text \<open>
  However many slides an archive has and whatever they decompress to, the slides whose text enters
  the result have at most 100 MB of decompressed XML between them: the answer is an error or the
  texts of such slides, stripped of their tags, joined by a separator line.
\<close>

lemma pptx_text_bounded:
  assumes "extractPPTX L data = Inr text"
  shows "\<exists>ts. sum_list (map length ts) \<le> MaxDecompressedTotal \<and>
           text = join ([CHR 0x0A, CHR 0x0A] @ ''---'' @ [CHR 0x0A, CHR 0x0A])
                    (filter (\<lambda>t. t \<noteq> []) (map stripXMLTags ts))"
proof -
  from assms obtain r where r: "dl_zip L data = Inr r"
    by (auto simp: extractPPTX_def split: sum.splits)
  let ?all = "fst (parts_loop r stripXMLTags 0 [] (part_names ''ppt/slides/slide'' r))"
  obtain ts where ts: "?all = filter (\<lambda>t. t \<noteq> []) (map stripXMLTags ts)"
    "ts = [] \<or> 0 + sum_list (map length ts) \<le> MaxDecompressedTotal"
    using parts_loop_texts [of r stripXMLTags 0 "[]" "part_names ''ppt/slides/slide'' r"]
    by (metis append_Nil)
  then have "sum_list (map length ts) \<le> MaxDecompressedTotal" by (cases ts) auto
  moreover have "text = join ([CHR 0x0A, CHR 0x0A] @ ''---'' @ [CHR 0x0A, CHR 0x0A]) ?all"
    using assms r by (simp add: extractPPTX_def Let_def split: if_splits)
  ultimately show ?thesis using ts(1) by metis
qed

subsection \<open>Truncation\<close>

lemma boundary_loop_range:
  "s \<noteq> [] \<Longrightarrow> i \<le> MaxExtractedTextLen \<Longrightarrow> MaxExtractedTextLen < i + length s \<Longrightarrow>
     boundary_loop b (range_from i s) \<in> set (range_from i s) \<and>
     boundary_loop b (range_from i s) \<le> MaxExtractedTextLen \<and>
     MaxExtractedTextLen < boundary_loop b (range_from i s) + 4"
proof (induction i s arbitrary: b rule: range_from.induct)
  case (1 i s)
  let ?w = "rune_width s"
  have r: "range_from i s = i # range_from (i + ?w) (drop ?w s)"
    using 1(2) by (subst range_from.simps) simp
  have w: "?w \<le> 4" "?w \<le> length s"
    using rune_width_le4 rune_width_le_length [OF 1(2)] by auto
  show ?case
  proof (cases "i + ?w \<le> MaxExtractedTextLen")
    case True
    with 1(4) w have "drop ?w s \<noteq> []" "MaxExtractedTextLen < i + ?w + length (drop ?w s)" by auto
    from 1(1) [OF 1(2) this(1) True this(2), of i] 1(3) show ?thesis by (simp add: r)
  next
    case False
    then have "boundary_loop i (range_from (i + ?w) (drop ?w s)) = i"
      by (subst range_from.simps) simp
    with False 1(3) w show ?thesis by (simp add: r)
  qed
qed

text \<open>
  A document's text longer than the limit is cut between two runes: a well-formed text stays
  well-formed, at most three bytes below the limit are lost to the boundary, and the note follows.
  A shorter text is left as it is.
\<close>

lemma truncation_keeps_runes:
  assumes "valid_utf8 text"
  shows "(length text \<le> MaxExtractedTextLen \<and> truncate_text text = text) \<or>
         (\<exists>p q. text = p @ q \<and> truncate_text text = p @ truncated_note \<and> valid_utf8 p \<and>
            length p \<le> MaxExtractedTextLen \<and> MaxExtractedTextLen < length p + 4)"
proof (cases "length text \<le> MaxExtractedTextLen")
  case False
  then have ne: "text \<noteq> []" by auto
  let ?b = "boundary_loop 0 (range_from 0 text)"
  have b: "?b \<in> set (range_from 0 text)" "?b \<le> MaxExtractedTextLen" "MaxExtractedTextLen < ?b + 4"
    using boundary_loop_range [OF ne, of 0 0] False by auto
  from range_from_boundary [OF assms b(1)] have v: "valid_utf8 (take ?b text)" by simp
  have "text = take ?b text @ drop ?b text" by simp
  moreover have "truncate_text text = take ?b text @ truncated_note"
    using False by (simp add: truncate_text_def)
  moreover have "length (take ?b text) = ?b" using b(2) False by simp
  ultimately show ?thesis using v b by metis
qed (simp add: truncate_text_def)

lemma truncation_keeps_runes_witness:
  "truncate_text ''short'' = ''short'' \<or>
   (\<exists>p q. ''short'' = p @ q \<and> truncate_text ''short'' = p @ truncated_note \<and> valid_utf8 p \<and>
      length p \<le> MaxExtractedTextLen \<and> MaxExtractedTextLen < length p + 4)"
proof -
  have "valid_utf8 ''short''" by code_simp
  from truncation_keeps_runes [OF this] show ?thesis by blast
qed

subsection \<open>The middleware\<close>

definition with_extraction :: "doc_lib \<Rightarrow> attachment \<Rightarrow> attachment" where
  "with_extraction L att = (case extraction L att of None \<Rightarrow> att | Some t \<Rightarrow> att\<lparr>att_ExtractedText := t\<rparr>)"

lemma write_extractions:
  "foldl write_extraction (pre @ atts) (collect_extractions L (length pre) atts) =
     pre @ map (with_extraction L) atts"
proof (induction atts arbitrary: pre)
  case (Cons att atts)
  show ?case
  proof (cases "extraction L att")
    case None
    with Cons [of "pre @ [att]"] show ?thesis by (simp add: with_extraction_def)
  next
    case (Some t)
    then have "foldl write_extraction (pre @ att # atts) (collect_extractions L (length pre) (att # atts)) =
        foldl write_extraction ((pre @ [att\<lparr>att_ExtractedText := t\<rparr>]) @ atts)
          (collect_extractions L (length (pre @ [att\<lparr>att_ExtractedText := t\<rparr>])) atts)"
      by (simp add: write_extraction_def list_update_append)
    with Cons [of "pre @ [att\<lparr>att_ExtractedText := t\<rparr>]"] Some show ?thesis
      by (simp only:) (simp add: with_extraction_def)
  qed
qed simp

lemma process_pointwise:
  "im_Attachments (document_Process L msg) = map (with_extraction L) (im_Attachments msg)"
  using write_extractions [of "[]" "im_Attachments msg" L] by (simp add: document_Process_def)

lemma with_extraction_idem: "with_extraction L (with_extraction L att) = with_extraction L att"
proof (cases "extraction L att")
  case (Some t)
  then have k: "att_Kind att = AttachmentKindDocument" and e: "att_ExtractedText att = []"
    by (auto simp: extraction_def split: if_splits)
  show ?thesis
  proof (cases t)
    case Nil
    with e have "att\<lparr>att_ExtractedText := t\<rparr> = att" by (cases att) simp
    with Some show ?thesis by (simp add: with_extraction_def)
  next
    case (Cons c cs)
    with Some show ?thesis by (simp add: with_extraction_def extraction_def)
  qed
qed (simp add: with_extraction_def)

text \<open>
  C33: the middleware rewrites the extracted text of exactly the document attachments that have none yet, each
  independently of the others although the extractions are written back by index; the message and every
  other attachment stay. The text written is a notice when the announced size or the data exceed ten
  megabytes, when there is no data, or when the extraction fails, and otherwise the document's text,
  truncated. A second pass changes nothing.
\<close>

theorem document_process_exact:
  "document_Process L msg =
     msg\<lparr>im_Attachments := map (\<lambda>att.
        if att_Kind att = AttachmentKindDocument \<and> att_ExtractedText att = []
        then att\<lparr>att_ExtractedText :=
               (if att_SizeBytes att > 10 * 1024 * 1024 then too_large_text (att_SizeBytes att)
                else if att_Data att = [] then no_data_text
                else if length (att_Data att) > 10 * 1024 * 1024 then too_large_text (int (length (att_Data att)))
                else case ExtractText L (att_Data att) (att_MIMEType att) (att_Filename att) of
                       Inl err \<Rightarrow> failed_text att err
                     | Inr text \<Rightarrow> truncate_text text)\<rparr>
        else att) (im_Attachments msg)\<rparr> \<and>
   document_Process L (document_Process L msg) = document_Process L msg"
proof -
  have e: "document_Process L m = m\<lparr>im_Attachments := map (with_extraction L) (im_Attachments m)\<rparr>" for m
    using process_pointwise [of L m] by (simp add: document_Process_def)
  have "document_Process L (document_Process L msg) = document_Process L msg"
    by (simp add: e with_extraction_idem comp_def)
  moreover have f: "with_extraction L att =
      (if att_Kind att = AttachmentKindDocument \<and> att_ExtractedText att = []
        then att\<lparr>att_ExtractedText :=
               (if att_SizeBytes att > 10 * 1024 * 1024 then too_large_text (att_SizeBytes att)
                else if att_Data att = [] then no_data_text
                else if length (att_Data att) > 10 * 1024 * 1024 then too_large_text (int (length (att_Data att)))
                else case ExtractText L (att_Data att) (att_MIMEType att) (att_Filename att) of
                       Inl err \<Rightarrow> failed_text att err
                     | Inr text \<Rightarrow> truncate_text text)\<rparr>
        else att)" for att
    by (simp add: with_extraction_def extraction_def MaxDocumentSize_def split: sum.split)
  ultimately show ?thesis
    unfolding e [of msg] f [abs_def] by simp
qed

subsection \<open>Spreadsheets\<close>

text \<open>
  How a spreadsheet program writes a table: a row of cells, each with its value inline or as an index
  into the shared strings.
\<close>

datatype cell = Inline string | Shared nat

fun cell_tokens :: "cell \<Rightarrow> xml_token list" where
  "cell_tokens (Inline v) =
     [StartElement ''c'' [], StartElement ''v'' [], CharData v, EndElement ''v'', EndElement ''c'']"
| "cell_tokens (Shared i) =
     [StartElement ''c'' [(''t'', ''s'')], StartElement ''v'' [], CharData (show_nat i), EndElement ''v'',
      EndElement ''c'']"

fun cell_text :: "string list \<Rightarrow> cell \<Rightarrow> string" where
  "cell_text shared (Inline v) = v"
| "cell_text shared (Shared i) = shared ! i"

fun cell_ok :: "string list \<Rightarrow> cell \<Rightarrow> bool" where
  "cell_ok shared (Inline v) = True"
| "cell_ok shared (Shared i) = (i < length shared)"

definition row_tokens :: "cell list \<Rightarrow> xml_token list" where
  "row_tokens row = StartElement ''row'' [] # concat (map cell_tokens row) @ [EndElement ''row'']"

definition sheet_tokens :: "cell list list \<Rightarrow> xml_token list" where
  "sheet_tokens rows = concat (map row_tokens rows)"

lemma cell_value_shared:
  "i < length shared \<Longrightarrow> int (length shared) < 2 ^ 63 \<Longrightarrow> cell_value shared ''s'' (show_nat i) = shared ! i"
  using sscanf_show_nat [of i] by (simp add: cell_value_def)

lemma sheet_cell:
  assumes "cell_ok shared c" "int (length shared) < 2 ^ 63"
  shows "\<exists>st'. fold (sheet_step shared) (cell_tokens c) st = st' \<and> sh_rows st' = sh_rows st \<and>
           sh_currentRow st' = sh_currentRow st @ [cell_text shared c]"
  using assms cell_value_shared [of _ shared] by (cases c) (auto simp: cell_value_def)

lemma sheet_cells:
  assumes "int (length shared) < 2 ^ 63"
  shows "list_all (cell_ok shared) row \<Longrightarrow>
     (let st' = fold (sheet_step shared) (concat (map cell_tokens row)) st in
      sh_rows st' = sh_rows st \<and> sh_currentRow st' = sh_currentRow st @ map (cell_text shared) row)"
proof (induction row arbitrary: st)
  case (Cons c row)
  from sheet_cell [of shared c st] Cons.prems assms
  have c: "sh_rows (fold (sheet_step shared) (cell_tokens c) st) = sh_rows st"
    "sh_currentRow (fold (sheet_step shared) (cell_tokens c) st) = sh_currentRow st @ [cell_text shared c]"
    by auto
  from Cons.IH [of "fold (sheet_step shared) (cell_tokens c) st"] Cons.prems c show ?case
    by (simp add: Let_def)
qed simp

lemma sheet_rows:
  assumes "int (length shared) < 2 ^ 63"
  shows "list_all (list_all (cell_ok shared)) rows \<Longrightarrow>
     sh_rows (fold (sheet_step shared) (sheet_tokens rows) st) =
       sh_rows st @ filter (\<lambda>r. r \<noteq> []) (map (map (cell_text shared)) rows)"
proof (induction rows arbitrary: st)
  case (Cons row rows)
  let ?st = "fold (sheet_step shared) (concat (map cell_tokens row)) (st\<lparr>sh_currentRow := []\<rparr>)"
  have r: "sh_rows ?st = sh_rows st" "sh_currentRow ?st = map (cell_text shared) row"
    using sheet_cells [OF assms, of row "st\<lparr>sh_currentRow := []\<rparr>"] Cons.prems by (auto simp: Let_def)
  have "fold (sheet_step shared) (row_tokens row) st = sheet_step shared (EndElement ''row'') ?st"
    by (simp add: row_tokens_def)
  then have "sh_rows (fold (sheet_step shared) (row_tokens row) st) =
      sh_rows st @ (if row = [] then [] else [map (cell_text shared) row])"
    using r by simp
  with Cons.IH [of "fold (sheet_step shared) (row_tokens row) st"] Cons.prems show ?case
    by (auto simp: sheet_tokens_def)
qed (simp add: sheet_tokens_def)

text \<open>
  Reading back the cells of a sheet: each row becomes a line of its cells' texts separated by tabs,
  shared strings looked up by their index, rows without a cell left out.
\<close>

lemma sheet_roundtrip:
  assumes "dl_xml L xmlStr = sheet_tokens rows" and "list_all (list_all (cell_ok shared)) rows"
    and "int (length shared) < 2 ^ 63"
  shows "parseXLSXSheet L shared xmlStr =
     join [CHR 0x0A] (map (join [CHR 0x09]) (filter (\<lambda>r. r \<noteq> []) (map (map (cell_text shared)) rows)))"
  using sheet_rows [OF assms(3,2), of sheet_start] assms(1) by (simp add: parseXLSXSheet_def sheet_start_def)

lemma sheet_roundtrip_witness:
  "let L = \<lparr>dl_zip = (\<lambda>_. Inl ''not a zip''),
            dl_xml = (\<lambda>_. sheet_tokens [[Inline ''7'', Shared 1], [], [Shared 0]]), dl_ucase = id\<rparr>
   in parseXLSXSheet L [''a'', ''b''] ''sheet'' = ''7'' @ [CHR 0x09] @ ''b'' @ [CHR 0x0A] @ ''a''"
  using sheet_roundtrip [of "\<lparr>dl_zip = (\<lambda>_. Inl ''not a zip''),
            dl_xml = (\<lambda>_. sheet_tokens [[Inline ''7'', Shared 1], [], [Shared 0]]), dl_ucase = id\<rparr>"
          "''sheet''" "[[Inline ''7'', Shared 1], [], [Shared 0]]" "[''a'', ''b'']"]
  by simp

subsection \<open>RTF\<close>

lemma rtf_loop_plain:
  "list_all (\<lambda>c. c \<notin> {CHR ''{'', CHR ''}'', CHR 0x5C}) cs \<Longrightarrow> depth \<le> 1 \<Longrightarrow>
     rtf_loop depth result cs = result @ cs"
  by (induction cs arbitrary: result) auto

text \<open>A group at depth one carries its text through; a nested group, such as a font table, is dropped.\<close>

lemma rtf_group: "extractRTF (''{'' @ [CHR 0x5C] @ ''rtf1 Hi'' @ [CHR 0x5C] @ ''par there{x}}'') =
    Inr (''Hi'' @ [CHR 0x0A] @ ''there'')"
  by code_simp

end
