(* ===== verification/Go_Base64.thy ===== *)
theory Go_Base64
  imports Go_Prelude
begin

text \<open>
  \<open>base64.StdEncoding\<close> of the standard library: encoding, and decoding with the bytes \<open>DecodeString\<close>
  returns together with an error. The offset that the error names is not modelled. The gateway
  decodes attachments with it and the secret store its ciphertexts.
\<close>

text \<open>The alphabet: the upper-case letters, the lower-case letters, the digits, plus and slash.\<close>

definition b64_char :: "nat \<Rightarrow> char" where
  "b64_char n =
     (if n < 26 then char_of (n + 65) else if n < 52 then char_of (n + 71)
      else if n < 62 then char_of (n - 4) else if n = 62 then CHR ''+'' else CHR ''/'')"

definition b64_val :: "char \<Rightarrow> nat option" where
  "b64_val c =
     (let n = of_char c in
      if 65 \<le> n \<and> n \<le> 90 then Some (n - 65)
      else if 97 \<le> n \<and> n \<le> 122 then Some (n - 71)
      else if 48 \<le> n \<and> n \<le> 57 then Some (n + 4)
      else if n = 43 then Some 62 else if n = 47 then Some 63 else None)"

abbreviation byte_code :: "char \<Rightarrow> nat" where "byte_code c \<equiv> of_char c"

fun base64_encode :: "string \<Rightarrow> string" where
  "base64_encode [] = []"
| "base64_encode [a] =
     [b64_char (byte_code a div 4), b64_char (byte_code a mod 4 * 16), CHR ''='', CHR ''='']"
| "base64_encode [a, b] =
     [b64_char (byte_code a div 4), b64_char (byte_code a mod 4 * 16 + byte_code b div 16),
      b64_char (byte_code b mod 16 * 4), CHR ''='']"
| "base64_encode (a # b # c # s) =
     b64_char (byte_code a div 4) # b64_char (byte_code a mod 4 * 16 + byte_code b div 16) #
     b64_char (byte_code b mod 16 * 4 + byte_code c div 64) # b64_char (byte_code c mod 64) #
     base64_encode s"

text \<open>The quanta of a text without line breaks; the flag is the error.\<close>

fun b64_quanta :: "string \<Rightarrow> string \<times> bool" where
  "b64_quanta [] = ([], False)"
| "b64_quanta (a # b # c # d # s) =
     (case (b64_val a, b64_val b, b64_val c, b64_val d) of
        (Some u, Some v, Some w, Some x) \<Rightarrow>
          (case b64_quanta s of (out, err) \<Rightarrow>
             (char_of (u * 4 + v div 16) # char_of (v mod 16 * 16 + w div 4) #
              char_of (w mod 4 * 64 + x) # out, err))
      | (Some u, Some v, Some w, None) \<Rightarrow>
          if d = CHR ''='' then ([char_of (u * 4 + v div 16), char_of (v mod 16 * 16 + w div 4)], s \<noteq> [])
          else ([], True)
      | (Some u, Some v, None, None) \<Rightarrow>
          if c = CHR ''='' \<and> d = CHR ''='' then ([char_of (u * 4 + v div 16)], s \<noteq> []) else ([], True)
      | _ \<Rightarrow> ([], True))"
| "b64_quanta s = ([], True)"

definition base64_decode :: "string \<Rightarrow> string \<times> bool" where
  "base64_decode s = b64_quanta (filter (\<lambda>c. c \<notin> {CHR 0x0A, CHR 0x0D}) s)"

section \<open>Round trip\<close>

lemma b64_val_char [simp]: "n < 64 \<Longrightarrow> b64_val (b64_char n) = Some n"
  by (auto simp: b64_char_def b64_val_def Let_def)

lemma b64_val_no_break: "b64_val (CHR 0x0A) = None" "b64_val (CHR 0x0D) = None"
  by (simp_all add: b64_val_def)

lemma b64_char_no_break [simp]: "n < 64 \<Longrightarrow> b64_char n \<noteq> CHR 0x0A" "n < 64 \<Longrightarrow> b64_char n \<noteq> CHR 0x0D"
  using b64_val_char [of n] b64_val_no_break by (metis option.distinct(1))+

lemma b64_pad [simp]: "b64_val (CHR ''='') = None"
  by (simp add: b64_val_def)

lemma byte_code_less [simp]: "byte_code c < 256"
  using of_char_mod_256 [of c, where ?'a = nat] by (metis mod_less_divisor zero_less_numeral)

lemma byte_div_less [simp]: "byte_code c div 16 < 16" "byte_code c div 64 < 4" "byte_code c div 4 < 64"
  using byte_code_less [of c] by (auto simp: less_mult_imp_div_less)

lemma b64_ranges [simp]:
  "(a::nat) mod 4 * 16 < 64" "(a::nat) mod 16 * 4 < 64" "byte_code b mod 64 < 64"
  "(a::nat) mod 4 * 16 + byte_code c div 16 < 64" "(a::nat) mod 16 * 4 + byte_code c div 64 < 64"
proof -
  have "a mod 4 < 4" "a mod 16 < 16" by simp_all
  with byte_div_less [of c]
  show "a mod 4 * 16 < 64" "a mod 16 * 4 < 64"
    "a mod 4 * 16 + byte_code c div 16 < 64" "a mod 16 * 4 + byte_code c div 64 < 64" by linarith+
qed simp

lemma b64_first: "(a::nat) div 4 * 4 + (a mod 4 * 16 + b) div 16 = a" if "b < 16"
  using that by simp

lemma b64_second: "(a mod 4 * 16 + (b::nat) div 16) mod 16 * 16 + (b mod 16 * 4 + c) div 4 = b"
  if "b div 16 < 16" "c < 4" for a :: nat
  using that by simp

lemma b64_third: "(b mod 16 * 4 + (c::nat) div 64) mod 4 * 64 + c mod 64 = c" if "c div 64 < 4" for b :: nat
  using that by simp

lemma encode_no_breaks: "filter (\<lambda>c. c \<notin> {CHR 0x0A, CHR 0x0D}) (base64_encode s) = base64_encode s"
  by (induction s rule: base64_encode.induct) simp_all

lemma quanta_encode: "b64_quanta (base64_encode s) = (s, False)"
proof (induction s rule: base64_encode.induct)
  case (2 a)
  have "byte_code a div 4 * 4 + byte_code a mod 4 * 16 div 16 = byte_code a"
    using b64_first [of 0 "byte_code a"] by simp
  then show ?case by simp
next
  case (3 a b)
  have "(byte_code a mod 4 * 16 + byte_code b div 16) mod 16 * 16 + byte_code b mod 16 * 4 div 4 = byte_code b"
    using b64_second [of "byte_code b" 0 "byte_code a"] by simp
  then show ?case by (simp add: b64_first)
next
  case (4 a b c s)
  then show ?case
    by (simp add: b64_first b64_second b64_third)
qed simp

lemma base64_roundtrip: "base64_decode (base64_encode s) = (s, False)"
  unfolding base64_decode_def encode_no_breaks by (rule quanta_encode)

text \<open>Decoding never lengthens: attachments take at most three bytes for four characters.\<close>

lemma b64_quanta_length: "4 * length (fst (b64_quanta s)) \<le> 3 * length s"
  by (induction s rule: b64_quanta.induct) (auto split: option.splits prod.splits)

lemma base64_decode_length: "4 * length (fst (base64_decode s)) \<le> 3 * length s"
proof -
  have "length (filter P s) \<le> length s" for P :: "char \<Rightarrow> bool" by (rule length_filter_le)
  then show ?thesis
    using b64_quanta_length [of "filter (\<lambda>c. c \<notin> {CHR 0x0A, CHR 0x0D}) s"]
    unfolding base64_decode_def by (meson le_trans mult_le_mono2)
qed

end
