(* ===== verification/History.thy ===== *)
theory History
  imports Memory_DB "HOL-Library.Multiset" "HOL-Library.Signed_Division"
begin

text \<open>
  History queries and statistics over a database (\<open>internal/history/store.go\<close> and
  \<open>internal/history/analytics.go\<close>). The database is the record of the interface's methods, so that
  every error branch of the code is one of the model. A list operation takes the order in which the
  database visits its keys. A \<open>float64\<close> is a rational number: rates and averages are quotients of
  numbers far below 2^53, and the model leaves their rounding out.
\<close>

section \<open>Errors of the database\<close>

definition wrap_error :: "string \<Rightarrow> string + 'a \<Rightarrow> string + 'a" where
  "wrap_error what r = (case r of Inl e \<Rightarrow> Inl (what @ '': '' @ e) | Inr x \<Rightarrow> Inr x)"

lemma wrap_error_Inr [simp]: "wrap_error what (Inr x) = Inr x"
  by (simp add: wrap_error_def)

section \<open>Queries\<close>

definition thread_history ::
  "'d database \<Rightarrow> string \<Rightarrow> int \<Rightarrow> int \<Rightarrow> 'd \<Rightarrow> (string + message list) option" where
  "thread_history db threadID limit offset d =
     map_option (wrap_error ''get messages'') (db_GetMessagesByThread db threadID limit offset d)"

definition user_conversations ::
  "'d database \<Rightarrow> string list \<Rightarrow> string \<Rightarrow> int \<Rightarrow> int \<Rightarrow> 'd \<Rightarrow> (string + conversation list) option" where
  "user_conversations db ks userID limit offset d =
     map_option (wrap_error ''list conversations'') (db_ListConversations db ks userID limit offset d)"

text \<open>The two loops of \<open>sortMessagesDesc\<close>, over the indices of the slice.\<close>

function sort_inner :: "nat \<Rightarrow> nat \<Rightarrow> message list \<Rightarrow> message list" where
  "sort_inner i j msgs =
     (if j < length msgs
      then sort_inner i (Suc j)
             (if msg_CreatedAt (msgs ! j) > msg_CreatedAt (msgs ! i)
              then msgs[i := msgs ! j, j := msgs ! i] else msgs)
      else msgs)"
  by pat_completeness auto
termination
  by (relation "measure (\<lambda>(i, j, msgs). length msgs - j)") auto

declare sort_inner.simps [simp del]

lemma length_sort_inner [simp]: "length (sort_inner i j msgs) = length msgs"
proof (induction i j msgs rule: sort_inner.induct)
  case (1 i j msgs)
  then show ?case by (subst sort_inner.simps) simp
qed

function sort_outer :: "nat \<Rightarrow> message list \<Rightarrow> message list" where
  "sort_outer i msgs =
     (if i < length msgs then sort_outer (Suc i) (sort_inner i (Suc i) msgs) else msgs)"
  by pat_completeness auto
termination
  by (relation "measure (\<lambda>(i, msgs). length msgs - i)") auto

declare sort_outer.simps [simp del]

definition sort_messages_desc :: "message list \<Rightarrow> message list" where
  "sort_messages_desc msgs = sort_outer 0 msgs"

text \<open>The loop over the conversations that \<open>RecentMessages\<close> and the searches share: a thread that cannot be read is skipped.\<close>

fun collect_threads ::
  "'d database \<Rightarrow> int \<Rightarrow> 'd \<Rightarrow> conversation list \<Rightarrow> message list option" where
  "collect_threads db limit d [] = Some []"
| "collect_threads db limit d (c # cs) =
     (case db_GetMessagesByThread db (cv_ID c) limit 0 d of
        None \<Rightarrow> None
      | Some (Inl e) \<Rightarrow> collect_threads db limit d cs
      | Some (Inr msgs) \<Rightarrow> map_option (\<lambda>rest. msgs @ rest) (collect_threads db limit d cs))"

definition recent_messages ::
  "'d database \<Rightarrow> string list \<Rightarrow> string \<Rightarrow> int \<Rightarrow> 'd \<Rightarrow> (string + message list) option" where
  "recent_messages db ks userID limit d =
     (case db_ListConversations db ks userID 100 0 d of
        None \<Rightarrow> None
      | Some (Inl e) \<Rightarrow> Some (Inl (''list conversations: '' @ e))
      | Some (Inr convs) \<Rightarrow>
          (case collect_threads db limit d convs of
             None \<Rightarrow> None
           | Some msgs \<Rightarrow>
               let all = sort_messages_desc msgs
               in map_option Inr (if int (length all) > limit then slice all 0 limit else Some all)))"

definition archive_thread :: "'d database \<Rightarrow> string \<Rightarrow> 'd \<Rightarrow> string option \<times> 'd" where
  "archive_thread db threadID d =
     (case db_DeleteMessagesByThread db threadID d of
        (Some e, d') \<Rightarrow> (Some (''delete messages: '' @ e), d')
      | (None, d') \<Rightarrow> (None, d'))"

definition delete_thread :: "'d database \<Rightarrow> string \<Rightarrow> 'd \<Rightarrow> string option \<times> 'd" where
  "delete_thread db threadID d =
     (case db_DeleteMessagesByThread db threadID d of
        (Some e, d') \<Rightarrow> (Some (''delete messages: '' @ e), d')
      | (None, d') \<Rightarrow>
          (case db_DeleteConversation db threadID d' of
             (Some e, d'') \<Rightarrow> (Some (''delete conversation: '' @ e), d'')
           | (None, d'') \<Rightarrow> (None, d'')))"

definition job_history ::
  "'d database \<Rightarrow> string list \<Rightarrow> string \<Rightarrow> int \<Rightarrow> int \<Rightarrow> 'd \<Rightarrow> (string + job list) option" where
  "job_history db ks userID limit offset d =
     map_option (wrap_error ''list jobs'') (db_ListJobs db ks userID limit offset d)"

definition action_history :: "'d database \<Rightarrow> string \<Rightarrow> 'd \<Rightarrow> string + action_record list" where
  "action_history db jobID d = wrap_error ''list action records'' (db_ListActionRecordsByJob db jobID d)"

section \<open>Search\<close>

record search_result =
  sr_ThreadID :: string
  sr_MessageID :: string
  sr_Role :: string
  sr_Content :: string
  sr_MatchedText :: string
  sr_CreatedAt :: instant

text \<open>
  The window around a match: \<open>start\<close> and \<open>end\<close> as the code computes them, and the slice, which would
  panic outside the content. The position comes from the lower-case copy, which may be longer or
  shorter than the content.
\<close>

definition snippet_window :: "int \<Rightarrow> int \<Rightarrow> int \<Rightarrow> int \<times> int" where
  "snippet_window len idx maxLen =
     (let start = (if idx - maxLen sdiv 4 < 0 then 0 else idx - maxLen sdiv 4);
          stop = start + maxLen
      in if stop > len then (if len - maxLen < 0 then 0 else len - maxLen, len) else (start, stop))"

definition extract_snippet :: "(string \<Rightarrow> string) \<Rightarrow> string \<Rightarrow> string \<Rightarrow> int \<Rightarrow> string option" where
  "extract_snippet ucase content query maxLen =
     (if int (length content) \<le> maxLen then Some content
      else case index_of (to_lower ucase content) (to_lower ucase query) of
             None \<Rightarrow>
               (if int (length content) > maxLen
                then map_option (\<lambda>s. s @ ''...'') (slice content 0 maxLen) else Some content)
           | Some idx \<Rightarrow>
               (case snippet_window (int (length content)) (int idx) maxLen of
                  (start, stop) \<Rightarrow>
                    map_option (\<lambda>s. (if start > 0 then ''...'' else []) @ s @
                                    (if stop < int (length content) then ''...'' else []))
                      (slice content start stop)))"

definition search_hit :: "(string \<Rightarrow> string) \<Rightarrow> string \<Rightarrow> message \<Rightarrow> bool" where
  "search_hit ucase query msg =
     contains (to_lower ucase (msg_Content msg)) (to_lower ucase query)"

definition search_entry :: "(string \<Rightarrow> string) \<Rightarrow> string \<Rightarrow> message \<Rightarrow> search_result option" where
  "search_entry ucase query msg =
     map_option (\<lambda>snip. \<lparr>sr_ThreadID = msg_ThreadID msg, sr_MessageID = msg_ID msg, sr_Role = msg_Role msg,
         sr_Content = msg_Content msg, sr_MatchedText = snip, sr_CreatedAt = msg_CreatedAt msg\<rparr>)
       (extract_snippet ucase (msg_Content msg) query 80)"

text \<open>
  The loop over the messages of one thread: the flag says that the search has returned because the
  limit was reached.
\<close>

fun search_thread ::
  "(string \<Rightarrow> string) \<Rightarrow> string \<Rightarrow> int \<Rightarrow> message list \<Rightarrow> search_result list \<Rightarrow>
   (bool \<times> search_result list) option" where
  "search_thread ucase query limit [] results = Some (False, results)"
| "search_thread ucase query limit (msg # msgs) results =
     (if search_hit ucase query msg
      then (case search_entry ucase query msg of
              None \<Rightarrow> None
            | Some r \<Rightarrow>
                if int (length (results @ [r])) \<ge> limit then Some (True, results @ [r])
                else search_thread ucase query limit msgs (results @ [r]))
      else search_thread ucase query limit msgs results)"

fun search_convs ::
  "'d database \<Rightarrow> (string \<Rightarrow> string) \<Rightarrow> string \<Rightarrow> int \<Rightarrow> 'd \<Rightarrow> conversation list \<Rightarrow> search_result list \<Rightarrow>
   search_result list option" where
  "search_convs db ucase query limit d [] results = Some results"
| "search_convs db ucase query limit d (c # cs) results =
     (case db_GetMessagesByThread db (cv_ID c) 1000 0 d of
        None \<Rightarrow> None
      | Some (Inl e) \<Rightarrow> search_convs db ucase query limit d cs results
      | Some (Inr msgs) \<Rightarrow>
          (case search_thread ucase query limit msgs results of
             None \<Rightarrow> None
           | Some (True, results') \<Rightarrow> Some results'
           | Some (False, results') \<Rightarrow> search_convs db ucase query limit d cs results'))"

definition search_messages ::
  "'d database \<Rightarrow> (string \<Rightarrow> string) \<Rightarrow> string list \<Rightarrow> string \<Rightarrow> string \<Rightarrow> int \<Rightarrow> 'd \<Rightarrow>
   (string + search_result list) option" where
  "search_messages db ucase ks userID query limit d =
     (if query = [] then Some (Inr [])
      else case db_ListConversations db ks userID 100 0 d of
             None \<Rightarrow> None
           | Some (Inl e) \<Rightarrow> Some (Inl (''list conversations: '' @ e))
           | Some (Inr convs) \<Rightarrow> map_option Inr (search_convs db ucase query limit d convs []))"

section \<open>Statistics\<close>

record job_stats =
  js_TotalJobs :: int
  js_CompletedJobs :: int
  js_FailedJobs :: int
  js_SuccessRate :: rat
  js_AvgDurationSecs :: rat

record tool_stats =
  ts_ToolName :: string
  ts_TotalCalls :: int
  ts_SuccessfulCalls :: int
  ts_FailedCalls :: int
  ts_SuccessRate :: rat
  ts_AvgDurationMs :: rat

record activity_summary =
  as_Period :: string
  as_TotalMessages :: int
  as_TotalJobs :: int
  as_CompletedJobs :: int
  as_FailedJobs :: int
  as_UniqueToolsUsed :: int
  as_TopTools :: "tool_stats list"

text \<open>\<open>Time.Sub\<close> saturates at the ends of the range of a duration; \<open>Duration.Milliseconds\<close> truncates.\<close>

definition time_sub :: "instant \<Rightarrow> instant \<Rightarrow> duration" where
  "time_sub t u = max (- (2 ^ 63)) (min (2 ^ 63 - 1) (t - u))"

definition duration_ms :: "duration \<Rightarrow> int" where
  "duration_ms d = d sdiv 1000000"

text \<open>The counters of the loop of \<open>GetJobStats\<close>: total, completed, failed and the total duration.\<close>

definition count_job :: "job \<Rightarrow> int \<times> int \<times> int \<times> duration \<Rightarrow> int \<times> int \<times> int \<times> duration" where
  "count_job j = (\<lambda>(tot, completed, failed, dur).
     (tot + 1,
      if job_Status j = ''completed'' then completed + 1 else completed,
      if job_Status j = ''failed'' then failed + 1 else failed,
      let d = time_sub (job_UpdatedAt j) (job_CreatedAt j) in if d > 0 then int64 (dur + d) else dur))"

definition get_job_stats :: "'d database \<Rightarrow> string list \<Rightarrow> 'd \<Rightarrow> (string + job_stats) option" where
  "get_job_stats db ks d =
     (case db_ListJobs db ks [] 10000 0 d of
        None \<Rightarrow> None
      | Some (Inl e) \<Rightarrow> Some (Inl (''list jobs: '' @ e))
      | Some (Inr js) \<Rightarrow>
          (case fold count_job js (0, 0, 0, 0) of
             (tot, completed, failed, dur) \<Rightarrow>
               Some (Inr \<lparr>js_TotalJobs = tot, js_CompletedJobs = completed, js_FailedJobs = failed,
                 js_SuccessRate = (if tot > 0 then of_int completed / of_int tot else 0),
                 js_AvgDurationSecs =
                   (if tot > 0 then of_int dur / of_int second / of_int tot else 0)\<rparr>)))"

record tool_agg =
  ag_total :: int
  ag_success :: int
  ag_failed :: int
  ag_totalDurMs :: rat

definition count_record :: "action_record \<Rightarrow> (string \<rightharpoonup> tool_agg) \<Rightarrow> (string \<rightharpoonup> tool_agg)" where
  "count_record rec m =
     (let a = (case m (ar_ToolName rec) of
                 None \<Rightarrow> \<lparr>ag_total = 0, ag_success = 0, ag_failed = 0, ag_totalDurMs = 0\<rparr>
               | Some a \<Rightarrow> a)
      in m(ar_ToolName rec \<mapsto>
           \<lparr>ag_total = ag_total a + 1,
            ag_success = (if ar_Error rec = [] then ag_success a + 1 else ag_success a),
            ag_failed = (if ar_Error rec = [] then ag_failed a else ag_failed a + 1),
            ag_totalDurMs = ag_totalDurMs a + of_int (duration_ms (ar_Duration rec))\<rparr>))"

fun aggregate_jobs ::
  "'d database \<Rightarrow> 'd \<Rightarrow> job list \<Rightarrow> (string \<rightharpoonup> tool_agg) \<Rightarrow> (string \<rightharpoonup> tool_agg)" where
  "aggregate_jobs db d [] m = m"
| "aggregate_jobs db d (j # js) m =
     (case db_ListActionRecordsByJob db (job_ID j) d of
        Inl e \<Rightarrow> aggregate_jobs db d js m
      | Inr recs \<Rightarrow> aggregate_jobs db d js (fold count_record recs m))"

definition tool_entry :: "string \<times> tool_agg \<Rightarrow> tool_stats" where
  "tool_entry = (\<lambda>(name, a).
     \<lparr>ts_ToolName = name, ts_TotalCalls = ag_total a, ts_SuccessfulCalls = ag_success a,
      ts_FailedCalls = ag_failed a,
      ts_SuccessRate = (if ag_total a > 0 then of_int (ag_success a) / of_int (ag_total a) else 0),
      ts_AvgDurationMs = (if ag_total a > 0 then ag_totalDurMs a / of_int (ag_total a) else 0)\<rparr>)"

definition get_tool_stats ::
  "'d database \<Rightarrow> string list \<Rightarrow> string list \<Rightarrow> 'd \<Rightarrow> (string + tool_stats list) option" where
  "get_tool_stats db ks names d =
     (case db_ListJobs db ks [] 10000 0 d of
        None \<Rightarrow> None
      | Some (Inl e) \<Rightarrow> Some (Inl (''list jobs: '' @ e))
      | Some (Inr js) \<Rightarrow> Some (Inr (map tool_entry (range_map names (aggregate_jobs db d js Map.empty)))))"

fun count_messages :: "'d database \<Rightarrow> instant \<Rightarrow> 'd \<Rightarrow> conversation list \<Rightarrow> int \<Rightarrow> int option" where
  "count_messages db since d [] n = Some n"
| "count_messages db since d (c # cs) n =
     (case db_GetMessagesByThread db (cv_ID c) 1000 0 d of
        None \<Rightarrow> None
      | Some (Inl e) \<Rightarrow> count_messages db since d cs n
      | Some (Inr msgs) \<Rightarrow>
          count_messages db since d cs
            (n + int (length (filter (\<lambda>msg. msg_CreatedAt msg > since \<or> msg_CreatedAt msg = since) msgs))))"

text \<open>
  The loop over the jobs of the summary: total, completed and failed jobs, and the set of tools.
\<close>

fun count_activity ::
  "'d database \<Rightarrow> instant \<Rightarrow> 'd \<Rightarrow> job list \<Rightarrow> int \<times> int \<times> int \<times> (string \<rightharpoonup> unit) \<Rightarrow>
   int \<times> int \<times> int \<times> (string \<rightharpoonup> unit)" where
  "count_activity db since d [] acc = acc"
| "count_activity db since d (j # js) acc =
     (if job_CreatedAt j < since then count_activity db since d js acc
      else case acc of (tot, completed, failed, used) \<Rightarrow>
        count_activity db since d js
          (tot + 1,
           if job_Status j = ''completed'' then completed + 1 else completed,
           if job_Status j = ''failed'' then failed + 1 else failed,
           case db_ListActionRecordsByJob db (job_ID j) d of
             Inl e \<Rightarrow> used
           | Inr recs \<Rightarrow> fold (\<lambda>rec u. u(ar_ToolName rec \<mapsto> ())) recs used))"

definition get_user_activity_summary ::
  "'d database \<Rightarrow> (instant \<Rightarrow> string) \<Rightarrow> string list \<Rightarrow> string list \<Rightarrow> string list \<Rightarrow> string list \<Rightarrow>
   string \<Rightarrow> instant \<Rightarrow> 'd \<Rightarrow> (string + activity_summary) option" where
  "get_user_activity_summary db rfc3339 cks jks jks' names userID since d =
     (case db_ListConversations db cks userID 1000 0 d of
        None \<Rightarrow> None
      | Some (Inl e) \<Rightarrow> Some (Inl (''list conversations: '' @ e))
      | Some (Inr convs) \<Rightarrow>
          (case count_messages db since d convs 0 of
             None \<Rightarrow> None
           | Some totalMessages \<Rightarrow>
               (case db_ListJobs db jks userID 1000 0 d of
                  None \<Rightarrow> None
                | Some (Inl e) \<Rightarrow> Some (Inl (''list jobs: '' @ e))
                | Some (Inr js) \<Rightarrow>
                    (case count_activity db since d js (0, 0, 0, Map.empty) of
                       (tot, completed, failed, used) \<Rightarrow>
                         (case get_tool_stats db jks' names d of
                            None \<Rightarrow> None
                          | Some topTools \<Rightarrow>
                              Some (Inr \<lparr>as_Period = rfc3339 since, as_TotalMessages = totalMessages,
                                as_TotalJobs = tot, as_CompletedJobs = completed, as_FailedJobs = failed,
                                as_UniqueToolsUsed = int (map_len used),
                                as_TopTools = (case topTools of Inl e \<Rightarrow> [] | Inr ts \<Rightarrow> ts)\<rparr>))))))"

section \<open>Lemmas on sorting\<close>

lemma mset_swap_at:
  "i < length xs \<Longrightarrow> j < length xs \<Longrightarrow> mset (xs[i := xs ! j, j := xs ! i]) = mset xs"
  by (rule mset_swap)

lemma mset_sort_inner: "i < length msgs \<Longrightarrow> mset (sort_inner i j msgs) = mset msgs"
proof (induction i j msgs rule: sort_inner.induct)
  case (1 i j msgs)
  then show ?case by (subst sort_inner.simps) (simp add: mset_swap_at)
qed

lemma sort_inner_prefix: "i \<le> j \<Longrightarrow> take i (sort_inner i j msgs) = take i msgs"
proof (induction i j msgs rule: sort_inner.induct)
  case (1 i j msgs)
  then show ?case by (subst sort_inner.simps) (simp add: take_update_cancel)
qed

lemma sort_inner_max:
  assumes "i < j" and "i < length msgs"
    and "\<And>k. i < k \<Longrightarrow> k < j \<Longrightarrow> k < length msgs \<Longrightarrow> msg_CreatedAt (msgs ! k) \<le> msg_CreatedAt (msgs ! i)"
    and "i < k" and "k < length msgs"
  shows "msg_CreatedAt (sort_inner i j msgs ! k) \<le> msg_CreatedAt (sort_inner i j msgs ! i)"
  using assms
proof (induction i j msgs rule: sort_inner.induct)
  case (1 i j msgs)
  show ?case
  proof (cases "j < length msgs")
    case True
    let ?ms = "if msg_CreatedAt (msgs ! j) > msg_CreatedAt (msgs ! i)
               then msgs[i := msgs ! j, j := msgs ! i] else msgs"
    have "msg_CreatedAt (?ms ! k') \<le> msg_CreatedAt (?ms ! i)"
      if "i < k'" "k' < Suc j" "k' < length ?ms" for k'
    proof (cases "k' = j")
      case False
      with that 1(4) [of k'] 1(2,3) show ?thesis by (auto simp: nth_list_update)
    qed (use 1(2,3) that in \<open>auto simp: nth_list_update\<close>)
    with 1 True have "msg_CreatedAt (sort_inner i (Suc j) ?ms ! k) \<le> msg_CreatedAt (sort_inner i (Suc j) ?ms ! i)"
      by (intro "1.IH") auto
    with True show ?thesis by (simp add: sort_inner.simps [of i j])
  qed (use 1 in \<open>auto simp: sort_inner.simps [of i j]\<close>)
qed

lemma set_drop_sort_inner:
  assumes "i < length msgs"
  shows "set (drop i (sort_inner i (Suc i) msgs)) = set (drop i msgs)"
proof -
  let ?ms = "sort_inner i (Suc i) msgs"
  have "mset (take i ?ms) + mset (drop i ?ms) = mset (take i msgs) + mset (drop i msgs)"
    using mset_sort_inner [OF assms, of "Suc i"] by (simp flip: mset_append)
  then have "mset (drop i ?ms) = mset (drop i msgs)"
    by (simp add: sort_inner_prefix)
  then show ?thesis by (rule mset_eq_setD)
qed

text \<open>The part of the slice before \<open>i\<close> is in its final order.\<close>

definition settled_to :: "nat \<Rightarrow> message list \<Rightarrow> bool" where
  "settled_to i msgs \<longleftrightarrow>
     (\<forall>p < i. p < length msgs \<longrightarrow> (\<forall>x \<in> set (drop p msgs). msg_CreatedAt x \<le> msg_CreatedAt (msgs ! p)))"

lemma settled_step:
  assumes "settled_to i msgs" and "i < length msgs"
  shows "settled_to (Suc i) (sort_inner i (Suc i) msgs)"
  unfolding settled_to_def
proof (intro allI impI ballI)
  let ?ms = "sort_inner i (Suc i) msgs"
  fix p x assume p: "p < Suc i" "p < length ?ms" and x: "x \<in> set (drop p ?ms)"
  show "msg_CreatedAt x \<le> msg_CreatedAt (?ms ! p)"
  proof (cases "p = i")
    case True
    from x obtain k where "k < length ?ms - i" "x = ?ms ! (i + k)"
      using assms(2) True by (auto simp: in_set_conv_nth)
    with True assms(2) show ?thesis
      using sort_inner_max [of i "Suc i" msgs "i + k"] by (cases "k = 0") auto
  next
    case False
    with p have pi: "p < i" by simp
    have pre: "take i ?ms = take i msgs" by (simp add: sort_inner_prefix)
    have "drop p xs = drop p (take i xs) @ drop i xs" if "i < length xs" for xs :: "message list"
    proof -
      have "drop p (take i xs @ drop i xs) = drop p (take i xs) @ drop i xs"
        using pi that by (simp del: append_take_drop_id)
      then show ?thesis by simp
    qed
    from this [of ?ms] this [of msgs] assms(2) have "set (drop p ?ms) = set (drop p msgs)"
      using pre set_drop_sort_inner [OF assms(2)] by simp
    moreover have "?ms ! p = msgs ! p"
      using pre pi by (metis nth_take)
    ultimately show ?thesis
      using assms pi p x by (auto simp: settled_to_def)
  qed
qed

lemma sort_outer_settles:
  "settled_to i msgs \<Longrightarrow> settled_to (length msgs) (sort_outer i msgs) \<and> mset (sort_outer i msgs) = mset msgs"
proof (induction i msgs rule: sort_outer.induct)
  case (1 i msgs)
  show ?case
  proof (cases "i < length msgs")
    case True
    with 1 show ?thesis
      by (simp add: sort_outer.simps [of i] settled_step mset_sort_inner)
  next
    case False
    with 1 show ?thesis
      by (simp add: sort_outer.simps [of i] settled_to_def)
  qed
qed

definition newest_first :: "message list \<Rightarrow> bool" where
  "newest_first = sorted_wrt (\<lambda>x y. msg_CreatedAt y \<le> msg_CreatedAt x)"

lemma settled_sorted:
  assumes "settled_to (length msgs) msgs"
  shows "newest_first msgs"
  unfolding newest_first_def sorted_wrt_iff_nth_less
proof (intro allI impI)
  fix p k assume pk: "p < k" "k < length msgs"
  then have "msgs ! k = drop p msgs ! (k - p)" "k - p < length (drop p msgs)" by simp_all
  then have "msgs ! k \<in> set (drop p msgs)" by (metis nth_mem)
  with assms pk show "msg_CreatedAt (msgs ! k) \<le> msg_CreatedAt (msgs ! p)"
    by (simp add: settled_to_def)
qed

lemma sort_messages_desc_correct:
  "newest_first (sort_messages_desc msgs) \<and> mset (sort_messages_desc msgs) = mset msgs"
proof -
  have *: "settled_to (length msgs) (sort_outer 0 msgs)" "mset (sort_outer 0 msgs) = mset msgs"
    using sort_outer_settles [of 0 msgs] by (simp_all add: settled_to_def)
  then show ?thesis
    using settled_sorted [of "sort_outer 0 msgs"] mset_eq_length [OF *(2)]
    by (simp add: sort_messages_desc_def)
qed

section \<open>Lemmas on snippets\<close>

lemma slice_ok: "0 \<le> a \<Longrightarrow> a \<le> b \<Longrightarrow> b \<le> int (length xs) \<Longrightarrow> slice xs a b = Some (take (nat b - nat a) (drop (nat a) xs))"
  by (simp add: slice_def)

lemma sdiv_four [simp]: "0 \<le> n \<Longrightarrow> n sdiv 4 = n div (4 :: int)"
  by (cases "n = 0") (auto simp: signed_divide_int_def)

lemma snippet_window_inside:
  assumes "0 \<le> maxLen" and "maxLen < len" and "snippet_window len idx maxLen = (a, b)"
  shows "0 \<le> a \<and> b = a + maxLen \<and> b \<le> len"
  using assms by (auto simp: snippet_window_def Let_def split: if_splits)

lemma snippet_window_covers:
  assumes "0 \<le> maxLen" and "maxLen < len" and "snippet_window len idx maxLen = (a, b)"
    and "0 \<le> idx" and "idx + n \<le> len" and "4 * n \<le> 3 * maxLen"
  shows "a \<le> idx \<and> idx + n \<le> b"
  using assms by (auto simp: snippet_window_def Let_def split: if_splits)

text \<open>The form of a snippet: a piece of the content no longer than the window, marked where it is cut.\<close>

definition snippet_of :: "string \<Rightarrow> int \<Rightarrow> string \<Rightarrow> bool" where
  "snippet_of content maxLen s \<longleftrightarrow>
     (\<exists>pre mid post u v. s = pre @ mid @ post \<and> pre \<in> {[], ''...''} \<and> post \<in> {[], ''...''} \<and>
        content = u @ mid @ v \<and> int (length mid) \<le> maxLen)"

lemma snippet_ofI:
  "pre \<in> {[], ''...''} \<Longrightarrow> post \<in> {[], ''...''} \<Longrightarrow> content = u @ mid @ v \<Longrightarrow> int (length mid) \<le> maxLen \<Longrightarrow>
     snippet_of content maxLen (pre @ mid @ post)"
  unfolding snippet_of_def by blast

lemma snippet_of_length: "snippet_of content maxLen s \<Longrightarrow> int (length s) \<le> maxLen + 6"
  by (auto simp: snippet_of_def)

lemma extract_snippet_shape:
  assumes "0 \<le> maxLen"
  shows "\<exists>s. extract_snippet ucase content query maxLen = Some s \<and> snippet_of content maxLen s"
proof (cases "int (length content) \<le> maxLen")
  case True
  then show ?thesis
    using snippet_ofI [of "[]" "[]" content "[]" content "[]" maxLen] by (simp add: extract_snippet_def)
next
  case long: False
  show ?thesis
  proof (cases "index_of (to_lower ucase content) (to_lower ucase query)")
    case None
    then show ?thesis
      using long assms snippet_ofI [of "[]" "''...''" content "[]" "take (nat maxLen) content" "drop (nat maxLen) content" maxLen]
      by (simp add: extract_snippet_def slice_ok)
  next
    case (Some idx)
    obtain a b where w: "snippet_window (int (length content)) (int idx) maxLen = (a, b)" by fastforce
    from snippet_window_inside [OF assms _ w] long
    have ab: "0 \<le> a" "b = a + maxLen" "b \<le> int (length content)" by simp_all
    let ?mid = "take (nat b - nat a) (drop (nat a) content)"
    let ?s = "(if a > 0 then ''...'' else []) @ ?mid @ (if b < int (length content) then ''...'' else [])"
    have "extract_snippet ucase content query maxLen = Some ?s"
      using Some w long ab assms by (simp add: extract_snippet_def slice_ok)
    moreover have "snippet_of content maxLen ?s"
    proof (rule snippet_ofI)
      show "content = take (nat a) content @ ?mid @ drop (nat b - nat a) (drop (nat a) content)"
        by (simp del: drop_drop)
    qed (use ab assms in auto)
    ultimately show ?thesis by blast
  qed
qed

lemma index_of_contains: "index_of s p = None \<longleftrightarrow> \<not> contains s p"
  by (simp add: contains_def)

lemma contains_inside: "contains t p \<Longrightarrow> contains (u @ t @ v) p"
  by (metis append.assoc contains_iff)

lemma to_lower_ascii: "list_all is_ascii s \<Longrightarrow> to_lower ucase s = map ascii_lower s"
  by (simp add: to_lower_def)

lemma extract_snippet_match:
  assumes "list_all is_ascii content" and "list_all is_ascii query" and "0 \<le> maxLen"
    and "4 * int (length query) \<le> 3 * maxLen" and "contains (to_lower ucase content) (to_lower ucase query)"
    and "extract_snippet ucase content query maxLen = Some s"
  shows "contains (to_lower ucase s) (to_lower ucase query)"
proof (cases "int (length content) \<le> maxLen")
  case True
  with assms(5,6) show ?thesis by (simp add: extract_snippet_def)
next
  case long: False
  let ?c = "map ascii_lower content" and ?q = "map ascii_lower query"
  obtain idx where i: "index_of ?c ?q = Some idx"
    using assms(1,2,5) by (auto simp: contains_def to_lower_ascii)
  then obtain u v where uv: "?c = u @ ?q @ v" "length u = idx"
    using index_of_Some by blast
  have len: "int idx + int (length query) \<le> int (length content)"
    using arg_cong [OF uv(1), of length] uv(2) by simp
  obtain a b where w: "snippet_window (int (length content)) (int idx) maxLen = (a, b)" by fastforce
  have ab: "0 \<le> a" "b = a + maxLen" "b \<le> int (length content)" "a \<le> int idx" "int idx + int (length query) \<le> b"
    using snippet_window_inside [OF assms(3) _ w] snippet_window_covers [OF assms(3) _ w _ len] long assms(4)
    by simp_all
  let ?mid = "take (nat b - nat a) (drop (nat a) content)"
  have "map ascii_lower ?mid = take (nat b - nat a) (drop (nat a) u @ ?q @ v)"
    using uv ab by (simp flip: take_map drop_map)
  also have "\<dots> = drop (nat a) u @ ?q @ take (nat b - nat a - (idx - nat a) - length query) v"
    using ab uv(2) by simp
  finally have mid: "contains (map ascii_lower ?mid) ?q"
    by (metis contains_append)
  have s: "s = (if a > 0 then ''...'' else []) @ ?mid @ (if b < int (length content) then ''...'' else [])"
    using assms(1,2,6) long w i ab by (simp add: extract_snippet_def to_lower_ascii slice_ok split: prod.splits)
  moreover have "list_all is_ascii ?mid"
    using assms(1) by (auto simp: list_all_iff dest!: in_set_takeD in_set_dropD)
  ultimately have "list_all is_ascii s"
    by (simp add: is_ascii_def)
  then have "to_lower ucase s = map ascii_lower (if a > 0 then ''...'' else []) @ map ascii_lower ?mid @
      map ascii_lower (if b < int (length content) then ''...'' else [])"
    by (simp only: to_lower_ascii s map_append)
  with mid assms(2) show ?thesis
    by (simp only: to_lower_ascii contains_inside)
qed

section \<open>Lemmas on the in-memory database\<close>

definition convs_of :: "string list \<Rightarrow> string \<Rightarrow> memory_db \<Rightarrow> conversation list" where
  "convs_of ks u m = filter (\<lambda>c. cv_UserID c = u) (map snd (range_map ks (conversations m)))"

lemma memory_lists [simp]:
  "db_ListConversations memory_database ks u 100 0 m = Some (Inr (take 100 (convs_of ks u m)))"
  "db_ListJobs memory_database ks [] 10000 0 m = Some (Inr (take 10000 (map snd (range_map ks (jobs m)))))"
  "db_ListActionRecordsByJob memory_database i m = Inr (actions m i)"
  by (simp_all add: memory_database_def list_conversations_def list_jobs_def convs_of_def paginate_ok
      list_action_records_by_job_def)

lemma memory_thread:
  "0 < limit \<Longrightarrow> limit < 2 ^ 63 \<Longrightarrow>
     db_GetMessagesByThread memory_database t limit 0 m = Some (Inr (take (nat limit) (messages m t)))"
  by (simp add: memory_database_def get_messages_by_thread_def paginate_ok)

lemma collect_memory:
  assumes "0 < limit" and "limit < 2 ^ 63"
  shows "collect_threads memory_database limit m cs =
    Some (concat (map (\<lambda>c. take (nat limit) (messages m (cv_ID c))) cs))"
  using assms by (induction cs) (simp_all add: memory_thread)

lemma search_entry_total: "\<exists>r. search_entry ucase query msg = Some r"
  using extract_snippet_shape [of 80 ucase "msg_Content msg" query] by (auto simp: search_entry_def)

lemma search_entry_fields:
  "search_entry ucase query msg = Some r \<Longrightarrow> sr_ThreadID r = msg_ThreadID msg \<and> sr_MessageID r = msg_ID msg \<and>
     sr_Role r = msg_Role msg \<and> sr_Content r = msg_Content msg \<and> sr_CreatedAt r = msg_CreatedAt msg \<and>
     extract_snippet ucase (msg_Content msg) query 80 = Some (sr_MatchedText r)"
  by (auto simp: search_entry_def)

lemma search_thread_first:
  assumes "int (length rs) < limit"
  shows "search_thread ucase q limit msgs rs =
    (let es = map (\<lambda>x. the (search_entry ucase q x)) (filter (search_hit ucase q) msgs)
     in Some (int (length rs + length es) \<ge> limit, rs @ take (nat limit - length rs) es))"
  using assms
proof (induction msgs arbitrary: rs)
  case (Cons x msgs)
  obtain r where r: "search_entry ucase q x = Some r" using search_entry_total by blast
  show ?case
  proof (cases "search_hit ucase q x \<and> int (length (rs @ [r])) < limit")
    case True
    then have "nat limit - length rs = Suc (nat limit - length (rs @ [r]))" by auto
    with True r Cons.IH [of "rs @ [r]"] show ?thesis by (simp add: Let_def ac_simps)
  next
    case False
    then consider "\<not> search_hit ucase q x" | "search_hit ucase q x" "nat limit - length rs = 1" "int (length rs) + 1 \<ge> limit"
      using Cons.prems by fastforce
    then show ?thesis
      using r Cons by cases (simp_all add: Let_def)
  qed
qed (simp add: Let_def)

text \<open>The limit is looked at after a match was added, so that a limit below one acts as one.\<close>

lemma search_thread_limit:
  "search_thread ucase q limit msgs rs = search_thread ucase q (max 1 limit) msgs rs"
proof (induction msgs arbitrary: rs)
  case (Cons x msgs)
  show ?case
  proof (cases "search_entry ucase q x")
    case (Some r)
    have "int (length (rs @ [r])) \<ge> limit \<longleftrightarrow> int (length (rs @ [r])) \<ge> max 1 limit" by simp
    with Some show ?thesis
      by (simp only: search_thread.simps option.case Cons.IH [of rs] Cons.IH [of "rs @ [r]"])
  qed (simp add: Cons.IH [of rs, symmetric])
qed simp

lemma search_convs_limit:
  "search_convs db ucase q limit m cs rs = search_convs db ucase q (max 1 limit) m cs rs"
proof (induction cs arbitrary: rs)
  case (Cons c cs)
  show ?case
    unfolding search_convs.simps search_thread_limit [of ucase q limit] Cons.IH ..
qed simp

lemma search_convs_first:
  assumes "int (length rs) < limit"
  shows "search_convs memory_database ucase q limit m cs rs =
    Some (rs @ take (nat limit - length rs) (map (\<lambda>x. the (search_entry ucase q x))
      (filter (search_hit ucase q) (concat (map (\<lambda>c. take 1000 (messages m (cv_ID c))) cs)))))"
  using assms
proof (induction cs arbitrary: rs)
  case (Cons c cs)
  let ?es = "map (\<lambda>x. the (search_entry ucase q x)) (filter (search_hit ucase q) (take 1000 (messages m (cv_ID c))))"
  have g: "db_GetMessagesByThread memory_database (cv_ID c) 1000 0 m = Some (Inr (take 1000 (messages m (cv_ID c))))"
    using memory_thread [of 1000 "cv_ID c" m] by simp
  show ?case
  proof (cases "int (length rs + length ?es) \<ge> limit")
    case True
    with Cons.prems have "nat limit - length rs \<le> length ?es" by simp
    with True g search_thread_first [OF Cons.prems, of ucase q "take 1000 (messages m (cv_ID c))"]
    show ?thesis by (simp add: Let_def)
  next
    case False
    then have all: "take (nat limit - length rs) ?es = ?es"
      and rest: "nat limit - length (rs @ ?es) = nat limit - length rs - length ?es"
      using Cons.prems by auto
    from False have "int (length (rs @ ?es)) < limit" by simp
    from Cons.IH [OF this] False g all rest
      search_thread_first [OF Cons.prems, of ucase q "take 1000 (messages m (cv_ID c))"]
    show ?thesis by (simp add: Let_def)
  qed
qed simp

section \<open>Lemmas on the aggregation\<close>

definition calls_of :: "string \<Rightarrow> action_record list \<Rightarrow> action_record list" where
  "calls_of n recs = filter (\<lambda>r. ar_ToolName r = n) recs"

definition agg_of :: "action_record list \<Rightarrow> tool_agg" where
  "agg_of rs = \<lparr>ag_total = int (length rs), ag_success = int (length (filter (\<lambda>r. ar_Error r = []) rs)),
     ag_failed = int (length (filter (\<lambda>r. ar_Error r \<noteq> []) rs)),
     ag_totalDurMs = of_int (sum_list (map (\<lambda>r. duration_ms (ar_Duration r)) rs))\<rparr>"

definition agg_map :: "action_record list \<Rightarrow> string \<rightharpoonup> tool_agg" where
  "agg_map recs n = (if calls_of n recs = [] then None else Some (agg_of (calls_of n recs)))"

lemma count_record_agg: "count_record r (agg_map recs) = agg_map (recs @ [r])"
  by (rule ext) (auto simp: count_record_def agg_map_def calls_of_def agg_of_def Let_def filter_empty_conv)

lemma fold_count_record: "fold count_record recs (agg_map done') = agg_map (done' @ recs)"
  by (induction recs arbitrary: done') (simp_all add: count_record_agg)

lemma aggregate_jobs_agg:
  "aggregate_jobs memory_database m js (agg_map done') =
     agg_map (done' @ concat (map (\<lambda>j. actions m (job_ID j)) js))"
  by (induction js arbitrary: done') (simp_all add: fold_count_record)

lemma agg_map_Nil: "agg_map [] = Map.empty"
  by (rule ext) (simp add: agg_map_def calls_of_def)

lemma aggregate_all:
  "aggregate_jobs memory_database m js Map.empty = agg_map (concat (map (\<lambda>j. actions m (job_ID j)) js))"
  using aggregate_jobs_agg [of m js "[]"] by (simp add: agg_map_Nil)

lemma dom_agg_map: "dom (agg_map recs) = ar_ToolName ` set recs"
  by (auto simp: agg_map_def calls_of_def filter_empty_conv split: if_splits)

definition counted :: "action_record list \<Rightarrow> tool_stats \<Rightarrow> bool" where
  "counted recs s \<longleftrightarrow>
     ts_TotalCalls s = int (length (filter (\<lambda>r. ar_ToolName r = ts_ToolName s) recs)) \<and>
     ts_SuccessfulCalls s = int (length (filter (\<lambda>r. ar_ToolName r = ts_ToolName s \<and> ar_Error r = []) recs)) \<and>
     ts_SuccessfulCalls s + ts_FailedCalls s = ts_TotalCalls s \<and>
     0 \<le> ts_SuccessRate s \<and> ts_SuccessRate s \<le> 1"

lemma tool_entry_counted: "counted recs (tool_entry (n, agg_of (calls_of n recs)))"
proof -
  let ?cs = "filter (\<lambda>r. ar_ToolName r = n) recs"
  have "length (filter (\<lambda>r. ar_Error r = []) ?cs) + length (filter (\<lambda>r. ar_Error r \<noteq> []) ?cs) = length ?cs"
    by (rule sum_length_filter_compl)
  moreover have "length (filter (\<lambda>r. ar_Error r = []) ?cs) \<le> length ?cs"
    by (rule length_filter_le)
  moreover have "of_int (int a) / of_int (int b) \<le> (1 :: rat)" if "a \<le> b" for a b
    using that by (cases "b = 0") simp_all
  ultimately show ?thesis
    by (simp add: counted_def tool_entry_def agg_of_def calls_of_def del: filter_filter of_int_of_nat_eq)
       (auto simp: conj_commute filter_empty_conv)
qed

section \<open>Properties\<close>

text \<open>
  Recent messages are merged in time order: the answer is the first \<open>limit\<close> messages of a
  newest-first arrangement of what was read from the user's conversations, the first \<open>limit\<close> stored
  messages of each of the first 100.
\<close>

lemma recent_messages_newest_first:
  assumes "0 < limit" and "limit < 2 ^ 63"
  shows "\<exists>all. recent_messages memory_database ks u limit m = Some (Inr (take (nat limit) all)) \<and>
    newest_first all \<and>
    mset all = mset (concat (map (\<lambda>c. take (nat limit) (messages m (cv_ID c))) (take 100 (convs_of ks u m))))"
proof -
  let ?read = "concat (map (\<lambda>c. take (nat limit) (messages m (cv_ID c))) (take 100 (convs_of ks u m)))"
  let ?all = "sort_messages_desc ?read"
  have "recent_messages memory_database ks u limit m = Some (Inr (take (nat limit) ?all))"
    using assms by (simp add: recent_messages_def collect_memory Let_def slice_ok)
  with sort_messages_desc_correct [of ?read] show ?thesis by blast
qed

text \<open>A message at a given time, for the concrete instances of the properties.\<close>

definition demo_message :: "string \<Rightarrow> string \<Rightarrow> instant \<Rightarrow> message" where
  "demo_message i content t = \<lparr>msg_ID = i, msg_ThreadID = ''t'', msg_UserID = ''u'', msg_Role = ''user'',
     msg_Content = content, msg_ToolCalls = [], msg_CreatedAt = t\<rparr>"

definition demo_db :: memory_db where
  "demo_db = save_message 9 (demo_message ''m2'' ''Say hello'' 2)
     (save_message 8 (demo_message ''m1'' ''nothing'' 1)
       (save_conversation 1 \<lparr>cv_ID = ''t'', cv_UserID = ''u'', cv_Channel = [], cv_Title = [], cv_Messages = [],
          cv_CreatedAt = 0, cv_UpdatedAt = 0\<rparr> new_memory_db))"

definition demo_record :: action_record where
  "demo_record = \<lparr>ar_ID = ''r'', ar_JobID = ''j'', ar_ToolName = ''echo'', ar_Input = [], ar_Output = [],
     ar_Error = [], ar_Duration = 5, ar_CreatedAt = 3\<rparr>"

definition demo_jobs :: memory_db where
  "demo_jobs = save_action_record 3 demo_record (save_job 1 \<lparr>job_ID = ''j'', job_UserID = ''u'', job_Name = [],
     job_Status = ''completed'', job_Input = [], job_Output = [], job_Error = [], job_CreatedAt = 0,
     job_UpdatedAt = 0\<rparr> new_memory_db)"

lemma demo_db_messages:
  "messages demo_db ''t'' = [demo_message ''m1'' ''nothing'' 1, demo_message ''m2'' ''Say hello'' 2]"
  by (simp add: demo_db_def messages_save_message)
    (simp add: demo_message_def stamp_message_def is_zero_time_def save_conversation_def new_memory_db_def)

lemma demo_db_convs: "map cv_ID (convs_of [''t''] ''u'' demo_db) = [''t'']"
  by (simp add: demo_db_def convs_of_def range_map_def List.map_filter_def save_message_def Let_def
      save_conversation_def new_memory_db_def demo_message_def stamp_conversation_def)

lemma demo_lower:
  "contains (to_lower id ''Say hello'') (to_lower id ''HELLO'')"
  "\<not> contains (to_lower id ''nothing'') (to_lower id ''HELLO'')"
  "to_lower id ''HELLO'' = ''hello''"
  by code_simp+

theorem recent_messages_newest_first_witness:
  "\<exists>all. recent_messages memory_database [''t''] ''u'' 5 demo_db = Some (Inr (take 5 all)) \<and>
    mset all = mset [demo_message ''m1'' ''nothing'' 1, demo_message ''m2'' ''Say hello'' 2]"
proof -
  obtain c where c: "convs_of [''t''] ''u'' demo_db = [c]" "cv_ID c = ''t''"
    using demo_db_convs by auto
  show ?thesis
    using recent_messages_newest_first [of 5 "[''t'']" "''u''" demo_db] by (auto simp: c demo_db_messages)
qed

text \<open>
  Since a thread is read from its oldest message, a limit below the length of a thread returns an
  older message and leaves the newest out.
\<close>

lemma recent_misses_newest:
  "recent_messages memory_database [''t''] ''u'' 1 demo_db = Some (Inr [demo_message ''m1'' ''nothing'' 1])"
proof -
  obtain c where c: "convs_of [''t''] ''u'' demo_db = [c]" "cv_ID c = ''t''"
    using demo_db_convs by auto
  show ?thesis
    by (simp add: recent_messages_def collect_memory c demo_db_messages sort_messages_desc_def
        sort_outer.simps sort_inner.simps del: collect_threads.simps)
qed

text \<open>
  C35: a search over the in-memory database returns the matches and nothing else: for a query that is not empty the
  results are, in order, the first \<open>limit\<close> messages (at least one, even for a limit below one) that
  contain the query up to case, among the first 1000 of each of the user's first 100 conversations; each
  result has thread, identifier, role, content, time and snippet of its message. The empty query finds
  nothing, and the search neither fails nor panics.
\<close>

theorem search_returns_matches:
  "\<exists>rs. search_messages memory_database ucase ks u query limit m = Some (Inr rs) \<and>
    list_all2 (\<lambda>r x. sr_ThreadID r = msg_ThreadID x \<and> sr_MessageID r = msg_ID x \<and> sr_Role r = msg_Role x \<and>
        sr_Content r = msg_Content x \<and> sr_CreatedAt r = msg_CreatedAt x \<and>
        extract_snippet ucase (msg_Content x) query 80 = Some (sr_MatchedText r))
      rs
      (if query = [] then []
       else take (nat (max 1 limit))
         (filter (\<lambda>x. contains (to_lower ucase (msg_Content x)) (to_lower ucase query))
           (concat (map (\<lambda>c. take 1000 (messages m (cv_ID c))) (take 100 (convs_of ks u m))))))"
proof -
  let ?xs = "take (nat (max 1 limit)) (filter (search_hit ucase query)
     (concat (map (\<lambda>c. take 1000 (messages m (cv_ID c))) (take 100 (convs_of ks u m)))))"
  let ?rs = "map (\<lambda>x. the (search_entry ucase query x)) ?xs"
  have "search_messages memory_database ucase ks u query limit m = Some (Inr (if query = [] then [] else ?rs))"
    using search_convs_first [of "[]" "max 1 limit" ucase query m "take 100 (convs_of ks u m)"]
    by (simp add: search_messages_def take_map) (subst search_convs_limit, simp)
  moreover have "search_entry ucase query x = Some (the (search_entry ucase query x))" for x
    using search_entry_total [of ucase query x] by auto
  ultimately show ?thesis
    using search_entry_fields
    by (intro exI [of _ "if query = [] then [] else ?rs"])
      (simp add: list.rel_map list.rel_refl_strong search_hit_def [abs_def])
qed

theorem search_returns_matches_witness:
  "\<exists>rs. search_messages memory_database id [''t''] ''u'' ''HELLO'' 5 demo_db = Some (Inr rs) \<and>
     map sr_MessageID rs = [''m2'']"
proof -
  obtain c where c: "convs_of [''t''] ''u'' demo_db = [c]" "cv_ID c = ''t''"
    using demo_db_convs by auto
  show ?thesis
    using search_returns_matches [of id "[''t'']" "''u''" "''HELLO''" 5 demo_db]
    by (auto simp: c demo_db_messages demo_message_def demo_lower(1,2) list_all2_Cons2)
qed

text \<open>
  A snippet shows the match: for texts and queries in ASCII, where the query fills at most three
  quarters of the window, the snippet of a matching text contains the query up to case; and for any
  text a snippet exists and is at most six bytes longer than the window.
\<close>

lemma snippet_shows_match:
  assumes "0 \<le> maxLen"
  shows "\<exists>s. extract_snippet ucase content query maxLen = Some s \<and> int (length s) \<le> maxLen + 6 \<and>
    (list_all is_ascii content \<and> list_all is_ascii query \<and> 4 * int (length query) \<le> 3 * maxLen \<and>
     contains (to_lower ucase content) (to_lower ucase query) \<longrightarrow>
       contains (to_lower ucase s) (to_lower ucase query))"
proof -
  obtain s where "extract_snippet ucase content query maxLen = Some s" "snippet_of content maxLen s"
    using extract_snippet_shape [OF assms] by blast
  then show ?thesis
    using extract_snippet_match [of content query maxLen ucase s] assms snippet_of_length by blast
qed

theorem snippet_shows_match_witness:
  "\<exists>s. extract_snippet id ''Say hello'' ''HELLO'' 8 = Some s \<and> contains (to_lower id s) (to_lower id ''HELLO'')"
proof -
  have "list_all is_ascii ''Say hello''" "list_all is_ascii ''HELLO''" by code_simp+
  then show ?thesis
    using snippet_shows_match [of 8 id "''Say hello''" "''HELLO''"] demo_lower(1) by auto
qed

text \<open>
  Tool statistics account for every audited call once: each tool that occurs in the records of
  the listed jobs has one entry, its total is the number of its records, split into those without
  and with an error, and its success rate is a number between 0 and 1.
\<close>

lemma tool_stats_account_for_calls:
  assumes "recs = concat (map (\<lambda>j. actions m (job_ID j)) (take 10000 (map snd (range_map ks (jobs m)))))"
    and "range_order names (aggregate_jobs memory_database m (take 10000 (map snd (range_map ks (jobs m)))) Map.empty)"
  shows "\<exists>stats. get_tool_stats memory_database ks names m = Some (Inr stats) \<and>
    distinct (map ts_ToolName stats) \<and> set (map ts_ToolName stats) = ar_ToolName ` set recs \<and>
    (\<forall>s \<in> set stats.
       ts_TotalCalls s = int (length (filter (\<lambda>r. ar_ToolName r = ts_ToolName s) recs)) \<and>
       ts_SuccessfulCalls s = int (length (filter (\<lambda>r. ar_ToolName r = ts_ToolName s \<and> ar_Error r = []) recs)) \<and>
       ts_SuccessfulCalls s + ts_FailedCalls s = ts_TotalCalls s \<and>
       0 \<le> ts_SuccessRate s \<and> ts_SuccessRate s \<le> 1)"
proof -
  have order: "range_order names (agg_map recs)"
    using assms by (simp add: aggregate_all)
  let ?stats = "map tool_entry (range_map names (agg_map recs))"
  have stats: "get_tool_stats memory_database ks names m = Some (Inr ?stats)"
    by (simp add: get_tool_stats_def aggregate_all assms(1))
  have "map ts_ToolName ?stats = map fst (range_map names (agg_map recs))"
    by (simp add: tool_entry_def comp_def split_def)
  then have names: "map ts_ToolName ?stats = names"
    by (simp only: range_map_keys [OF order])
  have each: "counted recs s" if "s \<in> set ?stats" for s
    using that tool_entry_counted by (auto simp: set_range_map [OF order] agg_map_def split: if_splits)
  have "distinct (map ts_ToolName ?stats)" "set (map ts_ToolName ?stats) = ar_ToolName ` set recs"
    unfolding names using order dom_agg_map [of recs] by (simp_all add: range_order_def)
  moreover have "\<forall>s \<in> set ?stats. counted recs s"
    using each by blast
  ultimately show ?thesis
    using stats unfolding counted_def by blast
qed

theorem tool_stats_account_for_calls_witness:
  "\<exists>stats. get_tool_stats memory_database [''j''] [''echo''] demo_jobs = Some (Inr stats) \<and>
     set (map ts_ToolName stats) = {''echo''}"
proof -
  have "concat (map (\<lambda>j. actions demo_jobs (job_ID j)) (take 10000 (map snd (range_map [''j''] (jobs demo_jobs))))) =
      [demo_record]"
    by (simp add: demo_jobs_def save_job_def save_action_record_def new_memory_db_def range_map_def
        List.map_filter_def stamp_job_def demo_record_def stamp_action_def is_zero_time_def)
  moreover have "range_order [''echo''] (agg_map [demo_record])"
    by (simp add: range_order_def dom_agg_map) (simp add: demo_record_def)
  ultimately show ?thesis
    using tool_stats_account_for_calls [of "[demo_record]" demo_jobs "[''j'']" "[''echo'']"]
    by (auto simp: aggregate_all demo_record_def)
qed

end
