(* ===== verification/Event_Hub.thy ===== *)
theory Event_Hub
  imports Channel_Types
begin

text \<open>
  The event hub of the HTTP gateway (\<open>internal/channels/httpgw/events.go\<close>): subscriptions by user and
  thread, and the delivery of events to them. A Go channel is an address into a store of buffers; a
  subscription is shared between the hub, which sends, and the stream handler, which receives. A send
  to a closed channel panics, which is \<^const>\<open>None\<close>.
\<close>

section \<open>Channels\<close>

record event_chan =
  ch_buf :: "event list"
  ch_closed :: bool

record event_hub =
  subs :: "string \<Rightarrow> nat list"
  chans :: "event_chan list"

definition new_event_hub :: event_hub where
  "new_event_hub = \<lparr>subs = (\<lambda>_. []), chans = []\<rparr>"

definition sub_key :: "string \<Rightarrow> string \<Rightarrow> string" where
  "sub_key userID threadID = (if threadID = [] then userID @ ''|'' else userID @ ''|'' @ threadID)"

text \<open>The capacity of a subscription's channel.\<close>

definition chan_capacity :: nat where
  "chan_capacity = 16"

definition subscribe :: "string \<Rightarrow> string \<Rightarrow> event_hub \<Rightarrow> nat \<times> event_hub" where
  "subscribe userID threadID h =
     (let c = length (chans h); key = sub_key userID threadID
      in (c, h\<lparr>subs := (subs h)(key := subs h key @ [c]), chans := chans h @ [\<lparr>ch_buf = [], ch_closed = False\<rparr>]\<rparr>))"

text \<open>
  Unsubscribing removes the first occurrence of the channel from the list of its key and closes it;
  an empty list is the same as none.
\<close>

definition unsubscribe :: "string \<Rightarrow> string \<Rightarrow> nat \<Rightarrow> event_hub \<Rightarrow> event_hub" where
  "unsubscribe userID threadID c h =
     (let key = sub_key userID threadID
      in if c \<in> set (subs h key)
         then h\<lparr>subs := (subs h)(key := remove1 c (subs h key)),
                chans := (chans h)[c := (chans h ! c)\<lparr>ch_closed := True\<rparr>]\<rparr>
         else h)"

definition send_event :: "event \<Rightarrow> nat \<Rightarrow> event_chan list \<Rightarrow> event_chan list option" where
  "send_event ev c cs =
     (if ch_closed (cs ! c) then None
      else if length (ch_buf (cs ! c)) < chan_capacity
      then Some (cs[c := (cs ! c)\<lparr>ch_buf := ch_buf (cs ! c) @ [ev]\<rparr>])
      else Some cs)"

fun send_all :: "event \<Rightarrow> nat list \<Rightarrow> event_chan list \<Rightarrow> event_chan list option" where
  "send_all ev [] cs = Some cs"
| "send_all ev (c # rest) cs =
     (case send_event ev c cs of None \<Rightarrow> None | Some cs' \<Rightarrow> send_all ev rest cs')"

definition publish :: "event \<Rightarrow> event_hub \<Rightarrow> event_hub option" where
  "publish ev h =
     (case (if ev_ThreadID ev \<noteq> [] then send_all ev (subs h (sub_key (ev_UserID ev) (ev_ThreadID ev))) (chans h)
            else Some (chans h)) of
        None \<Rightarrow> None
      | Some cs \<Rightarrow>
          (case send_all ev (subs h (sub_key (ev_UserID ev) [])) cs of
             None \<Rightarrow> None
           | Some cs' \<Rightarrow> Some (h\<lparr>chans := cs'\<rparr>)))"

text \<open>A stream handler takes the oldest event of its channel.\<close>

definition receive :: "nat \<Rightarrow> event_hub \<Rightarrow> event option \<times> event_hub" where
  "receive c h =
     (case ch_buf (chans h ! c) of
        [] \<Rightarrow> (None, h)
      | ev # rest \<Rightarrow> (Some ev, h\<lparr>chans := (chans h)[c := (chans h ! c)\<lparr>ch_buf := rest\<rparr>]\<rparr>))"

section \<open>Runs and the invariant\<close>

datatype hub_event = Subscribed string string | Unsubscribed string string nat | Published event | Received nat

inductive hub_step :: "event_hub \<Rightarrow> hub_event \<Rightarrow> event_hub \<Rightarrow> bool" where
  hub_subscribe: "hub_step h (Subscribed u t) (snd (subscribe u t h))"
| hub_unsubscribe: "hub_step h (Unsubscribed u t c) (unsubscribe u t c h)"
| hub_publish: "publish ev h = Some h' \<Longrightarrow> hub_step h (Published ev) h'"
| hub_receive: "c < length (chans h) \<Longrightarrow> hub_step h (Received c) (snd (receive c h))"

inductive_cases hub_stepE: "hub_step h e h'"

text \<open>Every subscribed channel exists and is open, and no channel is subscribed twice.\<close>

definition hub_inv :: "event_hub \<Rightarrow> bool" where
  "hub_inv h \<longleftrightarrow>
     (\<forall>k. distinct (subs h k)) \<and>
     (\<forall>k k' c. c \<in> set (subs h k) \<longrightarrow> c \<in> set (subs h k') \<longrightarrow> k = k') \<and>
     (\<forall>k c. c \<in> set (subs h k) \<longrightarrow> c < length (chans h) \<and> \<not> ch_closed (chans h ! c)) \<and>
     (\<forall>c < length (chans h). length (ch_buf (chans h ! c)) \<le> chan_capacity)"

text \<open>What a send does to a store: the addressed channel gets the event if it has room.\<close>

definition delivered :: "event \<Rightarrow> nat set \<Rightarrow> event_chan list \<Rightarrow> event_chan list \<Rightarrow> bool" where
  "delivered ev S cs cs' \<longleftrightarrow> length cs' = length cs \<and>
     (\<forall>c < length cs. ch_closed (cs' ! c) = ch_closed (cs ! c) \<and>
        ch_buf (cs' ! c) = ch_buf (cs ! c) @
          (if c \<in> S \<and> length (ch_buf (cs ! c)) < chan_capacity then [ev] else []))"

lemma send_all_delivers:
  assumes "distinct l" and "\<forall>c \<in> set l. c < length cs \<and> \<not> ch_closed (cs ! c)"
  shows "\<exists>cs'. send_all ev l cs = Some cs' \<and> delivered ev (set l) cs cs'"
  using assms
proof (induction l arbitrary: cs)
  case Nil
  then show ?case by (simp add: delivered_def)
next
  case (Cons c l)
  let ?cs1 = "if length (ch_buf (cs ! c)) < chan_capacity
    then cs[c := (cs ! c)\<lparr>ch_buf := ch_buf (cs ! c) @ [ev]\<rparr>] else cs"
  have s: "send_event ev c cs = Some ?cs1"
    using Cons.prems by (simp add: send_event_def)
  have "\<forall>c' \<in> set l. c' < length ?cs1 \<and> \<not> ch_closed (?cs1 ! c')"
    using Cons.prems by (auto simp: nth_list_update)
  with Cons.IH [of ?cs1] Cons.prems(1) obtain cs' where
    "send_all ev l ?cs1 = Some cs'" "delivered ev (set l) ?cs1 cs'" by auto
  moreover from this(2) have "delivered ev (set (c # l)) cs cs'"
    using Cons.prems by (auto simp: delivered_def nth_list_update split: if_splits)
  ultimately show ?case using s by auto
qed

lemma sub_key_threads: "t \<noteq> [] \<Longrightarrow> sub_key u t \<noteq> sub_key u []"
  by (simp add: sub_key_def)

definition audience :: "event \<Rightarrow> event_hub \<Rightarrow> nat set" where
  "audience ev h = set (subs h (sub_key (ev_UserID ev) (ev_ThreadID ev))) \<union> set (subs h (sub_key (ev_UserID ev) []))"

lemma publish_delivers:
  assumes "hub_inv h"
  shows "\<exists>h'. publish ev h = Some h' \<and> subs h' = subs h \<and> delivered ev (audience ev h) (chans h) (chans h')"
proof -
  let ?K = "sub_key (ev_UserID ev)"
  have ok: "distinct (subs h k)" "\<forall>c \<in> set (subs h k). c < length (chans h) \<and> \<not> ch_closed (chans h ! c)" for k
    using assms by (auto simp: hub_inv_def)
  show ?thesis
  proof (cases "ev_ThreadID ev = []")
    case True
    obtain cs where "send_all ev (subs h (?K [])) (chans h) = Some cs" "delivered ev (set (subs h (?K []))) (chans h) cs"
      using send_all_delivers [OF ok] by blast
    with True show ?thesis by (simp add: publish_def audience_def)
  next
    case False
    obtain cs where 1: "send_all ev (subs h (?K (ev_ThreadID ev))) (chans h) = Some cs"
        "delivered ev (set (subs h (?K (ev_ThreadID ev)))) (chans h) cs"
      using send_all_delivers [OF ok] by blast
    have "\<forall>c \<in> set (subs h (?K [])). c < length cs \<and> \<not> ch_closed (cs ! c)"
      using ok(2) [of "?K []"] 1(2) by (auto simp: delivered_def)
    then obtain cs' where 2: "send_all ev (subs h (?K [])) cs = Some cs'" "delivered ev (set (subs h (?K []))) cs cs'"
      using send_all_delivers [OF ok(1)] by blast
    have "set (subs h (?K (ev_ThreadID ev))) \<inter> set (subs h (?K [])) = {}"
      using assms sub_key_threads [OF False] unfolding hub_inv_def by blast
    with 1(2) 2(2) have "delivered ev (audience ev h) (chans h) cs'"
      by (auto simp: delivered_def audience_def)
    with False 1 2 show ?thesis by (simp add: publish_def)
  qed
qed

lemma delivered_bound:
  assumes "delivered ev S cs cs'" and "\<forall>c < length cs. length (ch_buf (cs ! c)) \<le> chan_capacity" and "c < length cs'"
  shows "length (ch_buf (cs' ! c)) \<le> chan_capacity"
  using assms by (auto simp: delivered_def)

lemma subscribe_inv: "hub_inv h \<Longrightarrow> hub_inv (snd (subscribe u t h))"
  by (auto simp: hub_inv_def subscribe_def Let_def nth_append intro: less_SucI)

lemma unsubscribe_inv:
  assumes "hub_inv h"
  shows "hub_inv (unsubscribe u t c h)"
proof (cases "c \<in> set (subs h (sub_key u t))")
  case True
  let ?k = "sub_key u t"
  have d: "distinct (subs h ?k)" "c < length (chans h)"
    and only: "c \<notin> set (subs h k)" if "k \<noteq> ?k" for k
    using assms True that unfolding hub_inv_def by blast+
  with assms True show ?thesis
    by (auto simp: hub_inv_def unsubscribe_def Let_def nth_list_update)
next
  case False
  with assms show ?thesis by (simp add: unsubscribe_def Let_def)
qed

lemma publish_inv:
  assumes "hub_inv h" and "publish ev h = Some h'"
  shows "hub_inv h'"
proof -
  have *: "subs h' = subs h" "delivered ev (audience ev h) (chans h) (chans h')"
    using publish_delivers [OF assms(1), of ev] assms(2) by auto
  with assms(1) delivered_bound [OF *(2)] show ?thesis
    by (auto simp: hub_inv_def delivered_def)
qed

lemma receive_inv:
  assumes "hub_inv h" and "c < length (chans h)"
  shows "hub_inv (snd (receive c h))"
  using assms by (auto simp: hub_inv_def receive_def nth_list_update split: list.splits)

interpretation hub_runs: step_invariant "\<lambda>h. h = new_event_hub" hub_step hub_inv
proof
  fix h assume "h = new_event_hub"
  then show "hub_inv h" by (simp add: hub_inv_def new_event_hub_def)
next
  fix h e h' assume "hub_step h e h'" and "hub_inv h"
  then show "hub_inv h'"
    by (cases rule: hub_step.cases) (auto intro: subscribe_inv unsubscribe_inv publish_inv receive_inv)
qed

section \<open>Who watches what\<close>

text \<open>
  Read off the history alone: the \<open>n\<close>-th subscription opens channel \<open>n\<close> for a user and a thread, or for
  all threads of the user when the thread is empty, until it is cancelled for that user and thread.
\<close>

fun watch :: "hub_event \<Rightarrow> nat \<times> (nat \<rightharpoonup> string \<times> string) \<Rightarrow> nat \<times> (nat \<rightharpoonup> string \<times> string)" where
  "watch (Subscribed u t) (n, w) = (Suc n, w(n \<mapsto> (u, t)))"
| "watch (Unsubscribed u t c) (n, w) = (n, if w c = Some (u, t) then w(c := None) else w)"
| "watch _ s = s"

definition watching :: "hub_event list \<Rightarrow> nat \<rightharpoonup> string \<times> string" where
  "watching es = snd (fold watch es (0, Map.empty))"

text \<open>The users of subscriptions and cancellations have no bar in their names.\<close>

fun plain_user :: "hub_event \<Rightarrow> bool" where
  "plain_user (Subscribed u t) = (CHR ''|'' \<notin> set u)"
| "plain_user (Unsubscribed u t c) = (CHR ''|'' \<notin> set u)"
| "plain_user _ = True"

lemma sub_key_inject:
  assumes "CHR ''|'' \<notin> set u" and "CHR ''|'' \<notin> set u'"
  shows "sub_key u t = sub_key u' t' \<longleftrightarrow> u = u' \<and> t = t'"
proof
  assume "sub_key u t = sub_key u' t'"
  then have "u @ [CHR ''|''] @ t = u' @ [CHR ''|''] @ t'" by (auto simp: sub_key_def split: if_splits)
  with sep_key_inject [OF this assms] show "u = u' \<and> t = t'" by simp
qed simp

text \<open>The hub's lists are those of the history.\<close>

definition watch_inv :: "nat \<times> (nat \<rightharpoonup> string \<times> string) \<Rightarrow> event_hub \<Rightarrow> bool" where
  "watch_inv s h \<longleftrightarrow> fst s = length (chans h) \<and>
     (\<forall>u t c. CHR ''|'' \<notin> set u \<longrightarrow> (c \<in> set (subs h (sub_key u t)) \<longleftrightarrow> snd s c = Some (u, t)))"

lemma watch_step:
  assumes "hub_step h e h'" and "hub_inv h" and "plain_user e" and "watch_inv s h"
  shows "watch_inv (watch e s) h'"
proof -
  obtain n w where s: "s = (n, w)" by (cases s)
  have n: "n = length (chans h)" and w: "\<And>u t c. CHR ''|'' \<notin> set u \<Longrightarrow> c \<in> set (subs h (sub_key u t)) \<longleftrightarrow> w c = Some (u, t)"
    using assms(4) by (auto simp: s watch_inv_def)
  from assms(1) show ?thesis
  proof (cases rule: hub_step.cases)
    case (hub_subscribe u t)
    have "length (chans h) \<notin> set (subs h k)" for k
      using assms(2) unfolding hub_inv_def by blast
    with hub_subscribe assms(3) n w show ?thesis
      by (auto simp: s watch_inv_def subscribe_def Let_def sub_key_inject)
  next
    case (hub_unsubscribe u t c)
    have "distinct (subs h k)" for k using assms(2) by (simp add: hub_inv_def)
    with hub_unsubscribe assms(3) n w show ?thesis
      by (auto simp: s watch_inv_def unsubscribe_def Let_def sub_key_inject)
  next
    case (hub_publish ev)
    have "subs h' = subs h" "length (chans h') = length (chans h)"
      using publish_delivers [OF assms(2), of ev] hub_publish by (auto simp: delivered_def)
    with hub_publish n w show ?thesis by (simp add: s watch_inv_def)
  next
    case (hub_receive c)
    with n w show ?thesis by (auto simp: s watch_inv_def receive_def split: list.splits)
  qed
qed

lemma watching_subs:
  assumes "run hub_step new_event_hub es h" and "list_all plain_user es"
  shows "watch_inv (fold watch es (0, Map.empty)) h"
  using assms
proof (induction "new_event_hub" es h rule: run.induct)
  case run_nil
  show ?case by (simp add: watch_inv_def new_event_hub_def)
next
  case (run_snoc es t e u)
  then show ?case using watch_step hub_runs.run_inv [OF refl run_snoc(1)] by simp
qed

section \<open>Properties\<close>

text \<open>
  C24: publishing is safe and exact: after any sequence of subscriptions, cancellations, deliveries and
  receipts, publishing an event does not panic; every channel that its user has opened for the event's thread
  or for all threads, and has not cancelled, gets the event once at the end of its buffer if it has room;
  and no other channel changes. User names have no bar: with one, two pairs of user and thread can
  share a key.
\<close>

theorem publish_safe_and_exact:
  assumes "run hub_step new_event_hub es h" and "list_all plain_user es" and "CHR ''|'' \<notin> set (ev_UserID ev)"
  shows "\<exists>h'. publish ev h = Some h' \<and> subs h' = subs h \<and> length (chans h') = length (chans h) \<and>
    (\<forall>c < length (chans h). ch_closed (chans h' ! c) = ch_closed (chans h ! c) \<and>
       ch_buf (chans h' ! c) = ch_buf (chans h ! c) @
         (if (watching es c = Some (ev_UserID ev, ev_ThreadID ev) \<or> watching es c = Some (ev_UserID ev, [])) \<and>
             length (ch_buf (chans h ! c)) < 16 then [ev] else []))"
proof -
  have "c \<in> audience ev h \<longleftrightarrow>
      watching es c = Some (ev_UserID ev, ev_ThreadID ev) \<or> watching es c = Some (ev_UserID ev, [])" for c
    using watching_subs [OF assms(1,2)] assms(3) by (simp add: watch_inv_def watching_def audience_def)
  then show ?thesis
    using publish_delivers [OF hub_runs.run_inv [OF refl assms(1)], of ev]
    by (auto simp: delivered_def chan_capacity_def)
qed

definition demo_event :: event where
  "demo_event = \<lparr>ev_Type = EventPing, ev_UserID = ''u'', ev_ThreadID = ''t'', ev_Payload = ''p'', ev_Meta = Map.empty\<rparr>"

theorem publish_safe_and_exact_witness:
  "\<exists>h'. publish demo_event (snd (subscribe ''u'' [] new_event_hub)) = Some h' \<and> map ch_buf (chans h') = [[demo_event]]"
proof -
  let ?h = "snd (subscribe ''u'' [] new_event_hub)"
  have "run hub_step new_event_hub [Subscribed ''u'' []] ?h"
    using run_Cons [of hub_step, OF hub_subscribe, of "''u''" "[]" new_event_hub "[]"] by simp
  from publish_safe_and_exact [OF this, of demo_event] obtain h' where
    h': "publish demo_event ?h = Some h'" "length (chans h') = 1" "ch_buf (chans h' ! 0) = [demo_event]"
    by (auto simp: subscribe_def new_event_hub_def watching_def demo_event_def Let_def)
  have "map ch_buf (chans h') = [[demo_event]]"
    using h'(2,3) by (cases "chans h'") auto
  with h'(1) show ?thesis by (intro exI [of _ h'] conjI)
qed

text \<open>
  C25: events stay with their user: with user names that have no bar, no event of one user ever enters
  a channel that another user has subscribed.
\<close>

theorem events_private:
  assumes "run hub_step new_event_hub es h" and "c \<in> set (subs h (sub_key u t))"
    and "CHR ''|'' \<notin> set u" and "CHR ''|'' \<notin> set (ev_UserID ev)" and "ev_UserID ev \<noteq> u"
    and "publish ev h = Some h'"
  shows "ch_buf (chans h' ! c) = ch_buf (chans h ! c)"
proof -
  have inv: "hub_inv h" using hub_runs.run_inv [OF refl assms(1)] .
  have "sub_key u t \<noteq> sub_key (ev_UserID ev) t'" for t'
    using sub_key_inject [OF assms(3,4)] assms(5) by auto
  then have "c \<notin> audience ev h"
    using inv assms(2) unfolding hub_inv_def audience_def by blast
  moreover have "c < length (chans h)"
    using inv assms(2) unfolding hub_inv_def by blast
  moreover have "delivered ev (audience ev h) (chans h) (chans h')"
    using publish_delivers [OF inv, of ev] assms(6) by auto
  ultimately show ?thesis by (simp add: delivered_def)
qed

theorem events_private_witness:
  "\<exists>h'. publish demo_event (snd (subscribe ''v'' [] new_event_hub)) = Some h' \<and> ch_buf (chans h' ! 0) = []"
proof -
  let ?h = "snd (subscribe ''v'' [] new_event_hub)"
  have r: "run hub_step new_event_hub [Subscribed ''v'' []] ?h"
    using run_Cons [of hub_step, OF hub_subscribe, of "''v''" "[]" new_event_hub "[]"] by simp
  have "\<exists>h'. publish demo_event ?h = Some h'"
    by (simp add: publish_def subscribe_def new_event_hub_def sub_key_def demo_event_def Let_def)
  then obtain h' where h': "publish demo_event ?h = Some h'" by blast
  have "ch_buf (chans h' ! 0) = ch_buf (chans ?h ! 0)"
    by (rule events_private [OF r _ _ _ _ h', where u = "''v''" and t = "[]"])
      (simp_all add: subscribe_def new_event_hub_def demo_event_def Let_def)
  with h' show ?thesis by (simp add: subscribe_def new_event_hub_def Let_def)
qed

text \<open>A user name with a bar in it can collide with a thread of another user.\<close>

lemma sub_key_collision: "sub_key ''a|b'' ''c'' = sub_key ''a'' ''b|c''"
  by (simp add: sub_key_def)

end
