(* ===== verification/Gateway.thy ===== *)
theory Gateway
  imports Go_Base64 Pending_Store History Accounts Event_Hub
begin

text \<open>
  The HTTP gateway, \<open>internal/channels/httpgw/httpgw.go\<close>: the chat endpoint, which hands a message to the
  agent and waits for its answer, the event stream, the history endpoints, the approval endpoints and
  the health endpoints.

  A handler that answers at once is a function from the gateway to a response and the gateway
  after it; \<^const>\<open>None\<close> is a panic of a query, which \<open>net/http\<close> turns into a closed connection. The
  chat handler waits, so it is a sequence of steps that interleave with the agent and with other
  requests. Decoding and encoding of JSON are arguments: a request body decodes to a record or to an
  error, and a response body is the value given to the encoder. A Go channel is its buffer.
\<close>

section \<open>Requests, responses and state\<close>

record http_request =
  hr_Method :: string
  hr_Path :: string
  hr_Query :: "string \<Rightarrow> string"
  hr_Header :: "string \<Rightarrow> string"
  hr_Body :: string

record attachment_request =
  ar_MIMEType :: string
  ar_Filename :: string
  ar_DataBase64 :: string

record chat_request =
  cq_UserID :: string
  cq_Content :: string
  cq_ThreadID :: string
  cq_APIKey :: string
  cq_Attachments :: "attachment_request list"

record gate_request =
  gr_RequestID :: string
  gr_UserID :: string
  gr_ThreadID :: string

record gate_view =
  gv_RequestID :: string
  gv_ToolName :: string
  gv_Description :: string
  gv_CreatedAt :: instant
  gv_ExpiresAt :: instant
  gv_ThreadID :: string
  gv_SourceChannel :: string

datatype body =
    PlainText string
  | ChatReply string string
  | PendingReply string "(string \<times> string \<times> string) option"
  | ThreadsReply "conversation list" nat
  | MessagesReply string "message list" nat
  | DeletedReply
  | StatsReply job_stats "tool_stats list"
  | GatesReply "gate_view list" nat
  | ApprovedReply string string
  | DeniedReply string
  | HealthReply string string int nat
  | ReadyReply nat
  | NotReadyReply "(string \<times> string) list" nat
  | AliveReply
  | AcceptedReply
  | ChannelHealthReply string
  | SocketHealthReply string nat string
  | HtmlPage string

record http_response =
  rs_Status :: nat
  rs_Body :: body

record health_check =
  hc_Name :: string
  hc_Check :: "instant \<Rightarrow> string option"

record 'd gateway =
  gw_port :: int
  gw_msgChan :: "incoming_message list"
  gw_responses :: "string \<rightharpoonup> outgoing_response list"
  gw_shutdown :: bool
  gw_authenticator :: "(string \<Rightarrow> string + string) option"
  gw_historyStore :: "('d database \<times> 'd) option"
  gw_pendingStore :: "pending_store option"
  gw_riskEvaluator :: "risk_evaluator option"
  gw_healthChecks :: "health_check list"
  gw_startTime :: instant
  gw_version :: string
  gw_eventHub :: event_hub

record gw_lib =
  gl_decodeChat :: "string \<Rightarrow> string + chat_request"
  gl_decodeGate :: "string \<Rightarrow> string + gate_request"
  gl_marshalEvent :: "event \<Rightarrow> string"
  gl_indexPage :: "string option"

text \<open>The instant of a call and the orders in which its ranges over maps run.\<close>

record gw_env =
  en_now :: instant
  en_convs :: "string list"
  en_jobs :: "string list"
  en_tools :: "string list"
  en_gates :: "string list"

definition gateway_New :: "int \<Rightarrow> instant \<Rightarrow> 'd gateway" where
  "gateway_New port now =
     \<lparr>gw_port = port, gw_msgChan = [], gw_responses = Map.empty, gw_shutdown = False,
      gw_authenticator = None, gw_historyStore = None, gw_pendingStore = None, gw_riskEvaluator = None,
      gw_healthChecks = [], gw_startTime = now, gw_version = ''dev'', gw_eventHub = new_event_hub\<rparr>"

definition gateway_Name :: string where "gateway_Name = ''http''"

definition WithAuth :: "(string \<Rightarrow> string + string) \<Rightarrow> 'd gateway \<Rightarrow> 'd gateway" where
  "WithAuth a g = g\<lparr>gw_authenticator := Some a\<rparr>"

definition WithHistory :: "'d database \<times> 'd \<Rightarrow> 'd gateway \<Rightarrow> 'd gateway" where
  "WithHistory h g = g\<lparr>gw_historyStore := Some h\<rparr>"

definition WithPendingStore :: "pending_store \<Rightarrow> 'd gateway \<Rightarrow> 'd gateway" where
  "WithPendingStore ps g = g\<lparr>gw_pendingStore := Some ps\<rparr>"

definition WithRiskEvaluator :: "risk_evaluator \<Rightarrow> 'd gateway \<Rightarrow> 'd gateway" where
  "WithRiskEvaluator ev g = g\<lparr>gw_riskEvaluator := Some ev\<rparr>"

definition WithVersion :: "string \<Rightarrow> 'd gateway \<Rightarrow> 'd gateway" where
  "WithVersion v g = g\<lparr>gw_version := v\<rparr>"

definition RegisterHealthCheck :: "string \<Rightarrow> (instant \<Rightarrow> string option) \<Rightarrow> 'd gateway \<Rightarrow> 'd gateway" where
  "RegisterHealthCheck name check g =
     g\<lparr>gw_healthChecks := gw_healthChecks g @ [\<lparr>hc_Name = name, hc_Check = check\<rparr>]\<rparr>"

section \<open>Responses\<close>

text \<open>\<open>http.Error\<close> ends its text with a newline; an encoded value is sent with status 200.\<close>

definition http_error :: "string \<Rightarrow> nat \<Rightarrow> http_response" where
  "http_error msg code = \<lparr>rs_Status = code, rs_Body = PlainText (msg @ [CHR 0x0A])\<rparr>"

definition http_ok :: "body \<Rightarrow> http_response" where
  "http_ok b = \<lparr>rs_Status = 200, rs_Body = b\<rparr>"

definition not_found :: http_response where
  "not_found = http_error ''404 page not found'' 404"

text \<open>The literal \<open>{"error":"..."}\<close>.\<close>

definition json_error :: "string \<Rightarrow> string" where
  "json_error msg =
     [CHR ''{'', CHR 0x22] @ ''error'' @ [CHR 0x22, CHR '':'', CHR 0x22] @ msg @ [CHR 0x22, CHR ''}'']"

definition method_not_allowed :: http_response where
  "method_not_allowed = http_error ''method not allowed'' 405"

section \<open>The chat endpoint\<close>

definition msg_chan_capacity :: nat where "msg_chan_capacity = 64"
definition resp_chan_capacity :: nat where "resp_chan_capacity = 1"

text \<open>What the handler checks before it waits: the error response, or the request with its user settled.\<close>

definition chat_admit :: "gw_lib \<Rightarrow> http_request \<Rightarrow> 'd gateway \<Rightarrow> http_response + chat_request" where
  "chat_admit L r g =
     (if hr_Method r \<noteq> ''POST'' then Inl method_not_allowed
      else case gl_decodeChat L (hr_Body r) of
        Inl err \<Rightarrow> Inl (http_error (''invalid json: '' @ err) 400)
      | Inr req \<Rightarrow>
          (case (case gw_authenticator g of
                   Some a \<Rightarrow>
                     if cq_APIKey req \<noteq> []
                     then (case a (cq_APIKey req) of
                             Inl err \<Rightarrow> Inl (http_error (json_error ''unauthorized'') 401)
                           | Inr userID \<Rightarrow> Inr (req\<lparr>cq_UserID := userID\<rparr>))
                     else Inr req
                 | None \<Rightarrow> Inr req) of
             Inl resp \<Rightarrow> Inl resp
           | Inr req1 \<Rightarrow>
               let req2 = (if cq_UserID req1 = [] then req1\<lparr>cq_UserID := ''anonymous''\<rparr> else req1) in
               if cq_Content req2 = [] then Inl (http_error ''content is required'' 400)
               else Inr req2))"

definition chat_register :: "string \<Rightarrow> 'd gateway \<Rightarrow> 'd gateway" where
  "chat_register requestID g = g\<lparr>gw_responses := (gw_responses g)(requestID \<mapsto> [])\<rparr>"

definition chat_done :: "string \<Rightarrow> 'd gateway \<Rightarrow> 'd gateway" where
  "chat_done requestID g = g\<lparr>gw_responses := (gw_responses g)(requestID := None)\<rparr>"

definition chat_attachment :: "attachment_request \<Rightarrow> attachment" where
  "chat_attachment a =
     (let data = fst (base64_decode (ar_DataBase64 a)) in
      \<lparr>att_ID = [], att_Kind = AttachmentKindDocument, att_MIMEType = ar_MIMEType a,
       att_Filename = ar_Filename a, att_SizeBytes = int (length data), att_SourceURL = [],
       att_StorageKey = [], att_LocalPath = [], att_ExtractedText = [], att_Data = data,
       att_DurationSecs = 0\<rparr>)"

definition chat_message :: "string \<Rightarrow> chat_request \<Rightarrow> incoming_message" where
  "chat_message requestID req =
     \<lparr>im_ID = requestID, im_Channel = gateway_Name, im_UserID = cq_UserID req,
      im_Content = cq_Content req, im_ThreadID = cq_ThreadID req,
      im_Attachments = map chat_attachment (cq_Attachments req)\<rparr>"

text \<open>The send on \<open>msgChan\<close>, which waits (\<^const>\<open>None\<close>) while the buffer is full.\<close>

definition chat_enqueue :: "string \<Rightarrow> chat_request \<Rightarrow> 'd gateway \<Rightarrow> 'd gateway option" where
  "chat_enqueue requestID req g =
     (if length (gw_msgChan g) < msg_chan_capacity
      then Some (g\<lparr>gw_msgChan := gw_msgChan g @ [chat_message requestID req]\<rparr>) else None)"

text \<open>The response to the client once the agent's answer has arrived.\<close>

definition chat_reply :: "instant \<Rightarrow> chat_request \<Rightarrow> outgoing_response \<Rightarrow> 'd gateway \<Rightarrow> http_response \<times> 'd gateway" where
  "chat_reply now req resp g =
     (if or_Status resp = ''pending_gate''
      then (case gw_pendingStore g of
              None \<Rightarrow> (http_ok (PendingReply (or_ThreadID resp) None), g)
            | Some ps \<Rightarrow>
                (case ps_get now (cq_UserID req) (or_ThreadID resp) ps of
                   (None, ps') \<Rightarrow>
                     (http_ok (PendingReply (or_ThreadID resp) None), g\<lparr>gw_pendingStore := Some ps'\<rparr>)
                 | (Some pg, ps') \<Rightarrow>
                     (http_ok (PendingReply (or_ThreadID resp)
                        (Some (pg_RequestID pg, pg_ToolName pg, pg_Description pg))),
                      g\<lparr>gw_pendingStore := Some ps'\<rparr>)))
      else (http_ok (ChatReply (or_Content resp) (or_ThreadID resp)), g))"

definition chat_timeout :: http_response where
  "chat_timeout = http_error (json_error ''timeout'') 504"

definition chat_stopped :: http_response where
  "chat_stopped = http_error (json_error ''server shutting down'') 503"

text \<open>
  \<open>SendMessage\<close> offers the response to every waiting request; one whose buffer is full keeps what it
  has. The snapshot of the channels and the sends are one step: a send to a request that has ended in
  between is never read.
\<close>

definition gateway_SendMessage :: "outgoing_response \<Rightarrow> 'd gateway \<Rightarrow> 'd gateway" where
  "gateway_SendMessage resp g =
     g\<lparr>gw_responses := (\<lambda>rid. map_option
         (\<lambda>b. if length b < resp_chan_capacity then b @ [resp] else b) (gw_responses g rid))\<rparr>"

definition PublishEvent :: "event \<Rightarrow> 'd gateway \<Rightarrow> 'd gateway option" where
  "PublishEvent ev g =
     map_option (\<lambda>h. g\<lparr>gw_eventHub := h\<rparr>) (publish ev (gw_eventHub g))"

text \<open>\<open>Shutdown\<close> closes the channel \<open>shutdown\<close>; closing it twice panics.\<close>

definition gateway_Shutdown :: "'d gateway \<Rightarrow> 'd gateway option" where
  "gateway_Shutdown g = (if gw_shutdown g then None else Some (g\<lparr>gw_shutdown := True\<rparr>))"

section \<open>Users of a request\<close>

definition authenticatedUserID :: "http_request \<Rightarrow> 'd gateway \<Rightarrow> string" where
  "authenticatedUserID r g =
     (case gw_authenticator g of
        None \<Rightarrow> []
      | Some a \<Rightarrow>
          let apiKey = (if hr_Header r ''X-API-Key'' = [] then hr_Query r ''api_key''
                        else hr_Header r ''X-API-Key'')
          in (case a apiKey of Inl err \<Rightarrow> [] | Inr userID \<Rightarrow> userID))"

text \<open>\<open>if s == "" { s = t }\<close>.\<close>

definition or_else :: "string \<Rightarrow> string \<Rightarrow> string" where
  "or_else s t = (if s = [] then t else s)"

section \<open>The event stream\<close>

definition stream_subscriber :: "http_request \<Rightarrow> 'd gateway \<Rightarrow> string \<times> string" where
  "stream_subscriber r g =
     (or_else (or_else (authenticatedUserID r g) (hr_Query r ''user_id'')) ''anonymous'',
      hr_Query r ''thread_id'')"

definition sse_frame :: "string \<Rightarrow> string \<Rightarrow> string" where
  "sse_frame name data =
     ''event: '' @ name @ [CHR 0x0A] @ ''data: '' @ data @ [CHR 0x0A, CHR 0x0A]"

text \<open>
  The handler up to its loop: the error response, or the first frame, the subscription's channel and
  the gateway with the subscription.
\<close>

definition stream_open ::
  "bool \<Rightarrow> http_request \<Rightarrow> 'd gateway \<Rightarrow> http_response + string \<times> nat \<times> 'd gateway" where
  "stream_open flushes r g =
     (if hr_Method r \<noteq> ''GET'' then Inl method_not_allowed
      else if \<not> flushes then Inl (http_error ''streaming not supported'' 500)
      else case stream_subscriber r g of
        (u, t) \<Rightarrow>
          (case subscribe u t (gw_eventHub g) of
             (c, h) \<Rightarrow>
               Inr (sse_frame ''connected''
                      ([CHR ''{'', CHR 0x22] @ ''status'' @ [CHR 0x22, CHR '':'', CHR 0x22] @ ''ok'' @
                       [CHR 0x22, CHR ''}'']),
                    c, g\<lparr>gw_eventHub := h\<rparr>)))"

text \<open>
  One turn of the loop on the subscription's channel: a frame for an event, or the end when the channel is
  closed and empty; \<^const>\<open>None\<close> while there is nothing to receive.
\<close>

definition stream_event :: "gw_lib \<Rightarrow> nat \<Rightarrow> 'd gateway \<Rightarrow> (string option \<times> 'd gateway) option" where
  "stream_event L c g =
     (case receive c (gw_eventHub g) of
        (Some ev, h) \<Rightarrow>
          Some (Some (sse_frame (event_type_text (ev_Type ev)) (gl_marshalEvent L ev)), g\<lparr>gw_eventHub := h\<rparr>)
      | (None, h) \<Rightarrow> if ch_closed (chans (gw_eventHub g) ! c) then Some (None, g) else None)"

definition stream_ping :: string where
  "stream_ping = sse_frame ''ping'' ''{}''"

definition stream_close :: "http_request \<Rightarrow> nat \<Rightarrow> 'd gateway \<Rightarrow> 'd gateway" where
  "stream_close r c g =
     (case stream_subscriber r g of (u, t) \<Rightarrow>
        g\<lparr>gw_eventHub := unsubscribe u t c (gw_eventHub g)\<rparr>)"

section \<open>Health\<close>

definition handleHealth :: "instant \<Rightarrow> 'd gateway \<Rightarrow> http_response" where
  "handleHealth now g =
     http_ok (HealthReply gateway_Name (gw_version g) ((now - gw_startTime g) div second)
       (length (gw_healthChecks g)))"

fun failed_checks :: "instant \<Rightarrow> health_check list \<Rightarrow> (string \<times> string) list" where
  "failed_checks now [] = []"
| "failed_checks now (hc # hcs) =
     (case hc_Check hc now of
        Some err \<Rightarrow> (hc_Name hc, err) # failed_checks now hcs
      | None \<Rightarrow> failed_checks now hcs)"

definition handleReadyz :: "instant \<Rightarrow> 'd gateway \<Rightarrow> http_response" where
  "handleReadyz now g =
     (let checks = gw_healthChecks g; failed = failed_checks now checks in
      if length failed > 0 then \<lparr>rs_Status = 503, rs_Body = NotReadyReply failed (length checks)\<rparr>
      else http_ok (ReadyReply (length checks)))"

definition handleLivez :: http_response where
  "handleLivez = http_ok AliveReply"

definition handleIndex :: "gw_lib \<Rightarrow> http_request \<Rightarrow> http_response" where
  "handleIndex L r =
     (if hr_Path r \<noteq> ''/'' then not_found
      else case gl_indexPage L of
        None \<Rightarrow> http_error ''index.html not found'' 500
      | Some page \<Rightarrow> http_ok (HtmlPage page))"

section \<open>History\<close>

definition history_unavailable :: http_response where
  "history_unavailable = http_error (json_error ''history not available'') 503"

definition handleHistoryThreads :: "gw_env \<Rightarrow> http_request \<Rightarrow> 'd gateway \<Rightarrow> http_response option" where
  "handleHistoryThreads E r g =
     (case gw_historyStore g of
        None \<Rightarrow> Some history_unavailable
      | Some (db, d) \<Rightarrow>
          if hr_Method r \<noteq> ''GET'' then Some method_not_allowed
          else let userID = or_else (authenticatedUserID r g) ''anonymous'' in
          (case user_conversations db (en_convs E) userID 100 0 d of
             None \<Rightarrow> None
           | Some (Inl err) \<Rightarrow> Some (http_error (json_error err) 500)
           | Some (Inr convs) \<Rightarrow> Some (http_ok (ThreadsReply convs (length convs)))))"

definition threads_prefix :: string where "threads_prefix = ''/api/history/threads/''"

definition handleHistoryThreadDetail :: "http_request \<Rightarrow> 'd gateway \<Rightarrow> (http_response \<times> 'd gateway) option" where
  "handleHistoryThreadDetail r g =
     (case gw_historyStore g of
        None \<Rightarrow> Some (history_unavailable, g)
      | Some (db, d) \<Rightarrow>
          if \<not> has_prefix (hr_Path r) threads_prefix then Some (not_found, g)
          else let threadID = trim_prefix (hr_Path r) threads_prefix in
          if threadID = [] then Some (not_found, g)
          else if hr_Method r = ''GET''
          then (case thread_history db threadID 1000 0 d of
                  None \<Rightarrow> None
                | Some (Inl err) \<Rightarrow> Some (http_error (json_error err) 500, g)
                | Some (Inr msgs) \<Rightarrow> Some (http_ok (MessagesReply threadID msgs (length msgs)), g))
          else if hr_Method r = ''DELETE''
          then (case delete_thread db threadID d of
                  (Some err, d') \<Rightarrow>
                    Some (http_error (json_error err) 500, g\<lparr>gw_historyStore := Some (db, d')\<rparr>)
                | (None, d') \<Rightarrow> Some (http_ok DeletedReply, g\<lparr>gw_historyStore := Some (db, d')\<rparr>))
          else Some (method_not_allowed, g))"

definition handleHistoryStats :: "gw_env \<Rightarrow> http_request \<Rightarrow> 'd gateway \<Rightarrow> http_response option" where
  "handleHistoryStats E r g =
     (case gw_historyStore g of
        None \<Rightarrow> Some history_unavailable
      | Some (db, d) \<Rightarrow>
          if hr_Method r \<noteq> ''GET'' then Some method_not_allowed
          else (case get_job_stats db (en_jobs E) d of
                  None \<Rightarrow> None
                | Some (Inl err) \<Rightarrow> Some (http_error (json_error err) 500)
                | Some (Inr stats) \<Rightarrow>
                    (case get_tool_stats db (en_jobs E) (en_tools E) d of
                       None \<Rightarrow> None
                     | Some (Inl err) \<Rightarrow> Some (http_ok (StatsReply stats []))
                     | Some (Inr toolStats) \<Rightarrow> Some (http_ok (StatsReply stats toolStats)))))"

section \<open>Approvals\<close>

definition gates_unavailable :: http_response where
  "gates_unavailable = http_error (json_error ''gate pending store not available'') 503"

definition gate_entry :: "pending_gate \<Rightarrow> gate_view" where
  "gate_entry pg =
     \<lparr>gv_RequestID = pg_RequestID pg, gv_ToolName = pg_ToolName pg, gv_Description = pg_Description pg,
      gv_CreatedAt = pg_CreatedAt pg, gv_ExpiresAt = pg_ExpiresAt pg, gv_ThreadID = pg_ThreadID pg,
      gv_SourceChannel = pg_SourceChannel pg\<rparr>"

definition handleGatesPending :: "gw_env \<Rightarrow> http_request \<Rightarrow> 'd gateway \<Rightarrow> http_response \<times> 'd gateway" where
  "handleGatesPending E r g =
     (case gw_pendingStore g of
        None \<Rightarrow> (gates_unavailable, g)
      | Some ps \<Rightarrow>
          if hr_Method r \<noteq> ''GET'' then (method_not_allowed, g)
          else let userID = or_else (or_else (hr_Query r ''user_id'') (authenticatedUserID r g)) ''anonymous''
          in (case ps_list (en_now E) (en_gates E) ps of
                (all, ps') \<Rightarrow>
                  let filtered = map gate_entry (filter (\<lambda>pg. pg_UserID pg = userID) all) in
                  (http_ok (GatesReply filtered (length filtered)), g\<lparr>gw_pendingStore := Some ps'\<rparr>)))"

text \<open>The checks that the two answers to a gate share: the response, or the request with its user settled.\<close>

definition gate_admit :: "gw_lib \<Rightarrow> http_request \<Rightarrow> 'd gateway \<Rightarrow> http_response + gate_request" where
  "gate_admit L r g =
     (if hr_Method r \<noteq> ''POST'' then Inl method_not_allowed
      else case gl_decodeGate L (hr_Body r) of
        Inl err \<Rightarrow> Inl (http_error (json_error (''invalid json: '' @ err)) 400)
      | Inr req \<Rightarrow>
          let req1 = req\<lparr>gr_UserID := or_else (or_else (gr_UserID req) (authenticatedUserID r g)) ''anonymous''\<rparr> in
          if gr_ThreadID req1 = [] then Inl (http_error (json_error ''thread_id is required'') 400)
          else Inr req1)"

definition handleGateApprove :: "gw_lib \<Rightarrow> gw_env \<Rightarrow> http_request \<Rightarrow> 'd gateway \<Rightarrow> http_response \<times> 'd gateway" where
  "handleGateApprove L E r g =
     (case gw_pendingStore g of
        None \<Rightarrow> (gates_unavailable, g)
      | Some ps \<Rightarrow>
          (case gate_admit L r g of
             Inl resp \<Rightarrow> (resp, g)
           | Inr req \<Rightarrow>
               (case ps_resolve (en_now E) (gr_UserID req) (gr_ThreadID req) (gr_RequestID req) ps of
                  (Inl err, ps') \<Rightarrow>
                    (http_error (json_error (gate_error_text err)) 404, g\<lparr>gw_pendingStore := Some ps'\<rparr>)
                | (Inr None, ps') \<Rightarrow>
                    (http_ok (ApprovedReply (gr_RequestID req) []), g\<lparr>gw_pendingStore := Some ps'\<rparr>)
                | (Inr (Some pg), ps') \<Rightarrow>
                    (http_ok (ApprovedReply (gr_RequestID req) (pg_ToolName pg)),
                     g\<lparr>gw_pendingStore := Some ps',
                       gw_riskEvaluator :=
                         map_option (record_approval (en_now E) (pg_ToolName pg) (pg_Params pg) (gr_UserID req))
                           (gw_riskEvaluator g)\<rparr>))))"

definition handleGateDeny :: "gw_lib \<Rightarrow> gw_env \<Rightarrow> http_request \<Rightarrow> 'd gateway \<Rightarrow> http_response \<times> 'd gateway" where
  "handleGateDeny L E r g =
     (case gw_pendingStore g of
        None \<Rightarrow> (gates_unavailable, g)
      | Some ps \<Rightarrow>
          (case gate_admit L r g of
             Inl resp \<Rightarrow> (resp, g)
           | Inr req \<Rightarrow>
               (case ps_deny (en_now E) (gr_UserID req) (gr_ThreadID req) (gr_RequestID req) ps of
                  (Some err, ps') \<Rightarrow>
                    (http_error (json_error (gate_error_text err)) 404, g\<lparr>gw_pendingStore := Some ps'\<rparr>)
                | (None, ps') \<Rightarrow>
                    (http_ok (DeniedReply (gr_RequestID req)), g\<lparr>gw_pendingStore := Some ps'\<rparr>))))"

section \<open>Routing\<close>

datatype endpoint =
    EpChat | EpChatStream | EpThreads | EpThreadDetail | EpStats | EpPending | EpApprove | EpDeny
  | EpHealth | EpReadyz | EpLivez | EpIndex

text \<open>
  The patterns \<open>Start\<close> registers, on a cleaned path: exact ones, the subtree of the threads, and the
  fallback.
\<close>

definition mux_route :: "string \<Rightarrow> endpoint" where
  "mux_route path =
     (if path = ''/api/chat'' then EpChat
      else if path = ''/api/chat/stream'' then EpChatStream
      else if path = ''/api/history/threads'' then EpThreads
      else if has_prefix path ''/api/history/threads/'' then EpThreadDetail
      else if path = ''/api/history/stats'' then EpStats
      else if path = ''/api/gates/pending'' then EpPending
      else if path = ''/api/gates/approve'' then EpApprove
      else if path = ''/api/gates/deny'' then EpDeny
      else if path = ''/health'' then EpHealth
      else if path = ''/readyz'' then EpReadyz
      else if path = ''/livez'' then EpLivez
      else EpIndex)"

text \<open>The endpoints that answer at once; the two that wait are the steps below.\<close>

definition serve :: "gw_lib \<Rightarrow> gw_env \<Rightarrow> http_request \<Rightarrow> 'd gateway \<Rightarrow> (http_response \<times> 'd gateway) option" where
  "serve L E r g =
     (case mux_route (hr_Path r) of
        EpThreads \<Rightarrow> map_option (\<lambda>x. (x, g)) (handleHistoryThreads E r g)
      | EpThreadDetail \<Rightarrow> handleHistoryThreadDetail r g
      | EpStats \<Rightarrow> map_option (\<lambda>x. (x, g)) (handleHistoryStats E r g)
      | EpPending \<Rightarrow> Some (handleGatesPending E r g)
      | EpApprove \<Rightarrow> Some (handleGateApprove L E r g)
      | EpDeny \<Rightarrow> Some (handleGateDeny L E r g)
      | EpHealth \<Rightarrow> Some (handleHealth (en_now E) g, g)
      | EpReadyz \<Rightarrow> Some (handleReadyz (en_now E) g, g)
      | EpLivez \<Rightarrow> Some (handleLivez, g)
      | EpIndex \<Rightarrow> Some (handleIndex L r, g)
      | EpChat \<Rightarrow> None
      | EpChatStream \<Rightarrow> None)"

section \<open>Runs of the gateway\<close>

text \<open>
  A chat request is registered, then it waits to enter the queue, then it waits for its answer. The
  agent takes messages from the queue and sends responses. Between the steps the rest of the program, the
  event stream included, changes what it shares with the gateway.
\<close>

datatype chat_phase = Registered chat_request | Waiting chat_request

type_synonym 'd gw_state = "'d gateway \<times> (string \<rightharpoonup> chat_phase)"

datatype gw_event =
    ChatRefused http_response
  | ChatAdmitted string chat_request
  | ChatQueued incoming_message
  | AgentTook incoming_message
  | AgentSent outgoing_response
  | ChatAnswered string outgoing_response http_response
  | ChatTimedOut string
  | ChatStopped string
  | Served http_response
  | Shared
  | ShutDown

inductive gw_step :: "gw_lib \<Rightarrow> 'd gw_state \<Rightarrow> gw_event \<Rightarrow> 'd gw_state \<Rightarrow> bool" for L where
  chat_refused: "chat_admit L r g = Inl resp \<Longrightarrow> gw_step L (g, c) (ChatRefused resp) (g, c)"
| chat_admitted: "chat_admit L r g = Inr req \<Longrightarrow> c rid = None \<Longrightarrow>
    gw_step L (g, c) (ChatAdmitted rid req) (chat_register rid g, c(rid \<mapsto> Registered req))"
| chat_queued: "c rid = Some (Registered req) \<Longrightarrow> chat_enqueue rid req g = Some g' \<Longrightarrow>
    gw_step L (g, c) (ChatQueued (chat_message rid req)) (g', c(rid \<mapsto> Waiting req))"
| agent_takes: "gw_msgChan g = m # ms \<Longrightarrow> gw_step L (g, c) (AgentTook m) (g\<lparr>gw_msgChan := ms\<rparr>, c)"
| agent_sends: "gw_step L (g, c) (AgentSent resp) (gateway_SendMessage resp g, c)"
| chat_answered: "c rid = Some (Waiting req) \<Longrightarrow> gw_responses g rid = Some (resp # rest) \<Longrightarrow>
    chat_reply now req resp g = (hr, g') \<Longrightarrow>
    gw_step L (g, c) (ChatAnswered rid resp hr) (chat_done rid g', c(rid := None))"
| chat_timed_out: "c rid = Some (Waiting req) \<Longrightarrow>
    gw_step L (g, c) (ChatTimedOut rid) (chat_done rid g, c(rid := None))"
| chat_stops: "c rid = Some (Waiting req) \<Longrightarrow> gw_shutdown g \<Longrightarrow>
    gw_step L (g, c) (ChatStopped rid) (chat_done rid g, c(rid := None))"
| served: "serve L E r g = Some (hr, g') \<Longrightarrow> gw_step L (g, c) (Served hr) (g', c)"
| shared: "gw_step L (g, c) Shared
    (g\<lparr>gw_historyStore := h, gw_pendingStore := ps, gw_riskEvaluator := ev, gw_eventHub := hub\<rparr>, c)"
| shut_down: "gateway_Shutdown g = Some g' \<Longrightarrow> gw_step L (g, c) ShutDown (g', c)"

inductive_cases gw_stepE: "gw_step L (g, c) e s'"

section \<open>What the handlers leave alone\<close>

definition same_queues :: "'d gateway \<Rightarrow> 'd gateway \<Rightarrow> bool" where
  "same_queues g g' \<longleftrightarrow> gw_msgChan g' = gw_msgChan g \<and> gw_responses g' = gw_responses g"

lemma reply_queues [frame]: "chat_reply now req resp g = (hr, g') \<Longrightarrow> same_queues g g'"
  by (auto simp: chat_reply_def same_queues_def split: if_splits option.splits prod.splits)

lemma detail_queues [frame]: "handleHistoryThreadDetail r g = Some (hr, g') \<Longrightarrow> same_queues g g'"
  by (auto simp: handleHistoryThreadDetail_def same_queues_def Let_def
      split: if_splits option.splits prod.splits sum.splits)

lemma pending_queues [frame]: "same_queues g (snd (handleGatesPending E r g))"
  by (auto simp: handleGatesPending_def same_queues_def Let_def split: option.splits prod.splits)

lemma approve_queues [frame]: "same_queues g (snd (handleGateApprove L E r g))"
  by (auto simp: handleGateApprove_def same_queues_def split: option.splits prod.splits sum.splits)

lemma deny_queues [frame]: "same_queues g (snd (handleGateDeny L E r g))"
  by (auto simp: handleGateDeny_def same_queues_def split: option.splits prod.splits sum.splits)

lemma same_queues_refl [simp]: "same_queues g g"
  by (simp add: same_queues_def)

lemma serve_queues: "serve L E r g = Some (hr, g') \<Longrightarrow> same_queues g g'"
  using pending_queues [of g E r] approve_queues [of g L E r] deny_queues [of g L E r]
  by (auto simp: serve_def detail_queues split: endpoint.splits)

lemma shutdown_queues: "gateway_Shutdown g = Some g' \<Longrightarrow> same_queues g g'"
  by (auto simp: gateway_Shutdown_def same_queues_def split: if_splits)

section \<open>Invariant of the chat endpoint\<close>

text \<open>
  A response channel exists exactly for the requests that are open, it holds at most one response, the
  queue of messages stays within its capacity, and every message in it names a user and has a text.
\<close>

definition gw_inv :: "'d gw_state \<Rightarrow> bool" where
  "gw_inv s \<longleftrightarrow> (case s of (g, c) \<Rightarrow>
     dom (gw_responses g) = dom c \<and>
     (\<forall>rid b. gw_responses g rid = Some b \<longrightarrow> length b \<le> 1) \<and>
     length (gw_msgChan g) \<le> 64 \<and>
     (\<forall>m \<in> set (gw_msgChan g). im_Channel m = ''http'' \<and> im_UserID m \<noteq> [] \<and> im_Content m \<noteq> []) \<and>
     (\<forall>rid req. c rid = Some (Registered req) \<longrightarrow> cq_UserID req \<noteq> [] \<and> cq_Content req \<noteq> []))"

lemma chat_admit_complete: "chat_admit L r g = Inr req \<Longrightarrow> cq_UserID req \<noteq> [] \<and> cq_Content req \<noteq> []"
  by (auto simp: chat_admit_def Let_def split: if_splits sum.splits option.splits)

lemma SendMessage_buffer:
  "gw_responses (gateway_SendMessage resp g) rid =
     map_option (\<lambda>b. if b = [] then [resp] else b) (gw_responses g rid)"
  by (auto simp: gateway_SendMessage_def resp_chan_capacity_def intro!: option.map_cong0)

lemma SendMessage_dom: "dom (gw_responses (gateway_SendMessage resp g)) = dom (gw_responses g)"
  by (auto simp: SendMessage_buffer dom_def)

lemma SendMessage_chan [simp]: "gw_msgChan (gateway_SendMessage resp g) = gw_msgChan g"
  by (simp add: gateway_SendMessage_def)

lemma gw_step_inv:
  assumes "gw_step L s e s'" and "gw_inv s"
  shows "gw_inv s'"
  using assms
proof (cases rule: gw_step.cases)
  case (chat_admitted r g req c rid)
  with assms(2) chat_admit_complete [OF chat_admitted(4)] show ?thesis
    by (auto simp: gw_inv_def chat_register_def)
next
  case (chat_queued c rid req g g')
  then have "cq_UserID req \<noteq> []" "cq_Content req \<noteq> []"
    using assms(2) by (auto simp: gw_inv_def)
  moreover have "insert rid (dom c) = dom c" using chat_queued(4) by auto
  moreover have "length (gw_msgChan g) < 64" "g' = g\<lparr>gw_msgChan := gw_msgChan g @ [chat_message rid req]\<rparr>"
    using chat_queued(5) by (auto simp: chat_enqueue_def msg_chan_capacity_def split: if_splits)
  ultimately show ?thesis
    using chat_queued(1-4) assms(2)
    by (simp add: gw_inv_def chat_message_def gateway_Name_def)
next
  case (agent_takes g m ms c)
  with assms(2) show ?thesis by (auto simp: gw_inv_def)
next
  case (agent_sends g c resp)
  with assms(2) show ?thesis
    by (auto simp: gw_inv_def SendMessage_dom SendMessage_buffer)
next
  case (chat_answered c rid req g resp rest now hr g')
  with assms(2) reply_queues [OF chat_answered(6)] show ?thesis
    by (auto simp: gw_inv_def chat_done_def same_queues_def)
next
  case (chat_timed_out c rid req g)
  with assms(2) show ?thesis by (auto simp: gw_inv_def chat_done_def)
next
  case (chat_stops c rid req g)
  with assms(2) show ?thesis by (auto simp: gw_inv_def chat_done_def)
next
  case (served E r g hr g' c)
  with assms(2) serve_queues [OF served(4)] show ?thesis
    by (auto simp: gw_inv_def same_queues_def)
next
  case (shared g c h ps ev hub)
  with assms(2) show ?thesis by (simp add: gw_inv_def)
next
  case (shut_down g g' c)
  with assms(2) shutdown_queues [OF shut_down(4)] show ?thesis
    by (auto simp: gw_inv_def same_queues_def)
qed simp

text \<open>Where the responses in the buffers come from: sent by the agent after the request was admitted.\<close>

definition sent_while_open :: "gw_event list \<Rightarrow> string \<Rightarrow> outgoing_response \<Rightarrow> bool" where
  "sent_while_open es rid resp \<longleftrightarrow>
     (\<exists>es1 req es2. es = es1 @ ChatAdmitted rid req # es2 \<and> AgentSent resp \<in> set es2)"

definition admitted :: "gw_event list \<Rightarrow> string \<Rightarrow> bool" where
  "admitted es rid \<longleftrightarrow> (\<exists>req. ChatAdmitted rid req \<in> set es)"

lemma sent_while_open_mono: "sent_while_open es rid resp \<Longrightarrow> sent_while_open (es @ [e]) rid resp"
  unfolding sent_while_open_def by (metis (no_types, lifting) Cons_eq_appendI Un_iff append_assoc set_append)

lemma admitted_mono: "admitted es rid \<Longrightarrow> admitted (es @ [e]) rid"
  by (auto simp: admitted_def)

lemma admitted_now: "admitted (es @ [ChatAdmitted rid req]) rid"
  by (auto simp: admitted_def)

lemma sent_now: "admitted es rid \<Longrightarrow> sent_while_open (es @ [AgentSent resp]) rid resp"
proof -
  assume "admitted es rid"
  then obtain req es1 es2 where "es = es1 @ ChatAdmitted rid req # es2"
    unfolding admitted_def by (meson split_list)
  then have "es @ [AgentSent resp] = es1 @ ChatAdmitted rid req # (es2 @ [AgentSent resp])" by simp
  then show ?thesis unfolding sent_while_open_def by (intro exI) auto
qed

text \<open>The HTTP answer that carries a response of the agent.\<close>

definition answer_of :: "outgoing_response \<Rightarrow> http_response \<Rightarrow> bool" where
  "answer_of resp hr \<longleftrightarrow>
     (if or_Status resp = ''pending_gate''
      then \<exists>waiting. hr = http_ok (PendingReply (or_ThreadID resp) waiting)
      else hr = http_ok (ChatReply (or_Content resp) (or_ThreadID resp)))"

lemma chat_reply_answer: "chat_reply now req resp g = (hr, g') \<Longrightarrow> answer_of resp hr"
  by (auto simp: chat_reply_def answer_of_def split: if_splits option.splits prod.splits)

definition origin_inv :: "gw_event list \<Rightarrow> 'd gw_state \<Rightarrow> bool" where
  "origin_inv es s \<longleftrightarrow>
     (\<forall>rid b. gw_responses (fst s) rid = Some b \<longrightarrow>
        admitted es rid \<and> (\<forall>resp \<in> set b. sent_while_open es rid resp)) \<and>
     (\<forall>rid resp hr. ChatAnswered rid resp hr \<in> set es \<longrightarrow> sent_while_open es rid resp \<and> answer_of resp hr)"

lemma origin_step:
  assumes "origin_inv es s" and "gw_step L s e s'"
  shows "origin_inv (es @ [e]) s'"
proof -
  have b: "admitted (es @ [e]) rid" "\<And>resp. resp \<in> set b \<Longrightarrow> sent_while_open (es @ [e]) rid resp"
    if "gw_responses (fst s) rid = Some b" for rid b
    using assms(1) that sent_while_open_mono admitted_mono unfolding origin_inv_def by blast+
  have old: "sent_while_open (es @ [e]) rid resp \<and> answer_of resp hr" if "ChatAnswered rid resp hr \<in> set es" for rid resp hr
    using assms(1) that sent_while_open_mono unfolding origin_inv_def by blast
  have resp: "admitted (es @ [e]) rid \<and> (\<forall>x \<in> set b'. sent_while_open (es @ [e]) rid x)"
    if "gw_responses (fst s') rid = Some b'" for rid b'
    using assms(2)
  proof (cases rule: gw_step.cases)
    case (chat_admitted r g req c rid')
    with that b show ?thesis by (auto simp: chat_register_def admitted_now split: if_splits)
  next
    case (agent_sends g c x)
    from that agent_sends obtain b0 where b0: "gw_responses g rid = Some b0" "b' = (if b0 = [] then [x] else b0)"
      by (auto simp: SendMessage_buffer)
    moreover have "admitted es rid" using assms(1) b0(1) agent_sends(1) by (auto simp: origin_inv_def)
    ultimately show ?thesis using b [of rid b0] agent_sends sent_now [of es rid x] by (auto split: if_splits)
  next
    case (chat_answered c rid' req g x rest now hr g')
    with that b reply_queues [OF chat_answered(6)] show ?thesis
      by (auto simp: chat_done_def same_queues_def split: if_splits)
  next
    case (served E r g hr g' c)
    with that b serve_queues [OF served(4)] show ?thesis by (simp add: same_queues_def)
  next
    case (shut_down g g' c)
    with that b shutdown_queues [OF shut_down(4)] show ?thesis by (simp add: same_queues_def)
  qed (use that b in \<open>auto simp: chat_enqueue_def chat_done_def split: if_splits\<close>)
  have "sent_while_open (es @ [e]) rid x \<and> answer_of x hr" if "e = ChatAnswered rid x hr" for rid x hr
    using assms(2)
  proof (cases rule: gw_step.cases)
    case (chat_answered c rid' req g x' rest now hr' g')
    with that b [of rid "x # rest"] chat_reply_answer [OF chat_answered(6)] show ?thesis by simp
  qed (use that in simp_all)
  with resp old show ?thesis unfolding origin_inv_def by auto
qed

lemma origin_run:
  assumes "run (gw_step L) (g0, Map.empty) es s" and "gw_responses g0 = Map.empty"
  shows "origin_inv es s"
  using assms
proof (induction "(g0, Map.empty :: string \<rightharpoonup> chat_phase)" es s rule: run.induct)
  case run_nil
  then show ?case by (simp add: origin_inv_def)
next
  case (run_snoc es t e u)
  then show ?case by (blast intro: origin_step)
qed

interpretation gateway_runs: step_invariant
  "\<lambda>s. \<exists>g0. s = (g0, Map.empty) \<and> gw_responses g0 = Map.empty \<and> gw_msgChan g0 = []" "gw_step L" gw_inv
  for L
proof
  show "gw_inv s" if "\<exists>g0. s = (g0, Map.empty) \<and> gw_responses g0 = Map.empty \<and> gw_msgChan g0 = []"
    for s :: "'a gw_state"
    using that by (auto simp: gw_inv_def)
qed (rule gw_step_inv)

section \<open>Properties\<close>

text \<open>
  C7: in every run of a gateway that starts with no open request and an empty queue, whatever authenticator,
  stores and evaluator it has, an HTTP client that is answered receives the content and thread of a response
  the agent sent while that client's request was open, or the notice that the thread waits for an
  approval when the response says so; the response channels are exactly those of the open requests, each
  with at most one response, so none is left behind after an answer, a time-out or the shutdown;
  and the queue to the agent holds at most 64 messages, each with a user and a text.
\<close>

theorem chat_answers_from_agent:
  assumes "run (gw_step L) (g0, Map.empty) es (g, c)" and "gw_responses g0 = Map.empty" and "gw_msgChan g0 = []"
  shows "(\<forall>rid resp hr. ChatAnswered rid resp hr \<in> set es \<longrightarrow>
            (\<exists>es1 req es2. es = es1 @ ChatAdmitted rid req # es2 \<and> AgentSent resp \<in> set es2) \<and>
            (if or_Status resp = ''pending_gate''
             then \<exists>waiting. hr = http_ok (PendingReply (or_ThreadID resp) waiting)
             else hr = http_ok (ChatReply (or_Content resp) (or_ThreadID resp)))) \<and>
         dom (gw_responses g) = dom c \<and>
         (\<forall>rid b. gw_responses g rid = Some b \<longrightarrow> length b \<le> 1) \<and>
         length (gw_msgChan g) \<le> 64 \<and>
         (\<forall>m. m \<in> set (gw_msgChan g) \<longrightarrow> im_UserID m \<noteq> [] \<and> im_Content m \<noteq> [])"
proof -
  have o: "origin_inv es (g, c)" by (rule origin_run [OF assms(1,2)])
  have i: "gw_inv (g, c)" by (rule gateway_runs.run_inv [OF _ assms(1)]) (use assms(2,3) in blast)
  show ?thesis
    using o i unfolding origin_inv_def gw_inv_def sent_while_open_def answer_of_def by simp
qed

definition demo_gw_lib :: gw_lib where
  "demo_gw_lib =
     \<lparr>gl_decodeChat = (\<lambda>b. Inr \<lparr>cq_UserID = [], cq_Content = b, cq_ThreadID = ''t'', cq_APIKey = [], cq_Attachments = []\<rparr>),
      gl_decodeGate = (\<lambda>b. Inr \<lparr>gr_RequestID = b, gr_UserID = ''u'', gr_ThreadID = ''t''\<rparr>),
      gl_marshalEvent = ev_Payload, gl_indexPage = None\<rparr>"

definition demo_post :: "string \<Rightarrow> string \<Rightarrow> http_request" where
  "demo_post path b =
     \<lparr>hr_Method = ''POST'', hr_Path = path, hr_Query = (\<lambda>_. []), hr_Header = (\<lambda>_. []), hr_Body = b\<rparr>"

text \<open>A gateway with an authenticator and an approval store, as the program sets one up.\<close>

definition demo_gateway :: "memory_db gateway" where
  "demo_gateway = WithPendingStore new_pending_store (WithAuth no_auth (gateway_New 80 0))"

lemma chat_answers_from_agent_witness:
  "\<exists>req. length (gw_msgChan (chat_register ''r'' demo_gateway)) \<le> 64 \<and>
     run (gw_step demo_gw_lib) (demo_gateway, Map.empty) [ChatAdmitted ''r'' req]
       (chat_register ''r'' demo_gateway, [''r'' \<mapsto> Registered req])"
proof -
  let ?req = "\<lparr>cq_UserID = ''anonymous'', cq_Content = ''hi'', cq_ThreadID = ''t'', cq_APIKey = [], cq_Attachments = []\<rparr>"
  have a: "chat_admit demo_gw_lib (demo_post p ''hi'') demo_gateway = Inr ?req" for p
    by (simp add: chat_admit_def demo_gw_lib_def demo_post_def demo_gateway_def WithPendingStore_def WithAuth_def
        gateway_New_def Let_def)
  have "gw_step demo_gw_lib (demo_gateway, Map.empty) (ChatAdmitted ''r'' ?req)
     (chat_register ''r'' demo_gateway, [''r'' \<mapsto> Registered ?req])"
    by (rule chat_admitted [OF a]) simp
  then have r: "run (gw_step demo_gw_lib) (demo_gateway, Map.empty) [ChatAdmitted ''r'' ?req]
     (chat_register ''r'' demo_gateway, [''r'' \<mapsto> Registered ?req])"
    by (rule run_Cons) (rule run.run_nil)
  have "gw_responses demo_gateway = Map.empty" "gw_msgChan demo_gateway = []"
    by (simp_all add: demo_gateway_def WithPendingStore_def WithAuth_def gateway_New_def)
  from chat_answers_from_agent [OF r this] r show ?thesis by blast
qed

text \<open>
  A response is broadcast: two clients that wait at the same time both get the answer to one of them.
\<close>

lemma response_reaches_all_waiting:
  assumes "gw_responses g rid = Some []" and "gw_responses g rid' = Some []"
  shows "gw_responses (gateway_SendMessage resp g) rid = Some [resp] \<and>
         gw_responses (gateway_SendMessage resp g) rid' = Some [resp]"
  using assms by (simp add: SendMessage_buffer)

text \<open>
  A chat request that carries an API key is taken as the user of that key, whatever user it names, and
  with a key the authenticator rejects it is refused with status 401; without a key it is taken
  as the user it names itself.
\<close>

lemma chat_identity:
  assumes "gw_authenticator g = Some a" and "hr_Method r = ''POST''"
    and "gl_decodeChat L (hr_Body r) = Inr req" and "cq_Content req \<noteq> []"
  shows "chat_admit L r g =
     (if cq_APIKey req = [] then Inr (req\<lparr>cq_UserID := or_else (cq_UserID req) ''anonymous''\<rparr>)
      else case a (cq_APIKey req) of
        Inl err \<Rightarrow> Inl (http_error (json_error ''unauthorized'') 401)
      | Inr u \<Rightarrow> Inr (req\<lparr>cq_UserID := or_else u ''anonymous''\<rparr>))"
  using assms by (cases req) (auto simp: chat_admit_def Let_def or_else_def split: sum.splits)

lemma chat_identity_witness:
  "chat_admit demo_gw_lib (demo_post ''/api/chat'' ''hi'') (WithAuth no_auth (gateway_New 80 0)) =
     Inr \<lparr>cq_UserID = ''anonymous'', cq_Content = ''hi'', cq_ThreadID = ''t'', cq_APIKey = [], cq_Attachments = []\<rparr>"
  using chat_identity [of "WithAuth no_auth (gateway_New 80 0)" no_auth "demo_post ''/api/chat'' ''hi''" demo_gw_lib
    "\<lparr>cq_UserID = [], cq_Content = ''hi'', cq_ThreadID = ''t'', cq_APIKey = [], cq_Attachments = []\<rparr>"]
  by (simp add: WithAuth_def demo_post_def demo_gw_lib_def or_else_def)

text \<open>
  Approving a call over HTTP: when the thread's pending call has the given request identifier and has
  not expired, the endpoint reports the tool, the dispatcher's next look at the thread's approvals
  finds that call, and a balanced risk evaluator lets a medium-risk call of the same tool and action pass
  without asking for the next seven days, for the user that the approval names.
\<close>

lemma approve_endpoint_effect:
  assumes "gw_pendingStore g = Some ps" and "gate_admit L r g = Inr req"
    and "byKey ps (gr_ThreadID req) = Some pg" and "pg_RequestID pg = gr_RequestID req"
    and "en_now E \<le> pg_ExpiresAt pg" and "consumed ps (gr_RequestID req) = None"
    and "resolved ps (gr_ThreadID req) = None" and "gw_riskEvaluator g = Some ev"
    and "trustLevel ev = TrustBalanced" and "assess_risk (pg_ToolName pg) (pg_Params pg) = RiskMedium"
    and "now' - en_now E \<le> 7 * 24 * hour"
  shows "\<exists>g' ps' ev'. handleGateApprove L E r g =
           (http_ok (ApprovedReply (gr_RequestID req) (pg_ToolName pg)), g') \<and>
         gw_pendingStore g' = Some ps' \<and> gw_riskEvaluator g' = Some ev' \<and>
         fst (ps_consume_resolved t2 u (gr_ThreadID req) ps') = Some pg \<and>
         byKey ps' (gr_ThreadID req) = None \<and>
         risk_evaluate now' ev' (pg_ToolName pg) (pg_Params pg) (gr_UserID req) = Never"
proof -
  define ps' where "ps' = ps\<lparr>byKey := (byKey ps)(gr_ThreadID req := None),
    byReqID := (byReqID ps)(gr_RequestID req := None), resolved := (resolved ps)(gr_ThreadID req \<mapsto> pg)\<rparr>"
  define ev' where "ev' = record_approval (en_now E) (pg_ToolName pg) (pg_Params pg) (gr_UserID req) ev"
  have res: "ps_resolve (en_now E) (gr_UserID req) (gr_ThreadID req) (gr_RequestID req) ps = (Inr (Some pg), ps')"
    using assms(3-7) by (simp add: ps_resolve_def ps_resolve_pending_def store_key_def is_expired_def ps'_def Let_def)
  have "handleGateApprove L E r g =
      (http_ok (ApprovedReply (gr_RequestID req) (pg_ToolName pg)),
       g\<lparr>gw_pendingStore := Some ps', gw_riskEvaluator := Some ev'\<rparr>)"
    using assms(1,2,8) res by (simp add: handleGateApprove_def ev'_def)
  moreover have "is_learned_approved now' ev' (pg_ToolName pg) (pg_Params pg) (gr_UserID req)"
    using assms(11)
    by (simp add: ev'_def is_learned_approved_def record_approval_def Let_def learned_auto_approve_ttl_def)
  then have "risk_evaluate now' ev' (pg_ToolName pg) (pg_Params pg) (gr_UserID req) = Never"
    using assms(9,10) by (simp add: risk_evaluate_Never) (simp add: ev'_def record_approval_def Let_def)
  moreover have "fst (ps_consume_resolved t2 u (gr_ThreadID req) ps') = Some pg" "byKey ps' (gr_ThreadID req) = None"
    by (simp_all add: ps_consume_resolved_def store_key_def ps'_def Let_def)
  ultimately show ?thesis by simp
qed

definition demo_pending :: pending_store where
  "demo_pending = snd (ps_create 0 [] ''r1'' ''u'' ''t'' ''memory'' Map.empty ''http'' new_pending_store)"

lemma approve_endpoint_effect_witness:
  "fst (handleGateApprove demo_gw_lib \<lparr>en_now = 5, en_convs = [], en_jobs = [], en_tools = [], en_gates = []\<rparr>
     (demo_post ''/api/gates/approve'' ''r1'')
     (WithRiskEvaluator (new_risk_based_evaluator TrustBalanced)
        (WithPendingStore demo_pending (gateway_New 80 0 :: memory_db gateway)))) =
   http_ok (ApprovedReply ''r1'' ''memory'')"
proof -
  let ?g = "WithRiskEvaluator (new_risk_based_evaluator TrustBalanced)
        (WithPendingStore demo_pending (gateway_New 80 0 :: memory_db gateway))"
  let ?pg = "fst (ps_create 0 [] ''r1'' ''u'' ''t'' ''memory'' Map.empty ''http'' new_pending_store)"
  let ?req = "\<lparr>gr_RequestID = ''r1'', gr_UserID = ''u'', gr_ThreadID = ''t''\<rparr>"
  have a: "gate_admit demo_gw_lib (demo_post ''/api/gates/approve'' ''r1'') ?g = Inr ?req"
    by (simp add: gate_admit_def demo_gw_lib_def demo_post_def Let_def or_else_def)
  have p: "byKey demo_pending ''t'' = Some ?pg" "consumed demo_pending ''r1'' = None" "resolved demo_pending ''t'' = None"
    by (simp_all add: demo_pending_def ps_create_def Let_def store_key_def new_pending_store_def)
  show ?thesis
    using approve_endpoint_effect [of ?g demo_pending demo_gw_lib "demo_post ''/api/gates/approve'' ''r1''" ?req ?pg
        "\<lparr>en_now = 5, en_convs = [], en_jobs = [], en_tools = [], en_gates = []\<rparr>"
        "new_risk_based_evaluator TrustBalanced" 6 0 "[]"] a p
    by (auto simp: WithRiskEvaluator_def WithPendingStore_def ps_create_def Let_def new_pending_store_def
        new_risk_based_evaluator_def assess_risk_def)
qed

text \<open>
  A denied call stays denied: once the endpoint has accepted a denial, a later approval of the same
  request creates no approval and teaches the risk evaluator nothing. Its answer nevertheless has
  status 200 and says that the request is approved.
\<close>

lemma denied_stays_denied:
  assumes "handleGateDeny L E r g = (http_ok (DeniedReply (gr_RequestID req)), g1)"
    and "gate_admit L r g = Inr req" and "gw_pendingStore g = Some ps"
    and "gate_admit L r' g1 = Inr req" and "resolved ps (gr_ThreadID req) = None"
  shows "\<exists>ps1. gw_pendingStore g1 = Some ps1 \<and> resolved ps1 (gr_ThreadID req) = None \<and>
     handleGateApprove L E' r' g1 = (http_ok (ApprovedReply (gr_RequestID req) []), g1)"
proof -
  obtain ps1 where d: "ps_deny (en_now E) (gr_UserID req) (gr_ThreadID req) (gr_RequestID req) ps = (None, ps1)"
    and g1: "g1 = g\<lparr>gw_pendingStore := Some ps1\<rparr>"
    using assms(1-3) by (auto simp: handleGateDeny_def http_ok_def http_error_def split: prod.splits option.splits)
  have "consumed ps1 (gr_RequestID req) \<noteq> None" "resolved ps1 (gr_ThreadID req) = None"
    using d assms(5) by (auto simp: ps_deny_def Let_def split: if_splits option.splits)
  then have "ps_resolve t (gr_UserID req) (gr_ThreadID req) (gr_RequestID req) ps1 = (Inr None, ps1)" for t
    by (simp add: ps_resolve_def ps_resolve_pending_def store_key_def Let_def)
  with assms(4) g1 \<open>resolved ps1 (gr_ThreadID req) = None\<close> show ?thesis
    by (simp add: handleGateApprove_def)
qed

text \<open>The list of pending approvals shows exactly the live gates of the user asked for.\<close>

lemma range_map_del: "k \<notin> set ks \<Longrightarrow> range_map ks (m(k := None)) = range_map ks m"
  by (induction ks) (auto simp: range_map_def List.map_filter_simps split: option.splits)

lemma list_loop_live:
  "distinct ks \<Longrightarrow>
     fst (list_loop now ks s) = filter (\<lambda>pg. \<not> is_expired now pg) (map snd (range_map ks (byKey s)))"
proof (induction ks arbitrary: s)
  case (Cons k ks)
  have "range_map ks ((byKey s)(k := None)) = range_map ks (byKey s)"
    using Cons.prems by (intro range_map_del) simp
  with Cons show ?case
    by (auto simp: range_map_def List.map_filter_simps case_prod_beta Let_def split: option.splits)
qed (simp add: range_map_def List.map_filter_simps)

lemma pending_endpoint_exact:
  assumes "gw_pendingStore g = Some ps" and "range_order (en_gates E) (byKey ps)" and "hr_Method r = ''GET''"
    and "hr_Query r ''user_id'' = u" and "u \<noteq> []"
    and "fst (handleGatesPending E r g) = http_ok (GatesReply views n)"
  shows "set views = gate_entry ` {pg \<in> ran (byKey ps). pg_UserID pg = u \<and> en_now E \<le> pg_ExpiresAt pg} \<and>
         n = length views"
proof -
  have "fst (handleGatesPending E r g) =
      (let l = map gate_entry (filter (\<lambda>pg. pg_UserID pg = u) (fst (list_loop (en_now E) (en_gates E) ps)))
       in http_ok (GatesReply l (length l)))"
    using assms(1,3-5) by (simp add: handleGatesPending_def ps_list_def or_else_def Let_def split: prod.splits)
  with assms(6) have v: "views = map gate_entry (filter (\<lambda>pg. pg_UserID pg = u)
        (fst (list_loop (en_now E) (en_gates E) ps)))" "n = length views"
    by (auto simp: Let_def http_ok_def)
  have "snd ` set (range_map (en_gates E) (byKey ps)) = ran (byKey ps)"
    using set_range_map [OF assms(2)] by (force simp: ran_def)
  moreover have "distinct (en_gates E)" using assms(2) by (simp add: range_order_def)
  ultimately show ?thesis
    using v by (auto simp: list_loop_live is_expired_def)
qed

text \<open>Readiness: the probe answers 200 exactly when every registered check passes.\<close>

lemma failed_checks_Nil: "failed_checks now hcs = [] \<longleftrightarrow> list_all (\<lambda>hc. hc_Check hc now = None) hcs"
  by (induction hcs) (auto split: option.splits)

lemma readyz_exact:
  "rs_Status (handleReadyz now g) = (if list_all (\<lambda>hc. hc_Check hc now = None) (gw_healthChecks g) then 200 else 503)"
  using failed_checks_Nil [of now "gw_healthChecks g"] by (simp add: handleReadyz_def http_ok_def Let_def)

text \<open>The thread endpoint serves and deletes any thread to any caller: the user plays no part in it.\<close>

lemma thread_detail_ignores_caller:
  "map_option fst (handleHistoryThreadDetail (r\<lparr>hr_Header := h, hr_Query := q\<rparr>) (g\<lparr>gw_authenticator := a\<rparr>)) =
   map_option fst (handleHistoryThreadDetail r g)"
  by (simp add: handleHistoryThreadDetail_def Let_def split: option.splits prod.splits sum.splits)

end
