(* ===== verification/Channel_Manager.thy ===== *)
theory Channel_Manager
  imports Channel_Types "HOL-Library.Multiset"
begin

text \<open>
  The channel manager, \<open>internal/channels/manager.go\<close>: registration of channels, sending to one or to
  all of them, and the goroutines that merge their messages into one stream.

  The calls are functions. The merge loop and the forwarders run beside them, so they are steps of a
  relation: a forwarder takes a message from its source and then waits for room in \<open>merged\<close>, the
  loop takes one from \<open>merged\<close> and then waits for room in \<open>recvCh\<close>. A Go channel is its buffer, with its
  capacity as the bound. What a channel does when it sends or shuts down is its own: these are
  functions on a world \<open>'w\<close> that the manager calls.
\<close>

section \<open>State\<close>

record 'w chan =
  chn_Name :: string
  chn_Messages :: nat
  chn_SendMessage :: "outgoing_response \<Rightarrow> 'w \<Rightarrow> string option \<times> 'w"
  chn_Shutdown :: "'w \<Rightarrow> string option \<times> 'w"

text \<open>A forwarder: its name, its source, and the message it has taken and not yet passed on.\<close>

record forwarder =
  fw_name :: string
  fw_src :: nat
  fw_held :: "incoming_message option"

datatype loop_state = NotRunning | Idle | Holding incoming_message | Exited

text \<open>\<open>mg_src\<close> are the message channels of all sources that exist, with the flag that tells a closed one.\<close>

record 'w manager =
  mg_channels :: "string \<rightharpoonup> 'w chan"
  mg_addCh :: "'w chan list"
  mg_injectCh :: "incoming_message list"
  mg_injectClosed :: bool
  mg_recvCh :: "incoming_message list"
  mg_recvClosed :: bool
  mg_stopped :: bool
  mg_cancelled :: bool
  mg_started :: bool
  mg_merged :: "incoming_message list"
  mg_active :: "string set"
  mg_forwarders :: "forwarder list"
  mg_inject :: "incoming_message option option"
  mg_loop :: loop_state
  mg_src :: "(incoming_message list \<times> bool) list"

definition NewManager :: "(incoming_message list \<times> bool) list \<Rightarrow> 'w manager" where
  "NewManager srcs =
     \<lparr>mg_channels = Map.empty, mg_addCh = [], mg_injectCh = [], mg_injectClosed = False, mg_recvCh = [],
      mg_recvClosed = False, mg_stopped = False, mg_cancelled = False, mg_started = False,
      mg_merged = [], mg_active = {}, mg_forwarders = [], mg_inject = None, mg_loop = NotRunning,
      mg_src = srcs\<rparr>"

definition add_capacity :: nat where "add_capacity = 8"
definition queue_capacity :: nat where "queue_capacity = 64"

section \<open>Calls\<close>

definition new_forwarder :: "'w chan \<Rightarrow> forwarder" where
  "new_forwarder ch = \<lparr>fw_name = chn_Name ch, fw_src = chn_Messages ch, fw_held = None\<rparr>"

text \<open>
  The merge loop up to its main loop: one forwarder for every registered channel, in the order \<open>ks\<close> of
  the range, and the one for injected messages. \<open>Start\<close> launches it; a channel added between the two
  would only leave an entry in \<open>addCh\<close> that the main loop skips, so they are one step.
\<close>

definition merge_init :: "string list \<Rightarrow> 'w manager \<Rightarrow> 'w manager" where
  "merge_init ks m =
     (let chs = map snd (range_map ks (mg_channels m)) in
      m\<lparr>mg_active := set (map chn_Name chs), mg_forwarders := map new_forwarder chs,
        mg_inject := Some None, mg_loop := Idle\<rparr>)"

definition manager_Start :: "string list \<Rightarrow> 'w manager \<Rightarrow> 'w manager" where
  "manager_Start ks m = (if mg_started m then m else merge_init ks (m\<lparr>mg_started := True\<rparr>))"

definition manager_Add :: "'w chan \<Rightarrow> 'w manager \<Rightarrow> 'w manager" where
  "manager_Add ch m =
     (let m1 = m\<lparr>mg_channels := (mg_channels m)(chn_Name ch \<mapsto> ch)\<rparr> in
      if mg_started m1 \<and> length (mg_addCh m1) < add_capacity then m1\<lparr>mg_addCh := mg_addCh m1 @ [ch]\<rparr>
      else m1)"

text \<open>The verb \<open>%q\<close> is the argument \<open>quote\<close>.\<close>

definition channel_not_found :: "(string \<Rightarrow> string) \<Rightarrow> string \<Rightarrow> string" where
  "channel_not_found quote name = ''channel '' @ quote name @ '' not found''"

definition manager_Remove :: "(string \<Rightarrow> string) \<Rightarrow> string \<Rightarrow> 'w manager \<Rightarrow> 'w \<Rightarrow> string option \<times> 'w manager \<times> 'w" where
  "manager_Remove quote name m w =
     (let m1 = m\<lparr>mg_channels := (mg_channels m)(name := None)\<rparr> in
      case mg_channels m name of
        None \<Rightarrow> (Some (channel_not_found quote name), m1, w)
      | Some ch \<Rightarrow> (case chn_Shutdown ch w of (err, w') \<Rightarrow> (err, m1, w')))"

definition manager_Get :: "string \<Rightarrow> 'w manager \<Rightarrow> 'w chan option" where
  "manager_Get name m = mg_channels m name"

definition manager_Names :: "string list \<Rightarrow> 'w manager \<Rightarrow> string list" where
  "manager_Names ks m = map fst (range_map ks (mg_channels m))"

text \<open>A send to a closed channel panics; otherwise a full one drops the message.\<close>

definition manager_Inject :: "incoming_message \<Rightarrow> 'w manager \<Rightarrow> 'w manager option" where
  "manager_Inject msg m =
     (if mg_injectClosed m then None
      else if length (mg_injectCh m) < queue_capacity
      then Some (m\<lparr>mg_injectCh := mg_injectCh m @ [msg]\<rparr>) else Some m)"

definition zero_message :: incoming_message where
  "zero_message =
     \<lparr>im_ID = [], im_Channel = [], im_UserID = [], im_Content = [], im_ThreadID = [], im_Attachments = []\<rparr>"

text \<open>
  \<open>Receive\<close> with a live context: \<^const>\<open>None\<close> while it waits. A closed and empty stream yields the zero
  message without an error.
\<close>

definition manager_Receive :: "'w manager \<Rightarrow> (incoming_message \<times> 'w manager) option" where
  "manager_Receive m =
     (case mg_recvCh m of
        msg # rest \<Rightarrow> Some (msg, m\<lparr>mg_recvCh := rest\<rparr>)
      | [] \<Rightarrow> if mg_recvClosed m then Some (zero_message, m) else None)"

definition manager_Send :: "(string \<Rightarrow> string) \<Rightarrow> string \<Rightarrow> outgoing_response \<Rightarrow> 'w manager \<Rightarrow> 'w \<Rightarrow> string option \<times> 'w" where
  "manager_Send quote channelName msg m w =
     (case mg_channels m channelName of
        None \<Rightarrow> (Some (channel_not_found quote channelName), w)
      | Some ch \<Rightarrow> chn_SendMessage ch msg w)"

text \<open>Calling an operation on each channel and keeping the first error.\<close>

fun each_channel :: "('w chan \<Rightarrow> 'w \<Rightarrow> string option \<times> 'w) \<Rightarrow> 'w chan list \<Rightarrow> string option \<Rightarrow> 'w \<Rightarrow> string option \<times> 'w" where
  "each_channel f [] firstErr w = (firstErr, w)"
| "each_channel f (ch # chs) firstErr w =
     (case f ch w of (err, w') \<Rightarrow>
        each_channel f chs (if firstErr = None then err else firstErr) w')"

definition manager_Broadcast :: "string list \<Rightarrow> outgoing_response \<Rightarrow> 'w manager \<Rightarrow> 'w \<Rightarrow> string option \<times> 'w" where
  "manager_Broadcast ks msg m w =
     each_channel (\<lambda>ch. chn_SendMessage ch msg) (map snd (range_map ks (mg_channels m))) None w"

text \<open>
  \<open>ShutdownAll\<close> up to its final wait for the merge loop, which the loop's step to \<^const>\<open>Exited\<close> ends.
  A second call panics.
\<close>

definition manager_ShutdownAll ::
  "string list \<Rightarrow> 'w manager \<Rightarrow> 'w \<Rightarrow> (string option \<times> 'w manager \<times> 'w) option" where
  "manager_ShutdownAll ks m w =
     (if mg_stopped m then None
      else case each_channel chn_Shutdown (map snd (range_map ks (mg_channels m))) None w of
        (firstErr, w') \<Rightarrow>
          Some (firstErr, m\<lparr>mg_stopped := True, mg_channels := Map.empty, mg_injectClosed := True\<rparr>, w'))"

section \<open>The goroutines\<close>

datatype mg_event =
    SourceSent incoming_message
  | InjectAccepted incoming_message
  | Delivered incoming_message
  | ClosedRead incoming_message
  | Internal

definition halting :: "'w manager \<Rightarrow> bool" where
  "halting m \<longleftrightarrow> mg_stopped m \<or> mg_cancelled m"

definition loop_add :: "'w chan \<Rightarrow> 'w manager \<Rightarrow> 'w manager" where
  "loop_add ch m =
     (if chn_Name ch \<in> mg_active m then m
      else m\<lparr>mg_active := insert (chn_Name ch) (mg_active m),
             mg_forwarders := mg_forwarders m @ [new_forwarder ch]\<rparr>)"

definition drop_forwarder :: "nat \<Rightarrow> 'w manager \<Rightarrow> 'w manager" where
  "drop_forwarder k m =
     m\<lparr>mg_active := mg_active m - {fw_name (mg_forwarders m ! k)},
       mg_forwarders := take k (mg_forwarders m) @ drop (Suc k) (mg_forwarders m)\<rparr>"

text \<open>The goroutine \<open>forwardChannel\<close>: a turn of one of the forwarders.\<close>

inductive forward_step :: "'w manager \<Rightarrow> 'w manager \<Rightarrow> bool" where
  fw_takes: "k < length (mg_forwarders m) \<Longrightarrow> mg_forwarders m ! k = f \<Longrightarrow> fw_held f = None \<Longrightarrow>
    fw_src f < length (mg_src m) \<Longrightarrow> mg_src m ! fw_src f = (msg # rest, cl) \<Longrightarrow>
    forward_step m (m\<lparr>mg_forwarders := (mg_forwarders m)[k := f\<lparr>fw_held := Some msg\<rparr>],
                          mg_src := (mg_src m)[fw_src f := (rest, cl)]\<rparr>)"
| fw_puts: "k < length (mg_forwarders m) \<Longrightarrow> mg_forwarders m ! k = f \<Longrightarrow> fw_held f = Some msg \<Longrightarrow>
    length (mg_merged m) < queue_capacity \<Longrightarrow>
    forward_step m (m\<lparr>mg_forwarders := (mg_forwarders m)[k := f\<lparr>fw_held := None\<rparr>],
                          mg_merged := mg_merged m @ [msg]\<rparr>)"
| fw_ends: "k < length (mg_forwarders m) \<Longrightarrow> mg_forwarders m ! k = f \<Longrightarrow> fw_held f = None \<Longrightarrow>
    fw_src f < length (mg_src m) \<Longrightarrow> mg_src m ! fw_src f = ([], True) \<Longrightarrow>
    forward_step m (drop_forwarder k m)"
| fw_stops: "k < length (mg_forwarders m) \<Longrightarrow> halting m \<Longrightarrow> forward_step m (drop_forwarder k m)"

text \<open>The goroutine \<open>forwardInject\<close>.\<close>

inductive inject_step :: "'w manager \<Rightarrow> 'w manager \<Rightarrow> bool" where
  inj_takes: "mg_inject m = Some None \<Longrightarrow> mg_injectCh m = msg # rest \<Longrightarrow>
    inject_step m (m\<lparr>mg_inject := Some (Some msg), mg_injectCh := rest\<rparr>)"
| inj_puts: "mg_inject m = Some (Some msg) \<Longrightarrow> length (mg_merged m) < queue_capacity \<Longrightarrow>
    inject_step m (m\<lparr>mg_inject := Some None, mg_merged := mg_merged m @ [msg]\<rparr>)"
| inj_ends: "mg_inject m = Some None \<Longrightarrow> mg_injectCh m = [] \<Longrightarrow> mg_injectClosed m \<Longrightarrow>
    inject_step m (m\<lparr>mg_inject := None\<rparr>)"
| inj_stops: "halting m \<Longrightarrow> inject_step m (m\<lparr>mg_inject := None\<rparr>)"

text \<open>The main loop of \<open>mergeLoop\<close>.\<close>

inductive merge_step :: "'w manager \<Rightarrow> 'w manager \<Rightarrow> bool" where
  loop_takes: "mg_loop m = Idle \<Longrightarrow> mg_merged m = msg # rest \<Longrightarrow>
    merge_step m (m\<lparr>mg_loop := Holding msg, mg_merged := rest\<rparr>)"
| loop_puts: "mg_loop m = Holding msg \<Longrightarrow> length (mg_recvCh m) < queue_capacity \<Longrightarrow>
    merge_step m (m\<lparr>mg_loop := Idle, mg_recvCh := mg_recvCh m @ [msg]\<rparr>)"
| loop_adds: "mg_loop m = Idle \<Longrightarrow> mg_addCh m = ch # chs \<Longrightarrow>
    merge_step m (loop_add ch (m\<lparr>mg_addCh := chs\<rparr>))"
| loop_stops: "mg_loop m \<noteq> NotRunning \<Longrightarrow> mg_loop m \<noteq> Exited \<Longrightarrow> halting m \<Longrightarrow>
    merge_step m (m\<lparr>mg_loop := Exited, mg_recvClosed := True\<rparr>)"

text \<open>All that can happen: the sources, the callers and the goroutines.\<close>

inductive mg_step :: "'w manager \<Rightarrow> mg_event \<Rightarrow> 'w manager \<Rightarrow> bool" where
  source_sends: "i < length (mg_src m) \<Longrightarrow> \<not> snd (mg_src m ! i) \<Longrightarrow>
    mg_step m (SourceSent msg) (m\<lparr>mg_src := (mg_src m)[i := (fst (mg_src m ! i) @ [msg], False)]\<rparr>)"
| source_closes: "i < length (mg_src m) \<Longrightarrow>
    mg_step m Internal (m\<lparr>mg_src := (mg_src m)[i := (fst (mg_src m ! i), True)]\<rparr>)"
| new_source: "mg_step m Internal (m\<lparr>mg_src := mg_src m @ [([], False)]\<rparr>)"
| starts: "range_order ks (mg_channels m) \<Longrightarrow> mg_step m Internal (manager_Start ks m)"
| adds: "mg_step m Internal (manager_Add ch m)"
| removes: "manager_Remove quote name m w = (err, m', w') \<Longrightarrow> mg_step m Internal m'"
| injects: "manager_Inject msg m = Some m' \<Longrightarrow>
    mg_step m (if mg_injectCh m' = mg_injectCh m then Internal else InjectAccepted msg) m'"
| receives: "manager_Receive m = Some (msg, m') \<Longrightarrow>
    mg_step m (if mg_recvCh m = [] then ClosedRead msg else Delivered msg) m'"
| shuts: "manager_ShutdownAll ks m w = Some (err, m', w') \<Longrightarrow> mg_step m Internal m'"
| cancels: "mg_step m Internal (m\<lparr>mg_cancelled := True\<rparr>)"
| forwards: "forward_step m m' \<Longrightarrow> mg_step m Internal m'"
| inject_forwards: "inject_step m m' \<Longrightarrow> mg_step m Internal m'"
| merges: "merge_step m m' \<Longrightarrow> mg_step m Internal m'"

inductive_cases mg_stepE: "mg_step m e m'"

section \<open>Conservation of messages\<close>

text \<open>The messages on their way: in a source, held by a forwarder or by the loop, or in a buffer.\<close>

definition holds :: "incoming_message option \<Rightarrow> incoming_message multiset" where
  "holds h = (case h of None \<Rightarrow> {#} | Some msg \<Rightarrow> {#msg#})"

definition loop_holds :: "loop_state \<Rightarrow> incoming_message multiset" where
  "loop_holds l = (case l of Holding msg \<Rightarrow> {#msg#} | _ \<Rightarrow> {#})"

definition in_flight :: "'w manager \<Rightarrow> incoming_message multiset" where
  "in_flight m =
     sum_list (map (mset \<circ> fst) (mg_src m)) + sum_list (map (holds \<circ> fw_held) (mg_forwarders m)) +
     (case mg_inject m of None \<Rightarrow> {#} | Some h \<Rightarrow> holds h) + mset (mg_injectCh m) +
     mset (mg_merged m) + loop_holds (mg_loop m) + mset (mg_recvCh m)"

fun accepted_by :: "mg_event \<Rightarrow> incoming_message multiset" where
  "accepted_by (SourceSent msg) = {#msg#}"
| "accepted_by (InjectAccepted msg) = {#msg#}"
| "accepted_by _ = {#}"

fun delivered_by :: "mg_event \<Rightarrow> incoming_message multiset" where
  "delivered_by (Delivered msg) = {#msg#}"
| "delivered_by _ = {#}"

definition accepted :: "mg_event list \<Rightarrow> incoming_message multiset" where
  "accepted es = sum_list (map accepted_by es)"

definition delivered_msgs :: "mg_event list \<Rightarrow> incoming_message multiset" where
  "delivered_msgs es = sum_list (map delivered_by es)"

lemma holds_simps [simp]: "holds None = {#}" "holds (Some msg) = {#msg#}"
  by (simp_all add: holds_def)

lemma loop_holds_simps [simp]:
  "loop_holds Idle = {#}" "loop_holds (Holding msg) = {#msg#}" "loop_holds NotRunning = {#}" "loop_holds Exited = {#}"
  by (simp_all add: loop_holds_def)

text \<open>Replacing one element of a list changes the sum of its images by the difference.\<close>

lemma sum_list_replace:
  fixes h :: "'a \<Rightarrow> 'b::comm_monoid_add"
  assumes "k < length xs"
  shows "\<exists>r. sum_list (map h xs) = r + h (xs ! k) \<and> sum_list (map h (xs[k := x])) = r + h x \<and>
     sum_list (map h (take k xs @ drop (Suc k) xs)) = r"
proof -
  let ?r = "sum_list (map h (take k xs)) + sum_list (map h (drop (Suc k) xs))"
  have "sum_list (map h xs) = sum_list (map h (take k xs @ xs ! k # drop (Suc k) xs))"
    using assms by (simp add: id_take_nth_drop [symmetric])
  then have "sum_list (map h xs) = ?r + h (xs ! k)"
    by (simp only: map_append sum_list_append list.map sum_list.Cons ac_simps)
  moreover have "sum_list (map h (xs[k := x])) = ?r + h x"
    using assms by (simp add: upd_conv_take_nth_drop ac_simps)
  ultimately show ?thesis by (intro exI [of _ ?r]) simp
qed

text \<open>
  What one step does to the messages on their way: it adds what it accepts and removes what it
  delivers; only a manager that halts may drop some.
\<close>

lemma drop_forwarder_flight:
  assumes "k < length (mg_forwarders m)"
  shows "in_flight (drop_forwarder k m) \<subseteq># in_flight m" and
    "fw_held (mg_forwarders m ! k) = None \<Longrightarrow> in_flight (drop_forwarder k m) = in_flight m"
proof -
  obtain r where r: "sum_list (map (holds \<circ> fw_held) (mg_forwarders m)) = r + holds (fw_held (mg_forwarders m ! k))"
    "sum_list (map (holds \<circ> fw_held) (take k (mg_forwarders m) @ drop (Suc k) (mg_forwarders m))) = r"
    using sum_list_replace [OF assms, of "holds \<circ> fw_held"] by fastforce
  show "in_flight (drop_forwarder k m) \<subseteq># in_flight m"
    unfolding in_flight_def drop_forwarder_def using r by (simp add: subset_mset.add_right_mono)
  show "in_flight (drop_forwarder k m) = in_flight m" if "fw_held (mg_forwarders m ! k) = None"
    unfolding in_flight_def drop_forwarder_def using r that by simp
qed

lemma fw_takes_flight:
  assumes "k < length (mg_forwarders m)" "mg_forwarders m ! k = f" "fw_held f = None"
    "fw_src f < length (mg_src m)" "mg_src m ! fw_src f = (msg # rest, cl)"
  shows "in_flight (m\<lparr>mg_forwarders := (mg_forwarders m)[k := f\<lparr>fw_held := Some msg\<rparr>],
                      mg_src := (mg_src m)[fw_src f := (rest, cl)]\<rparr>) = in_flight m"
proof -
  obtain r where "sum_list (map (holds \<circ> fw_held) (mg_forwarders m)) = r"
    "sum_list (map (holds \<circ> fw_held) ((mg_forwarders m)[k := f\<lparr>fw_held := Some msg\<rparr>])) = r + {#msg#}"
    using sum_list_replace [OF assms(1), of "holds \<circ> fw_held" "f\<lparr>fw_held := Some msg\<rparr>"] assms(2,3) by fastforce
  moreover obtain q where "sum_list (map (mset \<circ> fst) (mg_src m)) = q + mset (msg # rest)"
    "sum_list (map (mset \<circ> fst) ((mg_src m)[fw_src f := (rest, cl)])) = q + mset rest"
    using sum_list_replace [OF assms(4), of "mset \<circ> fst" "(rest, cl)"] assms(5) by fastforce
  ultimately show ?thesis by (simp add: in_flight_def)
qed

lemma fw_puts_flight:
  assumes "k < length (mg_forwarders m)" "mg_forwarders m ! k = f" "fw_held f = Some msg"
  shows "in_flight (m\<lparr>mg_forwarders := (mg_forwarders m)[k := f\<lparr>fw_held := None\<rparr>],
                      mg_merged := mg_merged m @ [msg]\<rparr>) = in_flight m"
proof -
  obtain r where "sum_list (map (holds \<circ> fw_held) (mg_forwarders m)) = r + {#msg#}"
    "sum_list (map (holds \<circ> fw_held) ((mg_forwarders m)[k := f\<lparr>fw_held := None\<rparr>])) = r"
    using sum_list_replace [OF assms(1), of "holds \<circ> fw_held" "f\<lparr>fw_held := None\<rparr>"] assms(2,3) by fastforce
  then show ?thesis by (simp add: in_flight_def)
qed

lemma source_flight:
  assumes "i < length (mg_src m)"
  shows "in_flight (m\<lparr>mg_src := (mg_src m)[i := (fst (mg_src m ! i) @ ms, b)]\<rparr>) = in_flight m + mset ms"
proof -
  obtain q where "sum_list (map (mset \<circ> fst) (mg_src m)) = q + mset (fst (mg_src m ! i))"
    "sum_list (map (mset \<circ> fst) ((mg_src m)[i := (fst (mg_src m ! i) @ ms, b)])) = q + mset (fst (mg_src m ! i) @ ms)"
    using sum_list_replace [OF assms, of "mset \<circ> fst" "(fst (mg_src m ! i) @ ms, b)"] by fastforce
  then show ?thesis by (simp add: in_flight_def)
qed

text \<open>Before \<open>Start\<close> no goroutine runs; the keys of the registry are the names of its channels.\<close>

definition shape_inv :: "'w manager \<Rightarrow> bool" where
  "shape_inv m \<longleftrightarrow>
     (\<not> mg_started m \<longrightarrow> mg_forwarders m = [] \<and> mg_inject m = None \<and> mg_loop m = NotRunning) \<and>
     (\<forall>k ch. mg_channels m k = Some ch \<longrightarrow> chn_Name ch = k) \<and>
     distinct (map fw_name (mg_forwarders m)) \<and> set (map fw_name (mg_forwarders m)) = mg_active m \<and>
     length (mg_addCh m) \<le> 8 \<and> length (mg_injectCh m) \<le> 64 \<and> length (mg_merged m) \<le> 64 \<and>
     length (mg_recvCh m) \<le> 64 \<and> (mg_recvClosed m \<longrightarrow> mg_stopped m \<or> mg_cancelled m)"

lemma range_map_names:
  "range_order ks (mg_channels m) \<Longrightarrow> (\<forall>k ch. mg_channels m k = Some ch \<longrightarrow> chn_Name ch = k) \<Longrightarrow>
     map (chn_Name \<circ> snd) (range_map ks (mg_channels m)) = ks"
proof -
  assume o: "range_order ks (mg_channels m)" and n: "\<forall>k ch. mg_channels m k = Some ch \<longrightarrow> chn_Name ch = k"
  have "map (chn_Name \<circ> snd) (range_map ks (mg_channels m)) = map fst (range_map ks (mg_channels m))"
    using set_range_map [OF o] n by (intro map_cong) auto
  then show ?thesis using range_map_keys [OF o] by simp
qed

lemma Start_shape: "range_order ks (mg_channels m) \<Longrightarrow> shape_inv m \<Longrightarrow> shape_inv (manager_Start ks m)"
proof -
  assume o: "range_order ks (mg_channels m)" and i: "shape_inv m"
  have "map fw_name (map new_forwarder (map snd (range_map ks (mg_channels m)))) =
      map (chn_Name \<circ> snd) (range_map ks (mg_channels m))"
    by (simp add: new_forwarder_def comp_def)
  also have "\<dots> = ks" using range_map_names [OF o] i by (simp add: shape_inv_def)
  finally have f: "map fw_name (map new_forwarder (map snd (range_map ks (mg_channels m)))) = ks" .
  have a: "map chn_Name (map snd (range_map ks (mg_channels m))) = ks"
    using range_map_names [OF o] i by (simp add: shape_inv_def)
  show ?thesis
    using i o f a unfolding shape_inv_def manager_Start_def merge_init_def Let_def range_order_def
    by (cases "mg_started m") (simp_all del: map_map set_map)
qed

lemma names_update: "map fw_name (fs[k := f\<lparr>fw_held := h\<rparr>]) = map fw_name fs"
  if "k < length fs" "fs ! k = f" for fs :: "forwarder list"
  using that by (metis forwarder.select_convs(1) forwarder.surjective forwarder.update_convs(3) list_update_id map_update)

lemma distinct_drop_nth:
  assumes "k < length xs" and "distinct xs"
  shows "distinct (take k xs @ drop (Suc k) xs) \<and> set (take k xs @ drop (Suc k) xs) = set xs - {xs ! k}"
proof -
  obtain u x v where "xs = u @ x # v" "length u = k"
    using assms(1) id_take_nth_drop [of k xs] by (metis length_take min.absorb2 less_imp_le)
  with assms(2) show ?thesis by auto
qed

lemma drop_forwarder_shape:
  assumes "k < length (mg_forwarders m)" and "shape_inv m"
  shows "shape_inv (drop_forwarder k m)"
proof -
  let ?ns = "map fw_name (mg_forwarders m)"
  have "distinct ?ns" "set ?ns = mg_active m" using assms(2) by (auto simp: shape_inv_def)
  with distinct_drop_nth [of k ?ns] assms show ?thesis
    unfolding shape_inv_def drop_forwarder_def by (simp add: take_map drop_map)
qed

lemma loop_add_shape: "shape_inv m \<Longrightarrow> shape_inv (loop_add ch m)" if "mg_loop m \<noteq> NotRunning"
  using that by (auto simp: shape_inv_def loop_add_def new_forwarder_def)

lemma forward_shape:
  assumes "forward_step m m'" and "shape_inv m"
  shows "shape_inv m'"
  using assms
proof (cases rule: forward_step.cases)
  case (fw_takes k f msg rest cl)
  with assms(2) show ?thesis by (auto simp: shape_inv_def names_update simp flip: set_map)
next
  case (fw_puts k f msg)
  with assms(2) show ?thesis by (auto simp: shape_inv_def names_update queue_capacity_def simp flip: set_map)
next
  case (fw_ends k f)
  with assms(2) show ?thesis by (simp add: drop_forwarder_shape)
next
  case (fw_stops k)
  with assms(2) show ?thesis by (simp add: drop_forwarder_shape)
qed

lemma inject_shape: "inject_step m m' \<Longrightarrow> shape_inv m \<Longrightarrow> shape_inv m'"
  by (cases rule: inject_step.cases) (auto simp: shape_inv_def queue_capacity_def)

lemma merge_shape:
  assumes "merge_step m m'" and "shape_inv m"
  shows "shape_inv m'"
  using assms
proof (cases rule: merge_step.cases)
  case (loop_adds ch chs)
  have "shape_inv (m\<lparr>mg_addCh := chs\<rparr>)" using loop_adds assms(2) by (simp add: shape_inv_def)
  with loop_adds show ?thesis by (simp add: loop_add_shape)
qed (auto simp: shape_inv_def queue_capacity_def halting_def)

lemma step_shape:
  assumes "mg_step m e m'" and "shape_inv m"
  shows "shape_inv m'"
  using assms
proof (cases rule: mg_step.cases)
  case (starts ks)
  with assms(2) show ?thesis by (simp add: Start_shape)
next
  case (adds ch)
  with assms(2) show ?thesis by (auto simp: shape_inv_def manager_Add_def add_capacity_def Let_def)
next
  case (removes quote name w err w')
  with assms(2) show ?thesis
    by (auto simp: shape_inv_def manager_Remove_def Let_def split: option.splits prod.splits if_splits)
next
  case (injects msg)
  with assms(2) show ?thesis by (auto simp: shape_inv_def manager_Inject_def queue_capacity_def split: if_splits)
next
  case (receives msg)
  with assms(2) show ?thesis by (auto simp: shape_inv_def manager_Receive_def split: list.splits if_splits)
next
  case (shuts ks w err w')
  with assms(2) show ?thesis by (auto simp: shape_inv_def manager_ShutdownAll_def split: if_splits prod.splits)
next
  case forwards
  with assms(2) show ?thesis by (blast intro: forward_shape)
next
  case inject_forwards
  with assms(2) show ?thesis by (blast intro: inject_shape)
next
  case merges
  with assms(2) show ?thesis by (blast intro: merge_shape)
qed (auto simp: shape_inv_def)

text \<open>A turn of a goroutine loses nothing unless the manager halts, and invents nothing.\<close>

definition keeps_messages :: "'w manager \<Rightarrow> 'w manager \<Rightarrow> bool" where
  "keeps_messages m m' \<longleftrightarrow> in_flight m' \<subseteq># in_flight m \<and> (halting m' \<longleftrightarrow> halting m) \<and>
     (\<not> halting m \<longrightarrow> in_flight m' = in_flight m)"

lemma forward_flight: "forward_step m m' \<Longrightarrow> keeps_messages m m'"
proof (induction rule: forward_step.induct)
  case (fw_takes k m f msg rest cl)
  then show ?case using fw_takes_flight [of k m f msg rest cl] by (simp add: keeps_messages_def halting_def)
next
  case (fw_puts k m f msg)
  then show ?case using fw_puts_flight [of k m f msg] by (simp add: keeps_messages_def halting_def)
next
  case (fw_ends k m f)
  then show ?case
    using drop_forwarder_flight [of k m] by (simp add: keeps_messages_def halting_def) (simp add: drop_forwarder_def)
next
  case (fw_stops k m)
  then show ?case
    using drop_forwarder_flight [of k m] by (simp add: keeps_messages_def halting_def) (simp add: drop_forwarder_def)
qed

lemma inject_flight: "inject_step m m' \<Longrightarrow> keeps_messages m m'"
  by (induction rule: inject_step.induct) (auto simp: keeps_messages_def in_flight_def halting_def split: option.splits)

lemma merge_flight: "merge_step m m' \<Longrightarrow> keeps_messages m m'"
proof (induction rule: merge_step.induct)
  case (loop_adds m ch chs)
  then show ?case by (simp add: keeps_messages_def loop_add_def in_flight_def halting_def new_forwarder_def)
next
  case (loop_stops m)
  then show ?case by (cases "mg_loop m") (simp_all add: keeps_messages_def in_flight_def halting_def)
qed (simp_all add: keeps_messages_def in_flight_def halting_def)

lemma step_flight:
  assumes "mg_step m e m'" and "shape_inv m"
  shows "in_flight m' + delivered_by e \<subseteq># in_flight m + accepted_by e \<and>
    (\<not> halting m' \<longrightarrow> \<not> halting m \<and> in_flight m' + delivered_by e = in_flight m + accepted_by e)"
  using assms
proof (cases rule: mg_step.cases)
  case (source_sends i msg)
  then show ?thesis using source_flight [of i m "[msg]" False] by (simp add: halting_def)
next
  case (source_closes i)
  then show ?thesis using source_flight [of i m "[]" True] by (simp add: halting_def)
next
  case (starts ks)
  with assms(2) show ?thesis
    by (auto simp: shape_inv_def manager_Start_def merge_init_def in_flight_def halting_def Let_def new_forwarder_def comp_def)
next
  case (adds ch)
  then show ?thesis by (simp add: manager_Add_def in_flight_def halting_def Let_def)
next
  case (removes quote name w err w')
  then show ?thesis
    by (auto simp: manager_Remove_def in_flight_def halting_def Let_def split: option.splits prod.splits)
next
  case (injects msg)
  then show ?thesis by (auto simp: manager_Inject_def in_flight_def halting_def split: if_splits)
next
  case (receives msg)
  then show ?thesis by (auto simp: manager_Receive_def in_flight_def halting_def split: list.splits if_splits)
next
  case (shuts ks w err w')
  then show ?thesis
    by (auto simp: manager_ShutdownAll_def in_flight_def halting_def split: if_splits prod.splits)
next
  case forwards
  then show ?thesis using forward_flight by (fastforce simp: keeps_messages_def)
next
  case inject_forwards
  then show ?thesis using inject_flight by (fastforce simp: keeps_messages_def)
next
  case merges
  then show ?thesis using merge_flight by (fastforce simp: keeps_messages_def)
qed (auto simp: in_flight_def halting_def)

lemma run_flight:
  assumes "run mg_step (NewManager srcs) es m" and "\<forall>s \<in> set srcs. fst s = []"
  shows "shape_inv m \<and> delivered_msgs es + in_flight m \<subseteq># accepted es \<and>
     (\<not> halting m \<longrightarrow> delivered_msgs es + in_flight m = accepted es)"
  using assms(1)
proof (induction "NewManager srcs :: 'a manager" es m rule: run.induct)
  case run_nil
  have "sum_list (map (mset \<circ> fst) srcs) = {#}" using assms(2) by (induction srcs) auto
  then show ?case by (simp add: NewManager_def shape_inv_def in_flight_def accepted_def delivered_msgs_def)
next
  case (run_snoc es t e u)
  let ?d = "delivered_msgs es" and ?a = "accepted es"
  have log: "delivered_msgs (es @ [e]) = ?d + delivered_by e" "accepted (es @ [e]) = ?a + accepted_by e"
    by (simp_all add: delivered_msgs_def accepted_def)
  from run_snoc have i: "shape_inv t" and le: "?d + in_flight t \<subseteq># ?a" and
    eq: "\<not> halting t \<Longrightarrow> ?d + in_flight t = ?a" by auto
  note st = step_flight [OF run_snoc(3) i]
  have "?d + (in_flight u + delivered_by e) \<subseteq># ?d + (in_flight t + accepted_by e)"
    using st by simp
  also have "\<dots> \<subseteq># ?a + accepted_by e"
    using le by (simp add: add.assoc [symmetric])
  finally have "?d + delivered_by e + in_flight u \<subseteq># ?a + accepted_by e" by (simp add: ac_simps)
  moreover have "?d + delivered_by e + in_flight u = ?a + accepted_by e" if "\<not> halting u"
    using st eq that by (metis (no_types, lifting) add.assoc add.commute)
  ultimately show ?case using step_shape [OF run_snoc(3) i] log by auto
qed

text \<open>Reading nothing from the stream needs it closed, which a halt has to precede and which stays.\<close>

lemma run_closed:
  assumes "run mg_step (NewManager srcs) es m" and "\<forall>s \<in> set srcs. fst s = []" and "ClosedRead msg \<in> set es"
  shows "msg = zero_message \<and> halting m"
  using assms
proof (induction "NewManager srcs :: 'a manager" es m rule: run.induct)
  case (run_snoc es t e u)
  have i: "shape_inv t" using run_flight [OF run_snoc(1,4)] by blast
  show ?case
  proof (cases "ClosedRead msg \<in> set es")
    case True
    with run_snoc step_flight [OF run_snoc(3) i] show ?thesis by blast
  next
    case False
    with run_snoc(5) have "e = ClosedRead msg" by simp
    with run_snoc(3) i show ?thesis
      by (auto elim!: mg_stepE simp: manager_Receive_def shape_inv_def halting_def split: list.splits if_splits)
  qed
qed simp

section \<open>Properties\<close>

text \<open>
  C6: whatever the interleaving of the sources, the forwarders, the merge loop and the callers: as long as
  the manager has been neither stopped nor cancelled, the messages delivered to the receiver
  together with those still on their way are exactly those the sources sent and \<open>Inject\<close> accepted.
  At any time, what a receiver gets from the stream was accepted, and not more often than it was accepted; once
  the stream is closed, which only a stopped or cancelled manager does, and read out, a receiver gets the
  zero message. Buffers stay within their capacities and no two forwarders run for one name.
\<close>

theorem messages_conserved:
  assumes "run mg_step (NewManager srcs) es m" and "\<forall>s \<in> set srcs. fst s = []"
  shows "(\<not> mg_stopped m \<and> \<not> mg_cancelled m \<longrightarrow> accepted es = delivered_msgs es + in_flight m) \<and>
     delivered_msgs es \<subseteq># accepted es \<and>
     (\<forall>msg. ClosedRead msg \<in> set es \<longrightarrow> msg = zero_message \<and> (mg_stopped m \<or> mg_cancelled m)) \<and>
     length (mg_merged m) \<le> 64 \<and> length (mg_recvCh m) \<le> 64 \<and> length (mg_injectCh m) \<le> 64 \<and>
     distinct (map fw_name (mg_forwarders m))"
proof -
  have r: "shape_inv m" "delivered_msgs es + in_flight m \<subseteq># accepted es"
    "\<not> halting m \<longrightarrow> delivered_msgs es + in_flight m = accepted es"
    using run_flight [OF assms] by auto
  from r(2) have "delivered_msgs es \<subseteq># accepted es"
    by (meson mset_subset_eq_add_left subset_mset.order_trans)
  with r(1,3) run_closed [OF assms] show ?thesis by (auto simp: shape_inv_def halting_def)
qed

definition demo_msg :: incoming_message where
  "demo_msg = \<lparr>im_ID = ''m'', im_Channel = ''c'', im_UserID = ''u'', im_Content = ''hi'', im_ThreadID = [], im_Attachments = []\<rparr>"

lemma messages_conserved_witness:
  "\<exists>m :: unit manager. run mg_step (NewManager [([], False)]) [SourceSent demo_msg] m \<and>
     in_flight m = {#demo_msg#} \<and> delivered_msgs [SourceSent demo_msg] \<subseteq># accepted [SourceSent demo_msg]"
proof -
  let ?m = "(NewManager [([], False)] :: unit manager)\<lparr>mg_src := [([demo_msg], False)]\<rparr>"
  have "mg_step (NewManager [([], False)] :: unit manager) (SourceSent demo_msg) ?m"
    using source_sends [of 0 "NewManager [([], False)] :: unit manager" demo_msg] by (simp add: NewManager_def)
  then have r: "run mg_step (NewManager [([], False)]) [SourceSent demo_msg] ?m"
    by (rule run_Cons) (rule run.run_nil)
  have "in_flight ?m = {#demo_msg#}" by (simp add: in_flight_def NewManager_def)
  with messages_conserved [OF r] r show ?thesis by auto
qed

text \<open>
  A message of a registered channel reaches the receiver: from an idle manager whose buffers are
  empty, five steps of the goroutines and the receiver deliver the first message of any source that
  has a forwarder.
\<close>

lemma source_message_deliverable:
  assumes "mg_loop m = Idle" and "mg_merged m = []" and "mg_recvCh m = []" and "k < length (mg_forwarders m)"
    and "fw_held (mg_forwarders m ! k) = None" and "fw_src (mg_forwarders m ! k) < length (mg_src m)"
    and "mg_src m ! fw_src (mg_forwarders m ! k) = (msg # rest, cl)"
  shows "\<exists>m'. run mg_step m [Internal, Internal, Internal, Internal, Delivered msg] m' \<and> mg_loop m' = Idle"
proof -
  let ?f = "mg_forwarders m ! k"
  let ?m1 = "m\<lparr>mg_forwarders := (mg_forwarders m)[k := ?f\<lparr>fw_held := Some msg\<rparr>],
               mg_src := (mg_src m)[fw_src ?f := (rest, cl)]\<rparr>"
  let ?m2 = "?m1\<lparr>mg_forwarders := (mg_forwarders m)[k := ?f], mg_merged := [msg]\<rparr>"
  let ?m3 = "?m2\<lparr>mg_loop := Holding msg, mg_merged := []\<rparr>"
  let ?m4 = "?m3\<lparr>mg_loop := Idle, mg_recvCh := [msg]\<rparr>"
  let ?m5 = "?m4\<lparr>mg_recvCh := []\<rparr>"
  have same: "?f\<lparr>fw_held := None\<rparr> = ?f" using assms(5) by (cases ?f) simp
  have "mg_step m Internal ?m1" using forwards [OF fw_takes [OF assms(4) refl assms(5-7)]] .
  moreover have "mg_step ?m1 Internal ?m2"
    using forwards [OF fw_puts [of k ?m1 "?f\<lparr>fw_held := Some msg\<rparr>" msg]] assms(2,4) same
    by (simp add: queue_capacity_def)
  moreover have "mg_step ?m2 Internal ?m3" using merges [OF loop_takes [of ?m2 msg "[]"]] assms(1) by simp
  moreover have "mg_step ?m3 Internal ?m4"
    using merges [OF loop_puts [of ?m3 msg]] assms(3) by (simp add: queue_capacity_def)
  moreover have "mg_step ?m4 (Delivered msg) ?m5"
    using receives [of ?m4 msg ?m5] by (simp add: manager_Receive_def)
  ultimately have "run mg_step m [Internal, Internal, Internal, Internal, Delivered msg] ?m5"
    by (blast intro: run_Cons run.run_nil)
  moreover have "mg_loop ?m5 = Idle" by simp
  ultimately show ?thesis by blast
qed

text \<open>
  A channel that is replaced under its name is not heard: as long as the forwarder of the old
  channel runs, the merge loop takes the new one out of its queue and starts nothing for it.
\<close>

lemma replaced_channel_not_forwarded:
  assumes "chn_Name ch \<in> mg_active m"
  shows "loop_add ch m = m"
  using assms by (simp add: loop_add_def)

text \<open>
  Broadcasting calls every registered channel once, whatever errors occur, and reports the first error;
  sending to a name that is not registered touches nothing.
\<close>

lemma each_channel_world:
  "snd (each_channel f chs e w) = fold (\<lambda>ch w. snd (f ch w)) chs w"
  by (induction chs arbitrary: e w) (auto split: prod.splits simp: case_prod_beta)

lemma each_channel_error_kept: "fst (each_channel f chs (Some err) w) = Some err"
  by (induction chs arbitrary: w) (auto split: prod.splits)

lemma broadcast_reaches_all:
  "snd (manager_Broadcast ks msg m w) =
     fold (\<lambda>ch w. snd (chn_SendMessage ch msg w)) (map snd (range_map ks (mg_channels m))) w"
  by (simp add: manager_Broadcast_def each_channel_world)

lemma send_unknown: "mg_channels m name = None \<Longrightarrow> manager_Send quote name msg m w = (Some (channel_not_found quote name), w)"
  by (simp add: manager_Send_def)

text \<open>After \<open>ShutdownAll\<close>, an injection panics, a second shutdown panics, and a receiver reads zero messages.\<close>

lemma after_shutdown:
  assumes "manager_ShutdownAll ks m w = Some (err, m', w')"
  shows "manager_Inject msg m' = None \<and> manager_ShutdownAll ks' m' w'' = None"
  using assms by (auto simp: manager_ShutdownAll_def manager_Inject_def split: if_splits prod.splits)

lemma closed_stream_yields_zero:
  "mg_recvClosed m \<Longrightarrow> mg_recvCh m = [] \<Longrightarrow> manager_Receive m = Some (zero_message, m)"
  by (simp add: manager_Receive_def)

interpretation channel_registry: keyed_store "\<lambda>m k. manager_Get k m"
  "\<lambda>k ch m. m\<lparr>mg_channels := (mg_channels m)(k \<mapsto> ch)\<rparr>" "\<lambda>k m. m\<lparr>mg_channels := (mg_channels m)(k := None)\<rparr>"
  by unfold_locales (simp_all add: manager_Get_def)

text \<open>A channel that was added is found under its name until it is removed; other names are not affected.\<close>

lemma added_channel_found:
  "manager_Get k (manager_Add ch m) = (if k = chn_Name ch then Some ch else manager_Get k m)"
  using channel_registry.look_put [where k = "chn_Name ch" and v = ch and s = m and k' = k]
  by (simp add: manager_Add_def manager_Get_def Let_def)

end
