(* ===== verification/Config.thy ===== *)
theory Config
  imports Go_Runes Workspace
begin

text \<open>
  The configuration, \<open>internal/config/config.go\<close>: defaults, environment variables, the TOML file and the
  validation, in the order \<open>Load\<close> applies them.

  The environment, the file system's \<open>Stat\<close> and the TOML decoder (a third-party package, which overwrites
  the fields its file mentions and reports the keys it does not know) are the record \<open>config_env\<close>.
\<close>

section \<open>The configuration\<close>

record database_config =
  dc_Driver :: string
  dc_DSN :: string
  dc_MaxConns :: int
  dc_MinConns :: int

record llm_config =
  lc_Provider :: string
  lc_Model :: string
  lc_APIKey :: string
  lc_BaseURL :: string
  lc_TimeoutSec :: int
  lc_MaxTokens :: int
  lc_Temperature :: rat
  lc_Extra :: "string \<rightharpoonup> string"

record channel_config =
  cc_REPL :: bool
  cc_HTTP :: bool
  cc_WebSocket :: bool
  cc_HTTPPort :: int
  cc_WebSocketPort :: int

record safety_settings =
  sc_ScanInbound :: bool
  sc_ScanOutbound :: bool
  sc_MaxToolCallsPerMin :: int

record sidecar_config =
  sd_Address :: string
  sd_MaxMemoryMB :: int
  sd_MaxFuel :: nat

record agent_config =
  ag_Name :: string
  ag_MaxParallelJobs :: int
  ag_AutoApproveTools :: bool
  ag_AllowedTools :: "string list"

record config =
  cf_OwnerID :: string
  cf_Env :: string
  cf_LogLevel :: string
  cf_APIKey :: string
  cf_Agent :: agent_config
  cf_Database :: database_config
  cf_LLM :: llm_config
  cf_Channels :: channel_config
  cf_Safety :: safety_settings
  cf_Sidecar :: sidecar_config

definition DefaultConfig :: config where
  "DefaultConfig =
     \<lparr>cf_OwnerID = ''owner'', cf_Env = ''development'', cf_LogLevel = ''info'', cf_APIKey = [],
      cf_Agent = \<lparr>ag_Name = ''IronClaw'', ag_MaxParallelJobs = 4, ag_AutoApproveTools = False,
                  ag_AllowedTools = []\<rparr>,
      cf_Database = \<lparr>dc_Driver = ''memory'', dc_DSN = [], dc_MaxConns = 10, dc_MinConns = 2\<rparr>,
      cf_LLM = \<lparr>lc_Provider = ''openai'', lc_Model = ''gpt-4o-mini'', lc_APIKey = [], lc_BaseURL = [],
                lc_TimeoutSec = 60, lc_MaxTokens = 4096, lc_Temperature = 7 / 10, lc_Extra = Map.empty\<rparr>,
      cf_Channels = \<lparr>cc_REPL = True, cc_HTTP = False, cc_WebSocket = False, cc_HTTPPort = 8080,
                     cc_WebSocketPort = 8081\<rparr>,
      cf_Safety = \<lparr>sc_ScanInbound = True, sc_ScanOutbound = True, sc_MaxToolCallsPerMin = 60\<rparr>,
      cf_Sidecar = \<lparr>sd_Address = ''/tmp/ironclaw-sidecar.sock'', sd_MaxMemoryMB = 128,
                    sd_MaxFuel = 10000000000\<rparr>\<rparr>"

record config_env =
  ce_Getenv :: "string \<Rightarrow> string"
  ce_HomeDir :: string
  ce_Exists :: "string \<Rightarrow> bool"
  ce_DecodeFile :: "string \<Rightarrow> config \<Rightarrow> string + config \<times> string list"
  ce_quote :: "string \<Rightarrow> string"

section \<open>Environment variables\<close>

text \<open>\<open>if v := os.Getenv(name); v != "" { ... }\<close>.\<close>

definition with_env :: "config_env \<Rightarrow> string \<Rightarrow> (string \<Rightarrow> 'c \<Rightarrow> 'c) \<Rightarrow> 'c \<Rightarrow> 'c" where
  "with_env E name f c = (if ce_Getenv E name \<noteq> [] then f (ce_Getenv E name) c else c)"

text \<open>The same for a number, which may be malformed.\<close>

definition with_env_int ::
  "config_env \<Rightarrow> string \<Rightarrow> (int \<Rightarrow> 'c \<Rightarrow> 'c) \<Rightarrow> 'c \<Rightarrow> string + 'c" where
  "with_env_int E name f c =
     (if ce_Getenv E name = [] then Inr c
      else case atoi (ce_quote E) (ce_Getenv E name) of
        Inl err \<Rightarrow> Inl (''invalid '' @ name @ '': '' @ err)
      | Inr n \<Rightarrow> Inr (f n c))"

definition minimax_env :: "string \<Rightarrow> llm_config \<Rightarrow> llm_config" where
  "minimax_env v l =
     (let l1 = l\<lparr>lc_APIKey := v\<rparr>;
          l2 = (if lc_Provider l1 = [] \<or> lc_Provider l1 = ''openai'' then l1\<lparr>lc_Provider := ''minimax''\<rparr> else l1);
          l3 = (if lc_Model l2 = [] \<or> lc_Model l2 = ''gpt-4o-mini'' then l2\<lparr>lc_Model := ''MiniMax-M2.7''\<rparr> else l2)
      in if lc_BaseURL l3 = [] then l3\<lparr>lc_BaseURL := ''https://api.minimax.chat/v1''\<rparr> else l3)"

definition llm_env :: "config_env \<Rightarrow> llm_config \<Rightarrow> llm_config" where
  "llm_env E l =
     with_env E ''IRONCLAW_LLM_BASE_URL'' (\<lambda>v. lc_BaseURL_update (\<lambda>_. v))
      (with_env E ''MINIMAX_API_KEY'' minimax_env
        (with_env E ''IRONCLAW_LLM_API_KEY'' (\<lambda>v. lc_APIKey_update (\<lambda>_. v))
          (with_env E ''IRONCLAW_LLM_MODEL'' (\<lambda>v. lc_Model_update (\<lambda>_. v))
            (with_env E ''IRONCLAW_LLM_PROVIDER'' (\<lambda>v. lc_Provider_update (\<lambda>_. v)) l))))"

definition identity_env :: "config_env \<Rightarrow> config \<Rightarrow> config" where
  "identity_env E c =
     with_env E ''IRONCLAW_LOG_LEVEL'' (\<lambda>v. cf_LogLevel_update (\<lambda>_. v))
      (with_env E ''IRONCLAW_ENV'' (\<lambda>v. cf_Env_update (\<lambda>_. v))
        (with_env E ''IRONCLAW_OWNER_ID'' (\<lambda>v. cf_OwnerID_update (\<lambda>_. v)) c))"

definition agent_section_env :: "config_env \<Rightarrow> agent_config \<Rightarrow> string + agent_config" where
  "agent_section_env E a =
     (case with_env_int E ''IRONCLAW_AGENT_MAX_PARALLEL_JOBS'' (\<lambda>n. ag_MaxParallelJobs_update (\<lambda>_. n))
             (with_env E ''IRONCLAW_AGENT_NAME'' (\<lambda>v. ag_Name_update (\<lambda>_. v)) a) of
        Inl err \<Rightarrow> Inl err
      | Inr a1 \<Rightarrow>
          Inr (if ce_Getenv E ''IRONCLAW_AGENT_AUTO_APPROVE_TOOLS'' = ''true''
               then a1\<lparr>ag_AutoApproveTools := True\<rparr> else a1))"

definition database_env :: "config_env \<Rightarrow> database_config \<Rightarrow> database_config" where
  "database_env E d =
     with_env E ''IRONCLAW_DATABASE_DSN'' (\<lambda>v. dc_DSN_update (\<lambda>_. v))
      (with_env E ''IRONCLAW_DATABASE_DRIVER'' (\<lambda>v. dc_Driver_update (\<lambda>_. v)) d)"

definition channels_env :: "config_env \<Rightarrow> channel_config \<Rightarrow> string + channel_config" where
  "channels_env E c =
     with_env_int E ''IRONCLAW_CHANNELS_HTTP_PORT'' (\<lambda>n. cc_HTTPPort_update (\<lambda>_. n))
       (with_env E ''IRONCLAW_CHANNELS_HTTP''
         (\<lambda>v. cc_HTTP_update (\<lambda>_. v = ''true'' \<or> v = ''1'' \<or> v = ''yes'')) c)"

definition loadFromEnv :: "config_env \<Rightarrow> config \<Rightarrow> string + config" where
  "loadFromEnv E c0 =
     (let c1 = identity_env E c0 in
      case agent_section_env E (cf_Agent c1) of
        Inl err \<Rightarrow> Inl err
      | Inr a \<Rightarrow>
          let c2 = c1\<lparr>cf_Agent := a, cf_Database := database_env E (cf_Database c1)\<rparr>;
              c3 = with_env E ''IRONCLAW_API_KEY'' (\<lambda>v. cf_APIKey_update (\<lambda>_. v)) c2;
              c4 = c3\<lparr>cf_LLM := llm_env E (cf_LLM c3)\<rparr>
          in (case channels_env E (cf_Channels c4) of
                Inl err \<Rightarrow> Inl err
              | Inr ch \<Rightarrow>
                  Inr (c4\<lparr>cf_Channels := ch,
                          cf_Sidecar := with_env E ''IRONCLAW_SIDECAR_ADDRESS''
                            (\<lambda>v. sd_Address_update (\<lambda>_. v)) (cf_Sidecar c4)\<rparr>)))"

section \<open>The file\<close>

definition loadFromFile :: "config_env \<Rightarrow> string \<Rightarrow> config \<Rightarrow> string + config" where
  "loadFromFile E path c =
     (case ce_DecodeFile E path c of
        Inl err \<Rightarrow> Inl (''decode toml: '' @ err)
      | Inr (c', undecoded) \<Rightarrow>
          if undecoded \<noteq> [] then Inl (''unknown config keys: '' @ join '', '' undecoded) else Inr c')"

definition defaultConfigPaths :: "config_env \<Rightarrow> string list" where
  "defaultConfigPaths E =
     [''ironclaw.toml'', ''.ironclaw.toml'',
      join_path [ce_HomeDir E, ''.config'', ''ironclaw'', ''config.toml''],
      join_path [ce_HomeDir E, ''.ironclaw'', ''config.toml'']]"

section \<open>Validation and loading\<close>

definition validate :: "config_env \<Rightarrow> config \<Rightarrow> string + config" where
  "validate E c =
     (if cf_Env c \<notin> {''development'', ''staging'', ''production''}
      then Inl (''invalid env: '' @ ce_quote E (cf_Env c))
      else if dc_Driver (cf_Database c) \<notin> {''memory'', ''postgres'', ''libsql''}
      then Inl (''invalid database driver: '' @ ce_quote E (dc_Driver (cf_Database c)))
      else if dc_Driver (cf_Database c) \<noteq> ''memory'' \<and> dc_DSN (cf_Database c) = []
      then Inl (''database DSN required for driver '' @ ce_quote E (dc_Driver (cf_Database c)))
      else if ag_MaxParallelJobs (cf_Agent c) \<le> 0
      then Inr (c\<lparr>cf_Agent := (cf_Agent c)\<lparr>ag_MaxParallelJobs := 1\<rparr>\<rparr>)
      else Inr c)"

text \<open>The file that is read: the given one if it exists, else the first existing default.\<close>

definition config_path :: "config_env \<Rightarrow> string \<Rightarrow> string option" where
  "config_path E tomlPath =
     (if tomlPath \<noteq> [] then (if ce_Exists E tomlPath then Some tomlPath else None)
      else find (ce_Exists E) (defaultConfigPaths E))"

definition Load :: "config_env \<Rightarrow> string \<Rightarrow> string + config" where
  "Load E tomlPath =
     (case loadFromEnv E DefaultConfig of
        Inl err \<Rightarrow> Inl (''load env: '' @ err)
      | Inr c1 \<Rightarrow>
          (case (case config_path E tomlPath of
                   None \<Rightarrow> Inr c1
                 | Some p \<Rightarrow>
                     (case loadFromFile E p c1 of
                        Inl err \<Rightarrow> Inl (''load toml '' @ ce_quote E p @ '': '' @ err)
                      | Inr c2 \<Rightarrow> Inr c2)) of
             Inl err \<Rightarrow> Inl err
           | Inr c2 \<Rightarrow>
               (case validate E c2 of
                  Inl err \<Rightarrow> Inl (''validate config: '' @ err)
                | Inr c3 \<Rightarrow> Inr c3)))"

text \<open>\<open>MustLoad\<close> panics where \<open>Load\<close> reports an error.\<close>

definition MustLoad :: "config_env \<Rightarrow> string \<Rightarrow> config option" where
  "MustLoad E tomlPath = (case Load E tomlPath of Inl err \<Rightarrow> None | Inr c \<Rightarrow> Some c)"

section \<open>Lemmas\<close>

text \<open>What the rest of the program may rely on in a configuration.\<close>

definition config_ok :: "config \<Rightarrow> bool" where
  "config_ok c \<longleftrightarrow>
     cf_Env c \<in> {''development'', ''staging'', ''production''} \<and>
     dc_Driver (cf_Database c) \<in> {''memory'', ''postgres'', ''libsql''} \<and>
     (dc_Driver (cf_Database c) = ''memory'' \<or> dc_DSN (cf_Database c) \<noteq> []) \<and>
     1 \<le> ag_MaxParallelJobs (cf_Agent c)"

lemma validate_ok: "validate E c = Inr c' \<Longrightarrow> config_ok c'"
  by (auto simp: validate_def config_ok_def split: if_splits)

lemma validate_id: "config_ok c \<Longrightarrow> validate E c = Inr c"
  by (auto simp: validate_def config_ok_def)

lemma validate_error_iff:
  "(\<exists>err. validate E c = Inl err) \<longleftrightarrow>
     \<not> config_ok (c\<lparr>cf_Agent := (cf_Agent c)\<lparr>ag_MaxParallelJobs := 1\<rparr>\<rparr>)"
  by (auto simp: validate_def config_ok_def)

lemma with_env_unset [simp]: "ce_Getenv E name = [] \<Longrightarrow> with_env E name f c = c"
  by (simp add: with_env_def)

lemma with_env_int_unset [simp]: "ce_Getenv E name = [] \<Longrightarrow> with_env_int E name f c = Inr c"
  by (simp add: with_env_int_def)

lemma loadFromEnv_unset: "ce_Getenv E = (\<lambda>_. []) \<Longrightarrow> loadFromEnv E c = Inr c"
  by (simp add: loadFromEnv_def identity_env_def agent_section_env_def database_env_def llm_env_def channels_env_def Let_def)

text \<open>A number in the environment that is set and does not parse.\<close>

definition bad_number :: "config_env \<Rightarrow> string \<Rightarrow> bool" where
  "bad_number E name \<longleftrightarrow> ce_Getenv E name \<noteq> [] \<and> isl (atoi (ce_quote E) (ce_Getenv E name))"

lemma with_env_int_error: "(\<exists>err. with_env_int E name f c = Inl err) \<longleftrightarrow> bad_number E name"
  by (auto simp: with_env_int_def bad_number_def isl_def split: sum.splits)

lemma case_error_iff:
  "(\<exists>err. (case r of Inl e \<Rightarrow> Inl e | Inr x \<Rightarrow> Inr (f x)) = Inl err) \<longleftrightarrow> (\<exists>err. r = Inl err)"
  by (cases r) simp_all

lemma section_errors:
  "(\<exists>err. agent_section_env E a = Inl err) \<longleftrightarrow> bad_number E ''IRONCLAW_AGENT_MAX_PARALLEL_JOBS''"
  "(\<exists>err. channels_env E c = Inl err) \<longleftrightarrow> bad_number E ''IRONCLAW_CHANNELS_HTTP_PORT''"
proof -
  show "(\<exists>err. channels_env E c = Inl err) \<longleftrightarrow> bad_number E ''IRONCLAW_CHANNELS_HTTP_PORT''"
    unfolding channels_env_def by (rule with_env_int_error)
  have "(\<exists>err. agent_section_env E a = Inl err) \<longleftrightarrow>
      (\<exists>err. with_env_int E ''IRONCLAW_AGENT_MAX_PARALLEL_JOBS'' (\<lambda>n. ag_MaxParallelJobs_update (\<lambda>_. n))
             (with_env E ''IRONCLAW_AGENT_NAME'' (\<lambda>v. ag_Name_update (\<lambda>_. v)) a) = Inl err)"
    by (simp add: agent_section_env_def split: sum.split)
  then show "(\<exists>err. agent_section_env E a = Inl err) \<longleftrightarrow> bad_number E ''IRONCLAW_AGENT_MAX_PARALLEL_JOBS''"
    by (simp only: with_env_int_error)
qed

lemma loadFromEnv_error_iff:
  "(\<exists>err. loadFromEnv E c = Inl err) \<longleftrightarrow>
     bad_number E ''IRONCLAW_AGENT_MAX_PARALLEL_JOBS'' \<or> bad_number E ''IRONCLAW_CHANNELS_HTTP_PORT''"
proof (cases "agent_section_env E (cf_Agent (identity_env E c))")
  case (Inl err)
  with section_errors(1) [of E "cf_Agent (identity_env E c)"] show ?thesis
    by (simp add: loadFromEnv_def Let_def)
next
  case (Inr a)
  have "\<not> bad_number E ''IRONCLAW_AGENT_MAX_PARALLEL_JOBS''"
    using Inr section_errors(1) [of E "cf_Agent (identity_env E c)"] by simp
  with Inr show ?thesis
    by (simp add: loadFromEnv_def Let_def case_error_iff section_errors(2))
qed

lemma validate_fails:
  "isl (validate E c) \<longleftrightarrow>
     \<not> (cf_Env c \<in> {''development'', ''staging'', ''production''} \<and>
        dc_Driver (cf_Database c) \<in> {''memory'', ''postgres'', ''libsql''} \<and>
        (dc_Driver (cf_Database c) = ''memory'' \<or> dc_DSN (cf_Database c) \<noteq> []))"
  by (auto simp: validate_def)

section \<open>Properties\<close>

text \<open>
  C32: what loading accepts and refuses. A loaded configuration has a known environment, a known database
  driver, a data source name unless the driver is the in-memory one, and at least one parallel job. Loading
  fails exactly when one of the two numbers in the environment is set and malformed, when the file that is
  read cannot be decoded or has keys no setting belongs to, or when environment, driver or data source
  name are wrong after both were merged; the file that is read is the named one if it exists, and without
  a name the first of the four default paths that exists.
\<close>

theorem load_validates:
  assumes "found = (if tomlPath \<noteq> [] then (if ce_Exists E tomlPath then Some tomlPath else None)
     else find (ce_Exists E) [''ironclaw.toml'', ''.ironclaw.toml'',
       join_path [ce_HomeDir E, ''.config'', ''ironclaw'', ''config.toml''],
       join_path [ce_HomeDir E, ''.ironclaw'', ''config.toml'']])"
  shows "(\<forall>c. Load E tomlPath = Inr c \<longrightarrow>
       cf_Env c \<in> {''development'', ''staging'', ''production''} \<and>
       dc_Driver (cf_Database c) \<in> {''memory'', ''postgres'', ''libsql''} \<and>
       (dc_Driver (cf_Database c) = ''memory'' \<or> dc_DSN (cf_Database c) \<noteq> []) \<and>
       1 \<le> ag_MaxParallelJobs (cf_Agent c)) \<and>
    (isl (Load E tomlPath) \<longleftrightarrow>
       bad_number E ''IRONCLAW_AGENT_MAX_PARALLEL_JOBS'' \<or> bad_number E ''IRONCLAW_CHANNELS_HTTP_PORT'' \<or>
       (\<exists>c1 p. loadFromEnv E DefaultConfig = Inr c1 \<and> found = Some p \<and>
          (\<forall>c2. ce_DecodeFile E p c1 \<noteq> Inr (c2, []))) \<or>
       (\<exists>c1 c2. loadFromEnv E DefaultConfig = Inr c1 \<and>
          (case found of None \<Rightarrow> c2 = c1 | Some p \<Rightarrow> ce_DecodeFile E p c1 = Inr (c2, [])) \<and>
          \<not> (cf_Env c2 \<in> {''development'', ''staging'', ''production''} \<and>
             dc_Driver (cf_Database c2) \<in> {''memory'', ''postgres'', ''libsql''} \<and>
             (dc_Driver (cf_Database c2) = ''memory'' \<or> dc_DSN (cf_Database c2) \<noteq> []))))"
proof -
  have read: "config_path E tomlPath = found"
    by (simp add: assms config_path_def defaultConfigPaths_def)
  have ok: "Load E tomlPath = Inr c \<Longrightarrow> config_ok c" for c
    by (auto simp: Load_def split: sum.splits option.splits dest: validate_ok)
  show ?thesis
  proof (cases "loadFromEnv E DefaultConfig")
    case (Inl e)
    with loadFromEnv_error_iff [of E DefaultConfig] have "bad_number E ''IRONCLAW_AGENT_MAX_PARALLEL_JOBS'' \<or>
      bad_number E ''IRONCLAW_CHANNELS_HTTP_PORT''" by simp
    with Inl ok show ?thesis by (simp add: Load_def)
  next
    case (Inr c1)
    with loadFromEnv_error_iff [of E DefaultConfig] have
      "\<not> bad_number E ''IRONCLAW_AGENT_MAX_PARALLEL_JOBS''" "\<not> bad_number E ''IRONCLAW_CHANNELS_HTTP_PORT''" by simp_all
    moreover have "isl (Load E tomlPath) \<longleftrightarrow>
       (\<exists>p. found = Some p \<and> (\<forall>c2. ce_DecodeFile E p c1 \<noteq> Inr (c2, []))) \<or>
       (\<exists>c2. (case found of None \<Rightarrow> c2 = c1 | Some p \<Rightarrow> ce_DecodeFile E p c1 = Inr (c2, [])) \<and> isl (validate E c2))"
      using Inr read
      by (cases found; cases "ce_DecodeFile E (the found) c1")
        (auto simp: Load_def loadFromFile_def split: sum.splits if_splits)
    ultimately show ?thesis
      using Inr ok unfolding validate_fails by (simp add: config_ok_def)
  qed
qed

theorem load_validates_witness:
  "isl (Load \<lparr>ce_Getenv = (\<lambda>v. if v = ''IRONCLAW_DATABASE_DRIVER'' then ''postgres'' else []), ce_HomeDir = ''/root'',
     ce_Exists = (\<lambda>_. False), ce_DecodeFile = (\<lambda>_ _. Inl []), ce_quote = id\<rparr> [])"
proof -
  let ?E = "\<lparr>ce_Getenv = (\<lambda>v. if v = ''IRONCLAW_DATABASE_DRIVER'' then ''postgres'' else []), ce_HomeDir = ''/root'',
     ce_Exists = (\<lambda>_. False), ce_DecodeFile = (\<lambda>_ _. Inl []), ce_quote = id\<rparr>"
  have c: "loadFromEnv ?E DefaultConfig =
      Inr (DefaultConfig\<lparr>cf_Database := (cf_Database DefaultConfig)\<lparr>dc_Driver := ''postgres''\<rparr>\<rparr>)"
    by (simp add: loadFromEnv_def identity_env_def agent_section_env_def database_env_def llm_env_def channels_env_def
        with_env_def with_env_int_def DefaultConfig_def Let_def)
  show ?thesis
    using load_validates [OF refl, of ?E "[]"] by (simp add: c) (simp add: DefaultConfig_def)
qed

text \<open>
  The layers: without variables and without a file the result is the default configuration, and a value
  the file sets overrides the environment, since the file is decoded into what the environment left.
\<close>

lemma load_defaults:
  assumes "ce_Getenv E = (\<lambda>_. [])" and "config_path E tomlPath = None"
  shows "Load E tomlPath = Inr DefaultConfig"
proof -
  have "config_ok DefaultConfig" by (simp add: config_ok_def DefaultConfig_def)
  with assms show ?thesis by (simp add: Load_def loadFromEnv_unset validate_id)
qed

lemma file_overrides_environment:
  assumes "loadFromEnv E DefaultConfig = Inr c1" and "config_path E tomlPath = Some p"
    and "ce_DecodeFile E p c1 = Inr (c1\<lparr>cf_OwnerID := v\<rparr>, [])" and "config_ok c1"
  shows "Load E tomlPath = Inr (c1\<lparr>cf_OwnerID := v\<rparr>)"
proof -
  have "config_ok (c1\<lparr>cf_OwnerID := v\<rparr>)" using assms(4) by (simp add: config_ok_def)
  with assms show ?thesis by (simp add: Load_def loadFromFile_def validate_id)
qed

text \<open>A configuration file that is named and does not exist is passed over in silence.\<close>

lemma missing_file_ignored:
  assumes "tomlPath \<noteq> []" and "\<not> ce_Exists E tomlPath" and "ce_Getenv E = (\<lambda>_. [])"
  shows "Load E tomlPath = Inr DefaultConfig"
  using load_defaults [OF assms(3)] assms(1,2) by (simp add: config_path_def)

end
