(* ===== verification/Secrets.thy ===== *)
theory Secrets
  imports Go_Base64
begin

text \<open>
  The secret store, \<open>internal/secrets/secrets.go\<close>. AES in Galois/counter mode is the record \<open>aead\<close> of two
  functions of key, nonce and text; that opening inverts sealing is a hypothesis where it is used.
  The random nonce of an encryption is an argument, an error of the source of randomness
  included, and so is the text of a decoding error.
\<close>

record aead =
  gcm_Seal :: "string \<Rightarrow> string \<Rightarrow> string \<Rightarrow> string"
  gcm_Open :: "string \<Rightarrow> string \<Rightarrow> string \<Rightarrow> string + string"

definition nonce_size :: nat where "nonce_size = 12"

record secret_store =
  st_secrets :: "string \<rightharpoonup> string"
  st_master :: string

section \<open>Operations\<close>

definition NewStore :: "string \<Rightarrow> string + secret_store" where
  "NewStore masterKey =
     (if length masterKey \<noteq> 16 \<and> length masterKey \<noteq> 24 \<and> length masterKey \<noteq> 32
      then Inl (''master key must be 16, 24, or 32 bytes, got '' @ show_nat (length masterKey))
      else Inr \<lparr>st_secrets = Map.empty, st_master = masterKey\<rparr>)"

definition NewStoreFromEnv :: "string + secret_store" where
  "NewStoreFromEnv = NewStore ''ironclaw-default-key-32bytes!!''"

text \<open>\<open>aes.NewCipher\<close>: the error for a key of another size.\<close>

definition new_cipher :: "string \<Rightarrow> string option" where
  "new_cipher key =
     (if length key \<in> {16, 24, 32} then None
      else Some (''crypto/aes: invalid key size '' @ show_nat (length key)))"

definition encrypt :: "aead \<Rightarrow> string + string \<Rightarrow> secret_store \<Rightarrow> string \<Rightarrow> string + string" where
  "encrypt G rand s plaintext =
     (case new_cipher (st_master s) of
        Some err \<Rightarrow> Inl (''new cipher: '' @ err)
      | None \<Rightarrow>
          (case rand of
             Inl err \<Rightarrow> Inl (''generate nonce: '' @ err)
           | Inr nonce \<Rightarrow> Inr (base64_encode (nonce @ gcm_Seal G (st_master s) nonce plaintext))))"

definition decrypt :: "aead \<Rightarrow> (string \<Rightarrow> string) \<Rightarrow> secret_store \<Rightarrow> string \<Rightarrow> string + string" where
  "decrypt G b64err s ciphertext =
     (case base64_decode ciphertext of
        (data, True) \<Rightarrow> Inl (''decode base64: '' @ b64err ciphertext)
      | (data, False) \<Rightarrow>
          (case new_cipher (st_master s) of
             Some err \<Rightarrow> Inl (''new cipher: '' @ err)
           | None \<Rightarrow>
               if length data < nonce_size then Inl ''ciphertext too short''
               else (case gcm_Open G (st_master s) (take nonce_size data) (drop nonce_size data) of
                       Inl err \<Rightarrow> Inl (''decrypt: '' @ err)
                     | Inr plaintext \<Rightarrow> Inr plaintext)))"

definition secret_Set ::
  "aead \<Rightarrow> string + string \<Rightarrow> string \<Rightarrow> string \<Rightarrow> secret_store \<Rightarrow> string option \<times> secret_store" where
  "secret_Set G rand key val s =
     (case encrypt G rand s val of
        Inl err \<Rightarrow> (Some (''encrypt: '' @ err), s)
      | Inr encrypted \<Rightarrow> (None, s\<lparr>st_secrets := (st_secrets s)(key \<mapsto> encrypted)\<rparr>))"

definition secret_Get ::
  "aead \<Rightarrow> (string \<Rightarrow> string) \<Rightarrow> (string \<Rightarrow> string) \<Rightarrow> string \<Rightarrow> secret_store \<Rightarrow> string + string" where
  "secret_Get G b64err quote key s =
     (case st_secrets s key of
        None \<Rightarrow> Inl (''secret '' @ quote key @ '' not found'')
      | Some encrypted \<Rightarrow>
          (case decrypt G b64err s encrypted of
             Inl err \<Rightarrow> Inl (''decrypt: '' @ err)
           | Inr val \<Rightarrow> Inr val))"

definition secret_Delete :: "string \<Rightarrow> secret_store \<Rightarrow> secret_store" where
  "secret_Delete key s = s\<lparr>st_secrets := (st_secrets s)(key := None)\<rparr>"

definition secret_List :: "string list \<Rightarrow> secret_store \<Rightarrow> string list" where
  "secret_List ks s = map fst (range_map ks (st_secrets s))"

definition secret_Inject :: "string \<Rightarrow> secret_store \<Rightarrow> string + string" where
  "secret_Inject template s = Inr template"

definition secret_HasKey :: "string \<Rightarrow> secret_store \<Rightarrow> bool" where
  "secret_HasKey key s \<longleftrightarrow> st_secrets s key \<noteq> None"

text \<open>\<open>subtle.ConstantTimeCompare\<close>: different lengths differ at once, else the bytes are compared by xor.\<close>

definition ConstantTimeCompare :: "string \<Rightarrow> string \<Rightarrow> bool" where
  "ConstantTimeCompare a b \<longleftrightarrow>
     length a = length b \<and> list_all2 (\<lambda>x y. (of_char x :: nat) = of_char y) a b"

section \<open>Properties\<close>

lemma NewStore_key: "NewStore k = Inr s \<Longrightarrow> st_master s = k \<and> new_cipher k = None"
  by (auto simp: NewStore_def new_cipher_def split: if_splits)

lemma decrypt_cong:
  assumes "st_master s' = st_master s"
  shows "decrypt G b64err s' c = decrypt G b64err s c"
  unfolding decrypt_def assms by (rule refl)

lemma decrypt_encrypt:
  assumes "gcm_Open G (st_master s) nonce (gcm_Seal G (st_master s) nonce v) = Inr v"
    and "length nonce = nonce_size" and "new_cipher (st_master s) = None"
  shows "\<exists>c. encrypt G (Inr nonce) s v = Inr c \<and> decrypt G b64err s c = Inr v"
  using assms by (simp add: encrypt_def decrypt_def base64_roundtrip)

text \<open>
  C39: a secret that was stored is read back as it was, for every value and every nonce, if the cipher
  opens what it sealed; setting it leaves every other secret's value and the set of the other names
  alone, and a deleted secret is reported as missing.
\<close>

theorem secret_roundtrip:
  assumes "\<forall>n p. length n = 12 \<longrightarrow> gcm_Open G (st_master s) n (gcm_Seal G (st_master s) n p) = Inr p"
    and "NewStore (st_master s) = Inr s0" and "length nonce = 12"
  shows "\<exists>s'. secret_Set G (Inr nonce) key v s = (None, s') \<and>
     secret_Get G b64err quote key s' = Inr v \<and>
     (\<forall>k. k \<noteq> key \<longrightarrow> secret_Get G b64err quote k s' = secret_Get G b64err quote k s) \<and>
     secret_Get G b64err quote key (secret_Delete key s') = Inl (''secret '' @ quote key @ '' not found'')"
proof -
  have c: "new_cipher (st_master s) = None" using NewStore_key [OF assms(2)] by simp
  obtain e where e: "encrypt G (Inr nonce) s v = Inr e" "decrypt G b64err s e = Inr v"
    using decrypt_encrypt [of G s nonce v b64err] assms(1,3) c by (auto simp: nonce_size_def)
  have d: "decrypt G b64err (s\<lparr>st_secrets := m\<rparr>) x = decrypt G b64err s x" for m x
    by (rule decrypt_cong) simp
  show ?thesis
    using e d by (simp add: secret_Set_def secret_Get_def secret_Delete_def split: option.split)
qed

lemma secret_roundtrip_witness:
  "let G = \<lparr>gcm_Seal = (\<lambda>k n p. p @ ''tag''), gcm_Open = (\<lambda>k n c. Inr (take (length c - 3) c))\<rparr>;
       s = \<lparr>st_secrets = Map.empty, st_master = replicate 16 CHR ''k''\<rparr>
   in \<exists>s'. secret_Set G (Inr (replicate 12 CHR ''n'')) ''api'' ''v'' s = (None, s') \<and>
        secret_Get G id id ''api'' s' = Inr ''v''"
proof -
  let ?G = "\<lparr>gcm_Seal = (\<lambda>k n p. p @ ''tag''), gcm_Open = (\<lambda>k n c. Inr (take (length c - 3) c))\<rparr> :: aead"
  let ?s = "\<lparr>st_secrets = Map.empty, st_master = replicate 16 CHR ''k''\<rparr>"
  have "NewStore (st_master ?s) = Inr ?s" by (simp add: NewStore_def)
  from secret_roundtrip [of ?G ?s ?s "replicate 12 CHR ''n''" "''api''" "''v''" id id, OF _ this]
  show ?thesis by auto
qed

text \<open>
  The default key, whose text says 32 bytes, has 30: the store that is built from it is always an error.
\<close>

lemma default_key_rejected:
  "NewStoreFromEnv = Inl ''master key must be 16, 24, or 32 bytes, got 30''"
proof -
  have d: "show_nat 30 = ''30''" by code_simp
  have n: "length ''ironclaw-default-key-32bytes!!'' = 30" by simp
  show ?thesis unfolding NewStoreFromEnv_def NewStore_def n d by simp
qed

text \<open>The constant-time comparison decides equality.\<close>

lemma constant_time_compare_iff: "ConstantTimeCompare a b \<longleftrightarrow> a = b"
  by (auto simp: ConstantTimeCompare_def list_all2_conv_all_nth intro: nth_equalityI)

text \<open>Injection leaves the placeholders it documents in the text.\<close>

lemma inject_keeps_placeholders: "secret_Inject ''{{secret:api}}'' s = Inr ''{{secret:api}}''"
  by (simp add: secret_Inject_def)

interpretation secret_names: keyed_store "\<lambda>s k. st_secrets s k"
  "\<lambda>k e s. s\<lparr>st_secrets := (st_secrets s)(k \<mapsto> e)\<rparr>" secret_Delete
  by unfold_locales (simp_all add: secret_Delete_def)

end
