(* ===== verification/LLM_Clients.thy ===== *)
theory LLM_Clients
  imports LLM_Types
begin

text \<open>
  The clients of the language-model services, \<open>openai.go\<close>, \<open>anthropic.go\<close>, \<open>ollama.go\<close>, \<open>gemini.go\<close> of
  \<open>internal/llm\<close>, and the choice between them (\<open>New\<close> of \<open>llm.go\<close>): how a conversation becomes a request, how
  a response becomes the agent's, the errors in between, and the chunks of a stream.

  The network and the JSON codec are the record \<open>http_lib\<close>: sending a request changes a world \<open>'w\<close> and
  yields an error or a status and a body; decoding a body yields an error or the response
  structure, and a stream decodes to a list of items that ends at its end of file.
\<close>

section \<open>Wire structures\<close>

text \<open>
  The message of a choice (\<open>Message\<close>, or \<open>Delta\<close> in a stream) is spread over the fields of the choice; the
  tool calls have the structure of the agent's own.
\<close>

record openai_choice =
  oc_Index :: int
  oc_Role :: string
  oc_Content :: string
  oc_ToolCalls :: "llm_tool_call list"
  oc_FinishReason :: string

record openai_response =
  op_ID :: string
  op_Model :: string
  op_Choices :: "openai_choice list"
  op_PromptTokens :: int
  op_CompletionTokens :: int
  op_TotalTokens :: int

record openai_stream_chunk =
  ok_ID :: string
  ok_Model :: string
  ok_Choices :: "openai_choice list"

record anthropic_block =
  ab_Type :: string
  ab_Text :: string
  ab_ID :: string
  ab_Name :: string
  ab_Input :: string

record anthropic_response =
  an_ID :: string
  an_Model :: string
  an_Content :: "anthropic_block list"
  an_InputTokens :: int
  an_OutputTokens :: int

record anthropic_stream_event =
  ae_Type :: string
  ae_DeltaType :: string
  ae_DeltaText :: string

record ollama_response =
  ol_Model :: string
  ol_Role :: string
  ol_Content :: string
  ol_ToolCalls :: "function_call list"
  ol_Done :: bool
  ol_PromptEvalCount :: int
  ol_EvalCount :: int

record gemini_part =
  gp_Text :: string
  gp_FunctionCall :: "(string \<times> params) option"

record gemini_content =
  gc_Role :: string
  gc_Parts :: "gemini_part list"

record gemini_request =
  gq_Contents :: "gemini_content list"
  gq_Tools :: "function_schema list list"

record gemini_response =
  gr_Candidates :: "gemini_content list"
  gr_PromptTokenCount :: int
  gr_CandidatesTokenCount :: int
  gr_TotalTokenCount :: int

record stream_chunk =
  sk_Content :: string
  sk_ToolCalls :: "llm_tool_call list"
  sk_Done :: bool
  sk_Error :: "string option"

definition text_chunk :: "string \<Rightarrow> stream_chunk" where
  "text_chunk c = \<lparr>sk_Content = c, sk_ToolCalls = [], sk_Done = False, sk_Error = None\<rparr>"

definition error_chunk :: "string \<Rightarrow> stream_chunk" where
  "error_chunk err = \<lparr>sk_Content = [], sk_ToolCalls = [], sk_Done = False, sk_Error = Some err\<rparr>"

text \<open>What the decoder of a stream delivers next: a value, or an error that is not the end of the file.\<close>

datatype 'a item = Item 'a | BadItem string

datatype request_body = JsonRequest jval | GeminiRequest gemini_request

text \<open>The body of a response: the bytes that arrive, and the error the reading ends with, if any.\<close>

type_synonym http_body = "string \<times> string option"

record 'w http_lib =
  hl_Marshal :: "request_body \<Rightarrow> string + string"
  hl_NewRequest :: "string \<Rightarrow> string option"
  hl_Do :: "string \<Rightarrow> (string \<times> string) list \<Rightarrow> string \<Rightarrow> 'w \<Rightarrow> (string + nat \<times> http_body) \<times> 'w"
  hl_DecodeOpenAI :: "http_body \<Rightarrow> string + openai_response"
  hl_DecodeAnthropic :: "http_body \<Rightarrow> string + anthropic_response"
  hl_DecodeOllama :: "http_body \<Rightarrow> string + ollama_response"
  hl_DecodeGemini :: "string \<Rightarrow> string + gemini_response"
  hl_MarshalArgs :: "params \<Rightarrow> string"

section \<open>Posting a request\<close>

text \<open>The steps the clients share: marshal, build the request and send it; then check the status.\<close>

definition send ::
  "'w http_lib \<Rightarrow> string \<Rightarrow> (string \<times> string) list \<Rightarrow> request_body \<Rightarrow> 'w \<Rightarrow>
     (string + nat \<times> http_body) \<times> 'w" where
  "send H url headers b w =
     (case hl_Marshal H b of
        Inl err \<Rightarrow> (Inl (''marshal request: '' @ err), w)
      | Inr body \<Rightarrow>
          (case hl_NewRequest H url of
             Some err \<Rightarrow> (Inl (''create request: '' @ err), w)
           | None \<Rightarrow>
               (case hl_Do H url headers body w of
                  (Inl err, w') \<Rightarrow> (Inl (''do request: '' @ err), w')
                | (Inr resp, w') \<Rightarrow> (Inr resp, w'))))"

definition post ::
  "'w http_lib \<Rightarrow> string \<Rightarrow> (string \<times> string) list \<Rightarrow> request_body \<Rightarrow> 'w \<Rightarrow> (string + http_body) \<times> 'w" where
  "post H url headers b w =
     (case send H url headers b w of
        (Inl err, w') \<Rightarrow> (Inl err, w')
      | (Inr (status, data), w') \<Rightarrow>
          if status \<noteq> 200 then (Inl (''API error '' @ show_nat status @ '': '' @ fst data), w')
          else (Inr data, w'))"

definition json_header :: "string \<times> string" where
  "json_header = (''Content-Type'', ''application/json'')"

definition stream_header :: "string \<times> string" where
  "stream_header = (''Accept'', ''text/event-stream'')"

section \<open>OpenAI and compatible services\<close>

record openai_client =
  oa_model :: string
  oa_apiKey :: string
  oa_baseURL :: string
  oa_completionPath :: string

definition NewOpenAIClient :: "string \<Rightarrow> string \<Rightarrow> string \<Rightarrow> openai_client" where
  "NewOpenAIClient model apiKey baseURL =
     \<lparr>oa_model = model, oa_apiKey = apiKey,
      oa_baseURL = (if baseURL = [] then ''https://api.openai.com/v1'' else baseURL),
      oa_completionPath = ''/chat/completions''\<rparr>"

definition NewOpenAIClientWithEndpoint :: "string \<Rightarrow> string \<Rightarrow> string \<Rightarrow> string \<Rightarrow> openai_client" where
  "NewOpenAIClientWithEndpoint model apiKey baseURL completionPath =
     (NewOpenAIClient model apiKey baseURL)\<lparr>oa_completionPath := completionPath\<rparr>"

definition convertToOpenAIToolCalls :: "llm_tool_call list \<Rightarrow> jval" where
  "convertToOpenAIToolCalls calls =
     JArr (map (\<lambda>call. JObj [''id'' \<mapsto> JStr (lc_ID call), ''type'' \<mapsto> JStr (lc_Type call),
       ''function'' \<mapsto> JObj [''name'' \<mapsto> JStr (fc_Name (lc_Function call)),
                           ''arguments'' \<mapsto> JStr (fc_Arguments (lc_Function call))]]) calls)"

definition openai_message :: "llm_message \<Rightarrow> jval" where
  "openai_message m =
     (let m1 = [''role'' \<mapsto> JStr (role_text (lm_Role m)), ''content'' \<mapsto> JStr (lm_Content m)];
          m2 = (if lm_Role m = RoleTool
                then m1(''tool_call_id'' \<mapsto> JStr (lm_ToolID m), ''name'' \<mapsto> JStr (lm_ToolName m)) else m1);
          m3 = (if lm_ToolCalls m \<noteq> []
                then m2(''tool_calls'' \<mapsto> convertToOpenAIToolCalls (lm_ToolCalls m)) else m2)
      in JObj m3)"

definition openai_convertMessages :: "llm_message list \<Rightarrow> jval" where
  "openai_convertMessages msgs = JArr (map openai_message msgs)"

text \<open>A tool definition under its JSON tags.\<close>

definition tool_json :: "tool_definition \<Rightarrow> jval" where
  "tool_json t =
     JObj [''type'' \<mapsto> JStr (td_Type t),
           ''function'' \<mapsto> JObj [''name'' \<mapsto> JStr (fs_Name (td_Function t)),
                               ''description'' \<mapsto> JStr (fs_Description (td_Function t)),
                               ''parameters'' \<mapsto> JObj (fs_Parameters (td_Function t))]]"

definition openai_buildRequestBody ::
  "openai_client \<Rightarrow> llm_message list \<Rightarrow> tool_definition list \<Rightarrow> bool \<Rightarrow> jval" where
  "openai_buildRequestBody c msgs tools stream =
     (let r = [''model'' \<mapsto> JStr (oa_model c), ''messages'' \<mapsto> openai_convertMessages msgs,
               ''stream'' \<mapsto> JBool stream]
      in JObj (if length tools > 0 then r(''tools'' \<mapsto> JArr (map tool_json tools)) else r))"

definition openai_headers :: "openai_client \<Rightarrow> (string \<times> string) list" where
  "openai_headers c = [json_header, (''Authorization'', ''Bearer '' @ oa_apiKey c)]"

text \<open>The tool calls of a response have the agent's structure already and are copied field by field.\<close>

definition openai_convertToolCalls :: "llm_tool_call list \<Rightarrow> llm_tool_call list" where
  "openai_convertToolCalls calls =
     map (\<lambda>call. \<lparr>lc_ID = lc_ID call, lc_Type = lc_Type call,
       lc_Function = \<lparr>fc_Name = fc_Name (lc_Function call), fc_Arguments = fc_Arguments (lc_Function call)\<rparr>\<rparr>) calls"

definition openai_Complete :: "'w http_lib \<Rightarrow> openai_client \<Rightarrow> 'w complete_fn" where
  "openai_Complete H c msgs tools w =
     (case post H (oa_baseURL c @ oa_completionPath c) (openai_headers c)
             (JsonRequest (openai_buildRequestBody c msgs tools False)) w of
        (Inl err, w') \<Rightarrow> (Inl err, w')
      | (Inr data, w') \<Rightarrow>
          (case hl_DecodeOpenAI H data of
             Inl err \<Rightarrow> (Inl (''decode response: '' @ err), w')
           | Inr result \<Rightarrow>
               (case op_Choices result of
                  [] \<Rightarrow> (Inl ''no choices in response'', w')
                | choice # _ \<Rightarrow>
                    (Inr \<lparr>cr_Content = oc_Content choice,
                          cr_ToolCalls = openai_convertToolCalls (oc_ToolCalls choice),
                          cr_Usage = \<lparr>u_PromptTokens = op_PromptTokens result,
                                      u_CompletionTokens = op_CompletionTokens result,
                                      u_TotalTokens = op_TotalTokens result\<rparr>,
                          cr_Model = op_Model result\<rparr>, w'))))"

text \<open>
  The goroutine that reads the stream, on the items still to come; \<open>cancelled\<close> is the number of turns
  before the context ends, if it does.
\<close>

fun openai_stream :: "(nat \<times> string) option \<Rightarrow> openai_stream_chunk item list \<Rightarrow> stream_chunk list" where
  "openai_stream (Some (0, err)) items = [error_chunk err]"
| "openai_stream cancelled [] = []"
| "openai_stream cancelled (BadItem err # items) = [error_chunk (''decode stream: '' @ err)]"
| "openai_stream cancelled (Item chunk # items) =
     (let rest = openai_stream (map_option (\<lambda>(n, err). (n - 1, err)) cancelled) items in
      case ok_Choices chunk of
        [] \<Rightarrow> rest
      | ch # _ \<Rightarrow>
          \<lparr>sk_Content = oc_Content ch, sk_ToolCalls = openai_convertToolCalls (oc_ToolCalls ch),
           sk_Done = (oc_FinishReason ch \<noteq> []), sk_Error = None\<rparr> # rest)"

definition openai_StreamComplete ::
  "'w http_lib \<Rightarrow> (http_body \<Rightarrow> openai_stream_chunk item list) \<Rightarrow> (nat \<times> string) option \<Rightarrow> openai_client \<Rightarrow>
     llm_message list \<Rightarrow> tool_definition list \<Rightarrow> 'w \<Rightarrow> (string + stream_chunk list) \<times> 'w" where
  "openai_StreamComplete H items cancelled c msgs tools w =
     (case post H (oa_baseURL c @ oa_completionPath c) (openai_headers c @ [stream_header])
             (JsonRequest (openai_buildRequestBody c msgs tools True)) w of
        (Inl err, w') \<Rightarrow> (Inl err, w')
      | (Inr data, w') \<Rightarrow> (Inr (openai_stream cancelled (items data)), w'))"

section \<open>Anthropic\<close>

record anthropic_client =
  ac_model :: string
  ac_apiKey :: string
  ac_baseURL :: string

definition NewAnthropicClient :: "string \<Rightarrow> string \<Rightarrow> string \<Rightarrow> anthropic_client" where
  "NewAnthropicClient model apiKey baseURL =
     \<lparr>ac_model = model, ac_apiKey = apiKey,
      ac_baseURL = (if baseURL = [] then ''https://api.anthropic.com/v1'' else baseURL)\<rparr>"

definition plain_json :: "llm_message \<Rightarrow> jval" where
  "plain_json m = JObj [''role'' \<mapsto> JStr (role_text (lm_Role m)), ''content'' \<mapsto> JStr (lm_Content m)]"

fun anthropic_messages :: "llm_message list \<Rightarrow> jval list" where
  "anthropic_messages [] = []"
| "anthropic_messages (m # msgs) =
     (if lm_Role m = RoleSystem then anthropic_messages msgs else plain_json m # anthropic_messages msgs)"

definition anthropic_convertTools :: "tool_definition list \<Rightarrow> jval" where
  "anthropic_convertTools tools =
     JArr (map (\<lambda>t. JObj [''name'' \<mapsto> JStr (fs_Name (td_Function t)),
       ''description'' \<mapsto> JStr (fs_Description (td_Function t)),
       ''input_schema'' \<mapsto> JObj (fs_Parameters (td_Function t))]) tools)"

definition anthropic_buildRequestBody ::
  "anthropic_client \<Rightarrow> llm_message list \<Rightarrow> tool_definition list \<Rightarrow> bool \<Rightarrow> jval" where
  "anthropic_buildRequestBody c msgs tools stream =
     (let r = [''model'' \<mapsto> JStr (ac_model c), ''messages'' \<mapsto> JArr (anthropic_messages msgs),
               ''max_tokens'' \<mapsto> JNum 4096, ''stream'' \<mapsto> JBool stream]
      in JObj (if length tools > 0 then r(''tools'' \<mapsto> anthropic_convertTools tools) else r))"

definition anthropic_headers :: "anthropic_client \<Rightarrow> (string \<times> string) list" where
  "anthropic_headers c =
     [json_header, (''x-api-key'', ac_apiKey c), (''anthropic-version'', ''2023-06-01'')]"

fun anthropic_blocks :: "anthropic_block list \<Rightarrow> string \<Rightarrow> llm_tool_call list \<Rightarrow> string \<times> llm_tool_call list" where
  "anthropic_blocks [] content calls = (content, calls)"
| "anthropic_blocks (b # bs) content calls =
     anthropic_blocks bs (if ab_Type b = ''text'' then content @ ab_Text b else content)
       (if ab_Type b = ''tool_use''
        then calls @ [\<lparr>lc_ID = ab_ID b, lc_Type = ''function'',
               lc_Function = \<lparr>fc_Name = ab_Name b, fc_Arguments = ab_Input b\<rparr>\<rparr>]
        else calls)"

definition anthropic_parseResponse :: "anthropic_response \<Rightarrow> completion_response" where
  "anthropic_parseResponse resp =
     (case anthropic_blocks (an_Content resp) [] [] of
        (content, calls) \<Rightarrow>
          \<lparr>cr_Content = content, cr_ToolCalls = calls,
           cr_Usage = \<lparr>u_PromptTokens = an_InputTokens resp, u_CompletionTokens = an_OutputTokens resp,
                       u_TotalTokens = int64 (an_InputTokens resp + an_OutputTokens resp)\<rparr>,
           cr_Model = an_Model resp\<rparr>)"

definition anthropic_Complete :: "'w http_lib \<Rightarrow> anthropic_client \<Rightarrow> 'w complete_fn" where
  "anthropic_Complete H c msgs tools w =
     (case post H (ac_baseURL c @ ''/messages'') (anthropic_headers c)
             (JsonRequest (anthropic_buildRequestBody c msgs tools False)) w of
        (Inl err, w') \<Rightarrow> (Inl err, w')
      | (Inr data, w') \<Rightarrow>
          (case hl_DecodeAnthropic H data of
             Inl err \<Rightarrow> (Inl (''decode response: '' @ err), w')
           | Inr result \<Rightarrow> (Inr (anthropic_parseResponse result), w')))"

fun anthropic_stream :: "(nat \<times> string) option \<Rightarrow> anthropic_stream_event item list \<Rightarrow> stream_chunk list" where
  "anthropic_stream (Some (0, err)) items = [error_chunk err]"
| "anthropic_stream cancelled [] = []"
| "anthropic_stream cancelled (BadItem err # items) = [error_chunk (''decode stream: '' @ err)]"
| "anthropic_stream cancelled (Item ev # items) =
     (if ae_Type ev = ''content_block_delta'' \<and> ae_DeltaType ev = ''text_delta''
      then [text_chunk (ae_DeltaText ev)] else []) @
     (if ae_Type ev = ''message_stop'' then [(text_chunk [])\<lparr>sk_Done := True\<rparr>]
      else anthropic_stream (map_option (\<lambda>(n, err). (n - 1, err)) cancelled) items)"

definition anthropic_StreamComplete ::
  "'w http_lib \<Rightarrow> (http_body \<Rightarrow> anthropic_stream_event item list) \<Rightarrow> (nat \<times> string) option \<Rightarrow> anthropic_client \<Rightarrow>
     llm_message list \<Rightarrow> tool_definition list \<Rightarrow> 'w \<Rightarrow> (string + stream_chunk list) \<times> 'w" where
  "anthropic_StreamComplete H items cancelled c msgs tools w =
     (case post H (ac_baseURL c @ ''/messages'') (anthropic_headers c @ [stream_header])
             (JsonRequest (anthropic_buildRequestBody c msgs tools True)) w of
        (Inl err, w') \<Rightarrow> (Inl err, w')
      | (Inr data, w') \<Rightarrow> (Inr (anthropic_stream cancelled (items data)), w'))"

section \<open>Ollama\<close>

record ollama_client =
  oo_model :: string
  oo_baseURL :: string

definition NewOllamaClient :: "string \<Rightarrow> string \<Rightarrow> ollama_client" where
  "NewOllamaClient model baseURL =
     \<lparr>oo_model = model, oo_baseURL = (if baseURL = [] then ''http://localhost:11434'' else baseURL)\<rparr>"

definition ollama_convertMessages :: "llm_message list \<Rightarrow> jval" where
  "ollama_convertMessages msgs = JArr (map plain_json msgs)"

definition ollama_convertTools :: "tool_definition list \<Rightarrow> jval" where
  "ollama_convertTools tools = JArr (map (\<lambda>t. tool_json (t\<lparr>td_Type := ''function''\<rparr>)) tools)"

definition ollama_body :: "ollama_client \<Rightarrow> llm_message list \<Rightarrow> tool_definition list \<Rightarrow> bool \<Rightarrow> jval" where
  "ollama_body c msgs tools stream =
     (let r = [''model'' \<mapsto> JStr (oo_model c), ''messages'' \<mapsto> ollama_convertMessages msgs,
               ''stream'' \<mapsto> JBool stream]
      in JObj (if length tools > 0 then r(''tools'' \<mapsto> ollama_convertTools tools) else r))"

definition ollama_convertToolCalls :: "function_call list \<Rightarrow> llm_tool_call list" where
  "ollama_convertToolCalls calls =
     map (\<lambda>call. \<lparr>lc_ID = [], lc_Type = [],
       lc_Function = \<lparr>fc_Name = fc_Name call, fc_Arguments = fc_Arguments call\<rparr>\<rparr>) calls"

definition ollama_Complete :: "'w http_lib \<Rightarrow> ollama_client \<Rightarrow> 'w complete_fn" where
  "ollama_Complete H c msgs tools w =
     (case post H (oo_baseURL c @ ''/api/chat'') [json_header]
             (JsonRequest (ollama_body c msgs tools False)) w of
        (Inl err, w') \<Rightarrow> (Inl err, w')
      | (Inr data, w') \<Rightarrow>
          (case hl_DecodeOllama H data of
             Inl err \<Rightarrow> (Inl (''decode response: '' @ err), w')
           | Inr result \<Rightarrow>
               (Inr \<lparr>cr_Content = ol_Content result, cr_ToolCalls = ollama_convertToolCalls (ol_ToolCalls result),
                     cr_Usage = \<lparr>u_PromptTokens = ol_PromptEvalCount result,
                                 u_CompletionTokens = ol_EvalCount result,
                                 u_TotalTokens = int64 (ol_PromptEvalCount result + ol_EvalCount result)\<rparr>,
                     cr_Model = ol_Model result\<rparr>, w')))"

text \<open>The stream is read line by line, and a line that does not decode is skipped.\<close>

fun ollama_stream ::
  "'w http_lib \<Rightarrow> (nat \<times> string) option \<Rightarrow> string list \<Rightarrow> stream_chunk list" where
  "ollama_stream H cancelled [] = []"
| "ollama_stream H (Some (0, err)) (row # rows) = [error_chunk err]"
| "ollama_stream H cancelled (row # rows) =
     (let rest = ollama_stream H (map_option (\<lambda>(n, err). (n - 1, err)) cancelled) rows in
      case hl_DecodeOllama H (row, None) of
        Inl err \<Rightarrow> rest
      | Inr chunk \<Rightarrow> (text_chunk (ol_Content chunk))\<lparr>sk_Done := ol_Done chunk\<rparr> # rest)"

definition ollama_StreamComplete ::
  "'w http_lib \<Rightarrow> (http_body \<Rightarrow> string list) \<Rightarrow> (nat \<times> string) option \<Rightarrow> ollama_client \<Rightarrow>
     llm_message list \<Rightarrow> tool_definition list \<Rightarrow> 'w \<Rightarrow> (string + stream_chunk list) \<times> 'w" where
  "ollama_StreamComplete H scan cancelled c msgs tools w =
     (case post H (oo_baseURL c @ ''/api/chat'') [json_header]
             (JsonRequest (ollama_body c msgs tools True)) w of
        (Inl err, w') \<Rightarrow> (Inl err, w')
      | (Inr data, w') \<Rightarrow> (Inr (ollama_stream H cancelled (scan data)), w'))"

section \<open>Gemini\<close>

record gemini_client =
  gm_model :: string
  gm_apiKey :: string
  gm_baseURL :: string

definition NewGeminiClient :: "string \<Rightarrow> string \<Rightarrow> string \<Rightarrow> gemini_client" where
  "NewGeminiClient model apiKey baseURL =
     \<lparr>gm_model = (if model = [] then ''gemini-2.0-flash'' else model), gm_apiKey = apiKey,
      gm_baseURL = (if baseURL = [] then ''https://generativelanguage.googleapis.com/v1beta'' else baseURL)\<rparr>"

definition gemini_role :: "message_role \<Rightarrow> string" where
  "gemini_role r =
     (case r of RoleSystem \<Rightarrow> ''user'' | RoleUser \<Rightarrow> ''user'' | RoleAssistant \<Rightarrow> ''model'' | RoleTool \<Rightarrow> ''user'')"

definition gemini_buildRequestBody :: "llm_message list \<Rightarrow> tool_definition list \<Rightarrow> gemini_request" where
  "gemini_buildRequestBody msgs tools =
     \<lparr>gq_Contents = map (\<lambda>m. \<lparr>gc_Role = gemini_role (lm_Role m),
        gc_Parts = [\<lparr>gp_Text = lm_Content m, gp_FunctionCall = None\<rparr>]\<rparr>) msgs,
      gq_Tools = (if length tools > 0 then [map td_Function tools] else [])\<rparr>"

fun gemini_parts ::
  "'w http_lib \<Rightarrow> gemini_part list \<Rightarrow> string \<Rightarrow> llm_tool_call list \<Rightarrow> string \<times> llm_tool_call list" where
  "gemini_parts H [] content calls = (content, calls)"
| "gemini_parts H (p # ps) content calls =
     gemini_parts H ps (if gp_Text p \<noteq> [] then content @ gp_Text p else content)
       (case gp_FunctionCall p of
          None \<Rightarrow> calls
        | Some (name, args) \<Rightarrow>
            calls @ [\<lparr>lc_ID = ''call_'' @ name, lc_Type = ''function'',
              lc_Function = \<lparr>fc_Name = name, fc_Arguments = hl_MarshalArgs H args\<rparr>\<rparr>])"

definition empty_response :: completion_response where
  "empty_response = \<lparr>cr_Content = [], cr_ToolCalls = [],
     cr_Usage = \<lparr>u_PromptTokens = 0, u_CompletionTokens = 0, u_TotalTokens = 0\<rparr>, cr_Model = []\<rparr>"

definition gemini_parseResponse :: "'w http_lib \<Rightarrow> gemini_client \<Rightarrow> gemini_response \<Rightarrow> completion_response" where
  "gemini_parseResponse H c resp =
     (case gr_Candidates resp of
        [] \<Rightarrow> empty_response
      | cand # _ \<Rightarrow>
          (case gemini_parts H (gc_Parts cand) [] [] of
             (content, calls) \<Rightarrow>
               \<lparr>cr_Content = content, cr_ToolCalls = calls,
                cr_Usage = \<lparr>u_PromptTokens = gr_PromptTokenCount resp,
                            u_CompletionTokens = gr_CandidatesTokenCount resp,
                            u_TotalTokens = gr_TotalTokenCount resp\<rparr>,
                cr_Model = gm_model c\<rparr>))"

definition gemini_url :: "gemini_client \<Rightarrow> string" where
  "gemini_url c = gm_baseURL c @ ''/models/'' @ gm_model c @ '':generateContent?key='' @ gm_apiKey c"

definition gemini_Complete :: "'w http_lib \<Rightarrow> gemini_client \<Rightarrow> 'w complete_fn" where
  "gemini_Complete H c msgs tools w =
     (case send H (gemini_url c) [json_header] (GeminiRequest (gemini_buildRequestBody msgs tools)) w of
        (Inl err, w') \<Rightarrow> (Inl err, w')
      | (Inr (status, respBody, Some err), w') \<Rightarrow> (Inl (''read response: '' @ err), w')
      | (Inr (status, respBody, None), w') \<Rightarrow>
          if status \<noteq> 200 then (Inl (''gemini API error '' @ show_nat status @ '': '' @ respBody), w')
          else (case hl_DecodeGemini H respBody of
                  Inl err \<Rightarrow> (Inl (''unmarshal response: '' @ err), w')
                | Inr resp \<Rightarrow> (Inr (gemini_parseResponse H c resp), w')))"

definition gemini_StreamComplete ::
  "'w http_lib \<Rightarrow> gemini_client \<Rightarrow> llm_message list \<Rightarrow> tool_definition list \<Rightarrow> 'w \<Rightarrow>
     (string + stream_chunk list) \<times> 'w" where
  "gemini_StreamComplete H c msgs tools w =
     (case gemini_Complete H c msgs tools w of
        (Inl err, w') \<Rightarrow> (Inl err, w')
      | (Inr resp, w') \<Rightarrow>
          (Inr [\<lparr>sk_Content = cr_Content resp, sk_ToolCalls = cr_ToolCalls resp, sk_Done = True, sk_Error = None\<rparr>], w'))"

section \<open>Choosing a client\<close>

datatype llm_client =
    OpenAI openai_client
  | Anthropic anthropic_client
  | Ollama ollama_client
  | Gemini gemini_client

text \<open>An unknown provider is the nil client, without an error.\<close>

definition llm_New :: "string \<Rightarrow> string \<Rightarrow> string \<Rightarrow> string \<Rightarrow> llm_client option" where
  "llm_New provider model apiKey baseURL =
     (if provider = ''openai'' \<or> provider = ''groq'' then Some (OpenAI (NewOpenAIClient model apiKey baseURL))
      else if provider = ''anthropic'' then Some (Anthropic (NewAnthropicClient model apiKey baseURL))
      else if provider = ''minimax''
      then Some (OpenAI (NewOpenAIClientWithEndpoint model apiKey
             (if baseURL = [] then ''https://api.minimax.chat/v1'' else baseURL) ''/text/chatcompletion_v2''))
      else if provider = ''ollama'' then Some (Ollama (NewOllamaClient model baseURL))
      else if provider = ''gemini'' then Some (Gemini (NewGeminiClient model apiKey baseURL))
      else None)"

fun client_Complete :: "'w http_lib \<Rightarrow> llm_client \<Rightarrow> 'w complete_fn" where
  "client_Complete H (OpenAI c) = openai_Complete H c"
| "client_Complete H (Anthropic c) = anthropic_Complete H c"
| "client_Complete H (Ollama c) = ollama_Complete H c"
| "client_Complete H (Gemini c) = gemini_Complete H c"

fun ModelName :: "llm_client \<Rightarrow> string" where
  "ModelName (OpenAI c) = oa_model c"
| "ModelName (Anthropic c) = ac_model c"
| "ModelName (Ollama c) = oo_model c"
| "ModelName (Gemini c) = gm_model c"

section \<open>What the requests say\<close>

text \<open>Reading a message back from its JSON form, the way a compatible service does.\<close>

definition str_field :: "(string \<rightharpoonup> jval) \<Rightarrow> string \<Rightarrow> string" where
  "str_field o' k = (case o' k of Some (JStr s) \<Rightarrow> s | _ \<Rightarrow> [])"

fun read_call :: "jval \<Rightarrow> llm_tool_call" where
  "read_call (JObj o') =
     \<lparr>lc_ID = str_field o' ''id'', lc_Type = str_field o' ''type'',
      lc_Function = (case o' ''function'' of
         Some (JObj f) \<Rightarrow> \<lparr>fc_Name = str_field f ''name'', fc_Arguments = str_field f ''arguments''\<rparr>
       | _ \<Rightarrow> \<lparr>fc_Name = [], fc_Arguments = []\<rparr>)\<rparr>"
| "read_call _ = \<lparr>lc_ID = [], lc_Type = [], lc_Function = \<lparr>fc_Name = [], fc_Arguments = []\<rparr>\<rparr>"

definition read_role :: "string \<Rightarrow> message_role" where
  "read_role s = (if s = ''system'' then RoleSystem else if s = ''assistant'' then RoleAssistant
     else if s = ''tool'' then RoleTool else RoleUser)"

fun read_message :: "jval \<Rightarrow> llm_message" where
  "read_message (JObj o') =
     \<lparr>lm_Role = read_role (str_field o' ''role''), lm_Content = str_field o' ''content'',
      lm_ToolCalls = (case o' ''tool_calls'' of Some (JArr cs) \<Rightarrow> map read_call cs | _ \<Rightarrow> []),
      lm_ToolName = str_field o' ''name'', lm_ToolID = str_field o' ''tool_call_id''\<rparr>"
| "read_message _ = plain_message RoleUser []"

text \<open>Only a tool's answer names a tool and a call.\<close>

definition linked :: "llm_message \<Rightarrow> bool" where
  "linked m \<longleftrightarrow> lm_Role m = RoleTool \<or> (lm_ToolName m = [] \<and> lm_ToolID m = [])"

lemma read_role_text [simp]: "read_role (role_text r) = r"
  by (cases r) (simp_all add: read_role_def role_text_def)

lemma read_call_written: "map read_call (case convertToOpenAIToolCalls calls of JArr cs \<Rightarrow> cs | _ \<Rightarrow> []) = calls"
  by (induction calls) (simp_all add: convertToOpenAIToolCalls_def str_field_def)

lemma convert_calls_JArr: "\<exists>cs. convertToOpenAIToolCalls calls = JArr cs \<and> map read_call cs = calls"
  using read_call_written [of calls] by (simp add: convertToOpenAIToolCalls_def)

lemma read_message_written: "linked m \<Longrightarrow> read_message (openai_message m) = m"
proof -
  assume l: "linked m"
  obtain cs where cs: "convertToOpenAIToolCalls (lm_ToolCalls m) = JArr cs" "map read_call cs = lm_ToolCalls m"
    using convert_calls_JArr by blast
  show ?thesis
    using l cs by (cases m) (auto simp: openai_message_def Let_def str_field_def linked_def)
qed

text \<open>
  C38: the request to an OpenAI-compatible service carries the whole conversation: role, text, tool calls with
  their identifiers and arguments, and the call each tool answer belongs to can be read back from it.
\<close>

theorem openai_conversation_roundtrip:
  assumes "list_all linked msgs"
  shows "(case openai_convertMessages msgs of JArr js \<Rightarrow> map read_message js | _ \<Rightarrow> []) = msgs"
  using assms by (induction msgs) (simp_all add: openai_convertMessages_def read_message_written)

lemma openai_conversation_roundtrip_witness:
  "let m = \<lparr>lm_Role = RoleTool, lm_Content = ''42'', lm_ToolCalls = [], lm_ToolName = ''calc'', lm_ToolID = ''c1''\<rparr>
   in (case openai_convertMessages [plain_message RoleUser ''hi'', m] of
         JArr js \<Rightarrow> map read_message js | _ \<Rightarrow> []) = [plain_message RoleUser ''hi'', m]"
  using openai_conversation_roundtrip [of "[plain_message RoleUser ''hi'',
    \<lparr>lm_Role = RoleTool, lm_Content = ''42'', lm_ToolCalls = [], lm_ToolName = ''calc'', lm_ToolID = ''c1''\<rparr>]"]
  by (simp add: linked_def plain_message_def)

text \<open>
  Anthropic requests have no system messages, so no system instruction reaches the service, and a tool's
  answer is sent without the identifier of its call.
\<close>

lemma anthropic_drops_system:
  "anthropic_messages msgs = map plain_json (filter (\<lambda>m. lm_Role m \<noteq> RoleSystem) msgs)"
  by (induction msgs) simp_all

lemma anthropic_tool_answers_unlinked:
  "anthropic_messages [m\<lparr>lm_ToolID := i, lm_ToolCalls := cs\<rparr>] = anthropic_messages [m]"
  by (simp add: plain_json_def)

section \<open>What the responses mean\<close>

text \<open>
  A completion comes only from a successful exchange: the request was marshalled and sent once to the
  client's endpoint, the status was 200, the body decoded and had a choice, and text, tool calls and
  token counts are those of the first choice. Every other outcome is an error with its cause.
\<close>

lemma openai_complete_sound:
  assumes "openai_Complete H c msgs tools w = (Inr r, w')"
  shows "\<exists>body data result choice rest.
     hl_Marshal H (JsonRequest (openai_buildRequestBody c msgs tools False)) = Inr body \<and>
     hl_Do H (oa_baseURL c @ oa_completionPath c) (openai_headers c) body w = (Inr (200, data), w') \<and>
     hl_DecodeOpenAI H data = Inr result \<and> op_Choices result = choice # rest \<and>
     cr_Content r = oc_Content choice \<and> cr_ToolCalls r = oc_ToolCalls choice \<and>
     u_TotalTokens (cr_Usage r) = op_TotalTokens result"
proof -
  have copy: "openai_convertToolCalls calls = calls" for calls
    by (induction calls) (simp_all add: openai_convertToolCalls_def)
  show ?thesis
    using assms
    by (auto simp: openai_Complete_def post_def send_def copy
        split: sum.splits option.splits prod.splits if_splits list.splits)
qed

definition demo_http :: "unit http_lib" where
  "demo_http =
     \<lparr>hl_Marshal = (\<lambda>_. Inr ''req''), hl_NewRequest = (\<lambda>_. None), hl_Do = (\<lambda>u h b w. (Inr (200, ''ok'', None), w)),
      hl_DecodeOpenAI = (\<lambda>_. Inr \<lparr>op_ID = [], op_Model = ''m'',
        op_Choices = [\<lparr>oc_Index = 0, oc_Role = ''assistant'', oc_Content = ''hello'', oc_ToolCalls = [], oc_FinishReason = ''stop''\<rparr>],
        op_PromptTokens = 1, op_CompletionTokens = 2, op_TotalTokens = 3\<rparr>),
      hl_DecodeAnthropic = (\<lambda>_. Inl []), hl_DecodeOllama = (\<lambda>_. Inl []), hl_DecodeGemini = (\<lambda>_. Inl []),
      hl_MarshalArgs = (\<lambda>_. ''{}'')\<rparr>"

lemma openai_complete_sound_witness:
  "\<exists>r. openai_Complete demo_http (NewOpenAIClient ''m'' ''k'' []) [] [] () = (Inr r, ()) \<and> cr_Content r = ''hello''"
proof -
  have "\<exists>r. openai_Complete demo_http (NewOpenAIClient ''m'' ''k'' []) [] [] () = (Inr r, ())"
    by (simp add: openai_Complete_def post_def send_def demo_http_def)
  then obtain r where r: "openai_Complete demo_http (NewOpenAIClient ''m'' ''k'' []) [] [] () = (Inr r, ())" by blast
  with openai_complete_sound [OF r] show ?thesis by (auto simp: demo_http_def)
qed

text \<open>An Anthropic answer: the text blocks in order, one call per tool block, the sum of the token counts.\<close>

lemma anthropic_blocks_spec:
  "anthropic_blocks bs content calls =
     (content @ concat (map ab_Text (filter (\<lambda>b. ab_Type b = ''text'') bs)),
      calls @ map (\<lambda>b. \<lparr>lc_ID = ab_ID b, lc_Type = ''function'',
        lc_Function = \<lparr>fc_Name = ab_Name b, fc_Arguments = ab_Input b\<rparr>\<rparr>) (filter (\<lambda>b. ab_Type b = ''tool_use'') bs))"
  by (induction bs content calls rule: anthropic_blocks.induct) auto

text \<open>
  An Anthropic stream that runs to its stop event yields the text deltas in order and then one final
  chunk; what comes after the stop event is not read.
\<close>

lemma anthropic_stream_text:
  assumes "list_all (\<lambda>ev. ae_Type ev \<noteq> ''message_stop'') evs" and "ae_Type stop = ''message_stop''"
  shows "anthropic_stream None (map Item evs @ Item stop # items) =
     map (\<lambda>ev. text_chunk (ae_DeltaText ev))
       (filter (\<lambda>ev. ae_Type ev = ''content_block_delta'' \<and> ae_DeltaType ev = ''text_delta'') evs) @
     [(text_chunk [])\<lparr>sk_Done := True\<rparr>]"
  using assms by (induction evs) auto

text \<open>The identifiers of Gemini's tool calls are made from the tool's name: two calls of one tool share theirs.\<close>

lemma gemini_ids_collide:
  "map lc_ID (snd (gemini_parts H [\<lparr>gp_Text = [], gp_FunctionCall = Some (n, a)\<rparr>,
     \<lparr>gp_Text = [], gp_FunctionCall = Some (n, b)\<rparr>] [] [])) = [''call_'' @ n, ''call_'' @ n]"
  by simp

text \<open>Ollama's tool calls have no identifier at all.\<close>

lemma ollama_calls_unidentified: "list_all (\<lambda>c. lc_ID c = [] \<and> lc_Type c = []) (ollama_convertToolCalls calls)"
  by (induction calls) (simp_all add: ollama_convertToolCalls_def)

text \<open>
  The client for a provider: it exists exactly for the six known names, keeps the model's name (Gemini
  has a default one), and its requests go to the address configured, if one is.
\<close>

lemma llm_New_known:
  "llm_New p m k u \<noteq> None \<longleftrightarrow> p \<in> {''openai'', ''groq'', ''anthropic'', ''minimax'', ''ollama'', ''gemini''}"
  by (auto simp: llm_New_def)

lemma llm_New_model: "llm_New p m k u = Some c \<Longrightarrow> m \<noteq> [] \<Longrightarrow> ModelName c = m"
  by (auto simp: llm_New_def NewOpenAIClient_def NewOpenAIClientWithEndpoint_def NewAnthropicClient_def
      NewOllamaClient_def NewGeminiClient_def split: if_splits)

text \<open>An unknown provider yields no client and no error.\<close>

lemma unknown_provider_is_nil: "llm_New ''mistral'' m k u = None"
  by (simp add: llm_New_def)

end
