(* ===== verification/Input_Channels.thy ===== *)
theory Input_Channels
  imports Gateway Workspace
begin

text \<open>
  The other channels through which messages reach the agent: the terminal (\<open>internal/channels/repl/repl.go\<close>),
  webhooks (\<open>internal/webhooks/webhooks.go\<close>) and WebSocket connections
  (\<open>internal/channels/websocket/websocket.go\<close>). Requests, responses and error texts are those of the
  HTTP gateway's theory; fresh identifiers are arguments.
\<close>

section \<open>The terminal\<close>

text \<open>The \<open>done\<close>, \<open>mu\<close> and \<open>scanner\<close> fields carry no state: the loop makes its own scanner over the standard input.\<close>

record repl =
  rp_userID :: string
  rp_msgChan :: "incoming_message list"
  rp_closed :: bool
  rp_shutdown :: bool

definition repl_New :: "string \<Rightarrow> repl" where
  "repl_New userID = \<lparr>rp_userID = userID, rp_msgChan = [], rp_closed = False, rp_shutdown = False\<rparr>"

definition repl_Name :: string where "repl_Name = ''repl''"

definition repl_chan_capacity :: nat where "repl_chan_capacity = 8"

text \<open>What \<open>SendMessage\<close> prints.\<close>

definition repl_SendMessage :: "outgoing_response \<Rightarrow> string" where
  "repl_SendMessage msg =
     [CHR 0x0A] @ ''['' @ repl_Name @ ''] '' @ or_Content msg @ [CHR 0x0A] @ ''> ''"

text \<open>A second shutdown closes a closed channel, a panic.\<close>

definition repl_Shutdown :: "repl \<Rightarrow> repl option" where
  "repl_Shutdown r = (if rp_shutdown r then None else Some (r\<lparr>rp_shutdown := True\<rparr>))"

definition repl_message :: "repl \<Rightarrow> string \<Rightarrow> string \<Rightarrow> incoming_message" where
  "repl_message r uid line =
     \<lparr>im_ID = uid, im_Channel = repl_Name, im_UserID = rp_userID r, im_Content = line, im_ThreadID = [],
      im_Attachments = []\<rparr>"

definition leaves_repl :: "string \<Rightarrow> bool" where
  "leaves_repl line \<longleftrightarrow> line = ''quit'' \<or> line = ''exit''"

text \<open>
  The steps of \<open>readLoop\<close>, and of those who use the channel. The shutdown is looked at before a line is
  read and while a line waits for room; in between, a line that has room may go either way when the
  shutdown has come. A line that meets the shutdown is dropped.
\<close>

datatype repl_event = RpRead string | RpDropped string | RpEnd | RpStopped | RpTaken incoming_message | RpShut

inductive repl_step :: "repl \<Rightarrow> repl_event \<Rightarrow> repl \<Rightarrow> bool" where
  rp_stops: "\<not> rp_closed r \<Longrightarrow> rp_shutdown r \<Longrightarrow> repl_step r RpStopped (r\<lparr>rp_closed := True\<rparr>)"
| rp_ends: "\<not> rp_closed r \<Longrightarrow> repl_step r RpEnd (r\<lparr>rp_closed := True\<rparr>)"
| rp_quits: "\<not> rp_closed r \<Longrightarrow> leaves_repl line \<Longrightarrow> repl_step r (RpRead line) (r\<lparr>rp_closed := True\<rparr>)"
| rp_reads: "\<not> rp_closed r \<Longrightarrow> \<not> leaves_repl line \<Longrightarrow> length (rp_msgChan r) < repl_chan_capacity \<Longrightarrow>
    repl_step r (RpRead line) (r\<lparr>rp_msgChan := rp_msgChan r @ [repl_message r uid line]\<rparr>)"
| rp_drops: "\<not> rp_closed r \<Longrightarrow> \<not> leaves_repl line \<Longrightarrow> rp_shutdown r \<Longrightarrow>
    repl_step r (RpDropped line) (r\<lparr>rp_closed := True\<rparr>)"
| rp_takes: "rp_msgChan r = m # ms \<Longrightarrow> repl_step r (RpTaken m) (r\<lparr>rp_msgChan := ms\<rparr>)"
| rp_shuts: "repl_Shutdown r = Some r' \<Longrightarrow> repl_step r RpShut r'"

text \<open>The lines the terminal handed over, in the order typed, whatever became of them.\<close>

fun lines_typed :: "repl_event list \<Rightarrow> string list" where
  "lines_typed [] = []"
| "lines_typed (RpRead l # es) = l # lines_typed es"
| "lines_typed (RpDropped l # es) = l # lines_typed es"
| "lines_typed (_ # es) = lines_typed es"

fun lines_taken :: "repl_event list \<Rightarrow> string list" where
  "lines_taken [] = []"
| "lines_taken (RpTaken m # es) = im_Content m # lines_taken es"
| "lines_taken (_ # es) = lines_taken es"

lemma lines_typed_append [simp]: "lines_typed (es @ fs) = lines_typed es @ lines_typed fs"
  by (induction es rule: lines_typed.induct) simp_all

lemma lines_taken_append [simp]: "lines_taken (es @ fs) = lines_taken es @ lines_taken fs"
  by (induction es rule: lines_taken.induct) simp_all

text \<open>The lines missing at the end: at most one, and only when a shutdown has closed the channel.\<close>

definition repl_inv :: "string \<Rightarrow> string list \<Rightarrow> repl_event list \<Rightarrow> repl \<Rightarrow> bool" where
  "repl_inv u missing es r \<longleftrightarrow>
     rp_userID r = u \<and> length (rp_msgChan r) \<le> 8 \<and>
     (rp_shutdown r \<longleftrightarrow> RpShut \<in> set es) \<and>
     lines_taken es @ map im_Content (rp_msgChan r) @ missing = filter (\<lambda>l. \<not> leaves_repl l) (lines_typed es) \<and>
     (missing = [] \<or> rp_closed r \<and> rp_shutdown r \<and> length missing = 1) \<and>
     (\<forall>m. RpTaken m \<in> set es \<or> m \<in> set (rp_msgChan r) \<longrightarrow> im_UserID m = u \<and> im_Channel m = ''repl'') \<and>
     (\<not> rp_closed r \<longrightarrow> list_all (\<lambda>l. \<not> leaves_repl l) (lines_typed es)) \<and>
     list_all (\<lambda>l. \<not> leaves_repl l) (butlast (lines_typed es))"

lemma list_all_butlast: "list_all P xs \<Longrightarrow> list_all P (butlast xs)"
  by (auto simp: list_all_iff dest: in_set_butlastD)

lemma repl_step_inv:
  assumes "repl_step r e r'" and "repl_inv u missing es r"
  shows "\<exists>missing'. repl_inv u missing' (es @ [e]) r'"
  using assms
proof (cases rule: repl_step.cases)
  case (rp_drops line)
  with assms(2) have "repl_inv u [line] (es @ [e]) r'"
    by (auto simp: repl_inv_def butlast_append list_all_butlast)
  then show ?thesis ..
next
  case (rp_reads line uid)
  with assms(2) have "repl_inv u [] (es @ [e]) r'"
    by (auto simp: repl_inv_def repl_message_def repl_Name_def repl_chan_capacity_def butlast_append list_all_butlast)
  then show ?thesis ..
next
  case (rp_quits line)
  with assms(2) have "repl_inv u missing (es @ [e]) r'"
    by (auto simp: repl_inv_def butlast_append)
  then show ?thesis ..
next
  case (rp_takes m ms)
  have typed: "lines_typed (es @ [e]) = lines_typed es" "lines_taken (es @ [e]) = lines_taken es @ [im_Content m]"
    using rp_takes(1) by simp_all
  have "repl_inv u missing (es @ [e]) r'"
    unfolding repl_inv_def typed rp_takes(1,2)
  proof (intro conjI)
    have ok: "im_UserID x = u \<and> im_Channel x = ''repl''" if "RpTaken x \<in> set es \<or> x \<in> set (m # ms)" for x
      using assms(2) that unfolding repl_inv_def rp_takes(3) by blast
    show "\<forall>x. RpTaken x \<in> set (es @ [RpTaken m]) \<or> x \<in> set (rp_msgChan (r\<lparr>rp_msgChan := ms\<rparr>)) \<longrightarrow>
        im_UserID x = u \<and> im_Channel x = ''repl''"
      using ok by simp
    show "missing = [] \<or> rp_closed (r\<lparr>rp_msgChan := ms\<rparr>) \<and> rp_shutdown (r\<lparr>rp_msgChan := ms\<rparr>) \<and> length missing = 1"
      using assms(2) unfolding repl_inv_def by simp blast
  qed (use assms(2) rp_takes(3) in \<open>simp_all add: repl_inv_def\<close>)
  then show ?thesis ..
next
  case rp_shuts
  with assms(2) have "repl_inv u missing (es @ [e]) r'" by (auto simp: repl_inv_def repl_Shutdown_def split: if_splits)
  then show ?thesis ..
qed (use assms(2) in \<open>auto simp: repl_inv_def intro!: exI [of _ missing]\<close>)



section \<open>Webhooks\<close>

record webhook_server =
  wh_port :: int
  wh_msgChan :: "incoming_message list"
  wh_shutdown :: bool

definition webhook_New :: "int \<Rightarrow> webhook_server" where
  "webhook_New port = \<lparr>wh_port = port, wh_msgChan = [], wh_shutdown = False\<rparr>"

definition webhook_Name :: string where "webhook_Name = ''webhook''"

definition webhook_SendMessage :: "outgoing_response \<Rightarrow> webhook_server \<Rightarrow> webhook_server" where
  "webhook_SendMessage msg s = s"

definition webhook_Shutdown :: "webhook_server \<Rightarrow> webhook_server option" where
  "webhook_Shutdown s = (if wh_shutdown s then None else Some (s\<lparr>wh_shutdown := True\<rparr>))"

text \<open>
  The message of a payload. The JSON value \<open>null\<close> decodes to the nil map, \<^const>\<open>None\<close>, which has no keys;
  \<open>marshal\<close> is the JSON encoder.
\<close>

definition webhook_message :: "(params option \<Rightarrow> string) \<Rightarrow> string \<Rightarrow> params option \<Rightarrow> incoming_message" where
  "webhook_message marshal uid payload =
     (let fields = (case payload of None \<Rightarrow> Map.empty | Some p \<Rightarrow> p) in
     \<lparr>im_ID = uid, im_Channel = webhook_Name,
      im_UserID = (case param_str_ok fields ''user_id'' of
                     Some u \<Rightarrow> if u \<noteq> [] then u else ''webhook'' | None \<Rightarrow> ''webhook''),
      im_Content = (case param_str_ok fields ''content'' of Some c \<Rightarrow> c | None \<Rightarrow> marshal payload),
      im_ThreadID = [], im_Attachments = []\<rparr>)"

text \<open>
  The handler: once the body has been read, the checks decide; then the message is taken if there is room, or
  the request is refused when none appears in time or the server is shutting down. The decoder reads the
  body from the connection, without a time limit: \<^const>\<open>None\<close> is a body whose value is still incomplete,
  for which no rule applies and the handler waits.
\<close>

inductive handleWebhook ::
  "(string \<Rightarrow> (string + params option) option) \<Rightarrow> (params option \<Rightarrow> string) \<Rightarrow> http_request \<Rightarrow> webhook_server \<Rightarrow>
     http_response \<Rightarrow> webhook_server \<Rightarrow> bool" for decode marshal r where
  wh_method: "hr_Method r \<noteq> ''POST'' \<Longrightarrow> handleWebhook decode marshal r s method_not_allowed s"
| wh_invalid: "hr_Method r = ''POST'' \<Longrightarrow> decode (hr_Body r) = Some (Inl err) \<Longrightarrow>
    handleWebhook decode marshal r s (http_error (''invalid json: '' @ err) 400) s"
| wh_accepted: "hr_Method r = ''POST'' \<Longrightarrow> decode (hr_Body r) = Some (Inr payload) \<Longrightarrow>
    length (wh_msgChan s) < msg_chan_capacity \<Longrightarrow>
    handleWebhook decode marshal r s (http_ok AcceptedReply)
      (s\<lparr>wh_msgChan := wh_msgChan s @ [webhook_message marshal uid payload]\<rparr>)"
| wh_full: "hr_Method r = ''POST'' \<Longrightarrow> decode (hr_Body r) = Some (Inr payload) \<Longrightarrow>
    length (wh_msgChan s) \<ge> msg_chan_capacity \<Longrightarrow>
    handleWebhook decode marshal r s (http_error (json_error ''channel full'') 503) s"
| wh_stopped: "hr_Method r = ''POST'' \<Longrightarrow> decode (hr_Body r) = Some (Inr payload) \<Longrightarrow> wh_shutdown s \<Longrightarrow>
    handleWebhook decode marshal r s (http_error (json_error ''server shutting down'') 503) s"

inductive_cases handleWebhookE: "handleWebhook decode marshal r s resp s'"

definition webhook_handleHealth :: http_response where
  "webhook_handleHealth = http_ok (ChannelHealthReply webhook_Name)"

text \<open>
  What \<open>http.ServeMux\<close> does with a path before it looks it up: it is made absolute and cleaned, and a
  slash at its end is kept.
\<close>

definition clean_url_path :: "string \<Rightarrow> string" where
  "clean_url_path p =
     (if p = [] then [slash]
      else let q = (if has_prefix p [slash] then p else slash # p); np = clean q
           in if last q = slash \<and> np \<noteq> [slash] then np @ [slash] else np)"

text \<open>
  The multiplexer of \<open>Start\<close>, for paths without escapes: two patterns; a redirect to the cleaned path where that
  differs (permanent in older releases of the library, temporary in newer ones; \<open>CONNECT\<close> is exempt), the
  library's own answer to the target \<open>*\<close>, and the default answer elsewhere. The library writes the body
  of its own answers.
\<close>

inductive webhook_serve ::
  "(string \<Rightarrow> (string + params option) option) \<Rightarrow> (params option \<Rightarrow> string) \<Rightarrow> http_request \<Rightarrow> webhook_server \<Rightarrow>
     http_response \<Rightarrow> webhook_server \<Rightarrow> bool" for decode marshal r where
  ws_hook: "hr_Path r = ''/webhook'' \<Longrightarrow> handleWebhook decode marshal r s resp s' \<Longrightarrow>
    webhook_serve decode marshal r s resp s'"
| ws_health: "hr_Path r = ''/webhook/health'' \<Longrightarrow> webhook_serve decode marshal r s webhook_handleHealth s"
| ws_star: "hr_Path r = ''*'' \<Longrightarrow> code = 200 \<or> code = 400 \<Longrightarrow>
    webhook_serve decode marshal r s \<lparr>rs_Status = code, rs_Body = b\<rparr> s"
| ws_redirect: "hr_Path r \<noteq> ''*'' \<Longrightarrow> hr_Method r \<noteq> ''CONNECT'' \<Longrightarrow> clean_url_path (hr_Path r) \<noteq> hr_Path r \<Longrightarrow>
    code = 301 \<or> code = 307 \<Longrightarrow> webhook_serve decode marshal r s \<lparr>rs_Status = code, rs_Body = b\<rparr> s"
| ws_other: "hr_Path r \<noteq> ''*'' \<Longrightarrow> hr_Method r = ''CONNECT'' \<or> clean_url_path (hr_Path r) = hr_Path r \<Longrightarrow>
    hr_Path r \<noteq> ''/webhook'' \<Longrightarrow> hr_Path r \<noteq> ''/webhook/health'' \<Longrightarrow>
    webhook_serve decode marshal r s not_found s"

text \<open>
  A webhook call is answered with status 200 exactly when its message was queued, with a user and under the
  webhook channel; every other answer leaves the server as it was, and the queue stays within
  its capacity.
\<close>

lemma webhook_accepted_iff_queued:
  assumes "handleWebhook decode marshal r s resp s'" and "length (wh_msgChan s) \<le> 64"
  shows "(rs_Status resp = 200 \<longleftrightarrow> (\<exists>m. wh_msgChan s' = wh_msgChan s @ [m] \<and> im_UserID m \<noteq> [] \<and> im_Channel m = ''webhook'')) \<and>
    (rs_Status resp \<noteq> 200 \<longrightarrow> s' = s) \<and> length (wh_msgChan s') \<le> 64"
  using assms(1)
proof (cases rule: handleWebhook.cases)
  case (wh_accepted payload uid)
  with assms(2) show ?thesis
    by (auto simp: http_ok_def webhook_message_def webhook_Name_def msg_chan_capacity_def Let_def split: option.splits)
qed (use assms(2) in \<open>auto simp: method_not_allowed_def http_error_def\<close>)

lemma webhook_accepted_iff_queued_witness:
  "\<exists>r s'. handleWebhook (\<lambda>_. Some (Inr (Some [''content'' \<mapsto> JStr ''ping'']))) (\<lambda>_. []) r (webhook_New 1) (http_ok AcceptedReply) s' \<and>
     map im_Content (wh_msgChan s') = [''ping''] \<and> length (wh_msgChan s') \<le> 64"
proof -
  let ?r = "\<lparr>hr_Method = ''POST'', hr_Path = ''/webhook'', hr_Query = (\<lambda>_. []), hr_Header = (\<lambda>_. []), hr_Body = []\<rparr>"
  let ?d = "\<lambda>_ :: string. Some (Inr (Some [''content'' \<mapsto> JStr ''ping''])) :: (string + params option) option"
  let ?s = "(webhook_New 1)\<lparr>wh_msgChan := [webhook_message (\<lambda>_. []) ''1'' (Some [''content'' \<mapsto> JStr ''ping''])]\<rparr>"
  have h: "handleWebhook ?d (\<lambda>_. []) ?r (webhook_New 1) (http_ok AcceptedReply) ?s"
    using wh_accepted [of ?r ?d "Some [''content'' \<mapsto> JStr ''ping'']" "webhook_New 1" "\<lambda>_. []" "''1''"]
    by (simp add: webhook_New_def msg_chan_capacity_def)
  show ?thesis
    using webhook_accepted_iff_queued [OF h] h
    by (intro exI [of _ ?r] exI [of _ ?s]) (simp add: webhook_New_def webhook_message_def param_str_ok_def)
qed

lemma response_statuses:
  "rs_Status (http_error txt n) = n" "rs_Status (http_ok bdy) = 200" "rs_Status method_not_allowed = 405"
  by (simp_all add: http_error_def http_ok_def method_not_allowed_def)

lemma library_answer:
  "(\<exists>resp. rs_Status resp = n \<and> (\<exists>code. (\<exists>bdy. resp = \<lparr>rs_Status = code, rs_Body = bdy\<rparr>) \<and> P code)) \<longleftrightarrow> P n"
proof
  show "P n \<Longrightarrow> \<exists>resp. rs_Status resp = n \<and> (\<exists>code. (\<exists>bdy. resp = \<lparr>rs_Status = code, rs_Body = bdy\<rparr>) \<and> P code)"
    by (intro exI [of _ "\<lparr>rs_Status = n, rs_Body = AcceptedReply\<rparr>"]) auto
qed auto

lemma handle_statuses:
  "(\<exists>resp. c = rs_Status resp \<and> (\<exists>s'. handleWebhook decode marshal r s resp s')) \<longleftrightarrow>
     hr_Method r \<noteq> ''POST'' \<and> c = 405 \<or>
     hr_Method r = ''POST'' \<and>
       ((\<exists>err. decode (hr_Body r) = Some (Inl err)) \<and> c = 400 \<or>
        (\<exists>payload. decode (hr_Body r) = Some (Inr payload)) \<and>
          (length (wh_msgChan s) < 64 \<and> c = 200 \<or> 64 \<le> length (wh_msgChan s) \<and> c = 503 \<or> wh_shutdown s \<and> c = 503))"
  (is "?L \<longleftrightarrow> ?R")
proof
  assume ?L
  then show ?R
    by (auto elim!: handleWebhookE simp: response_statuses msg_chan_capacity_def)
next
  assume ?R
  then consider "hr_Method r \<noteq> ''POST''" "c = 405"
    | err where "hr_Method r = ''POST''" "decode (hr_Body r) = Some (Inl err)" "c = 400"
    | p where "hr_Method r = ''POST''" "decode (hr_Body r) = Some (Inr p)" "length (wh_msgChan s) < 64" "c = 200"
    | p where "hr_Method r = ''POST''" "decode (hr_Body r) = Some (Inr p)" "64 \<le> length (wh_msgChan s)" "c = 503"
    | p where "hr_Method r = ''POST''" "decode (hr_Body r) = Some (Inr p)" "wh_shutdown s" "c = 503" by blast
  then show ?L
  proof cases
    case 1
    then show ?thesis by (metis wh_method response_statuses(3))
  next
    case 2
    then show ?thesis by (metis wh_invalid response_statuses(1))
  next
    case 3
    then show ?thesis by (metis wh_accepted response_statuses(2) msg_chan_capacity_def)
  next
    case 4
    then show ?thesis by (metis wh_full response_statuses(1) msg_chan_capacity_def)
  next
    case 5
    then show ?thesis by (metis wh_stopped response_statuses(1))
  qed
qed

text \<open>
  C37: which answers the webhook server gives to a request, by its path, its method, its body and the state of
  the server: 405 to anything but a \<open>POST\<close> to \<open>/webhook\<close>, 400 to a body that does not decode, 200 only when
  the queue has room, 503 only when it is full or the server is shutting down; 200 to the health path, a
  redirect from a path that is not clean, 200 or 400 to the path \<open>*\<close>, and 404 elsewhere. So every request has an answer, and no
  full queue or shutdown holds one up for ever, except a \<open>POST\<close> to \<open>/webhook\<close> whose body stays
  incomplete.
\<close>

theorem webhook_answers:
  "{rs_Status resp |resp s'. webhook_serve decode marshal r s resp s'} =
     (if hr_Path r = ''/webhook'' then
        (if hr_Method r \<noteq> ''POST'' then {405}
         else case decode (hr_Body r) of
                None \<Rightarrow> {}
              | Some (Inl err) \<Rightarrow> {400}
              | Some (Inr payload) \<Rightarrow>
                  (if length (wh_msgChan s) < 64 then {200} else {503}) \<union> (if wh_shutdown s then {503} else {}))
      else if hr_Path r = ''/webhook/health'' then {200}
      else if hr_Path r = ''*'' then {200, 400}
      else if hr_Method r \<noteq> ''CONNECT'' \<and> clean_url_path (hr_Path r) \<noteq> hr_Path r then {301, 307}
      else {404})"
proof -
  have hook: "{rs_Status resp |resp s'. handleWebhook decode marshal r s resp s'} =
     (if hr_Method r \<noteq> ''POST'' then {405}
      else case decode (hr_Body r) of
             None \<Rightarrow> {}
           | Some (Inl err) \<Rightarrow> {400}
           | Some (Inr payload) \<Rightarrow>
               (if length (wh_msgChan s) < 64 then {200} else {503}) \<union> (if wh_shutdown s then {503} else {}))"
    by (rule set_eqI) (auto simp: handle_statuses split: option.splits sum.splits)
  have clean: "clean_url_path ''/webhook'' = ''/webhook''" "clean_url_path ''/webhook/health'' = ''/webhook/health''"
    by code_simp+
  consider "hr_Path r = ''/webhook''" | "hr_Path r = ''/webhook/health''" | "hr_Path r = ''*''"
    | "hr_Path r \<notin> {''/webhook'', ''/webhook/health'', ''*''}" by blast
  then show ?thesis
  proof cases
    case 1
    then have "webhook_serve decode marshal r s resp s' \<longleftrightarrow> handleWebhook decode marshal r s resp s'" for resp s'
      by (simp add: webhook_serve.simps clean)
    with 1 hook show ?thesis by simp
  next
    case 2
    then show ?thesis by (simp add: webhook_serve.simps clean webhook_handleHealth_def http_ok_def)
  next
    case 3
    then show ?thesis by (auto simp: webhook_serve.simps library_answer)
  next
    case 4
    then show ?thesis by (auto simp: webhook_serve.simps not_found_def http_error_def library_answer)
  qed
qed

text \<open>A body that never completes keeps the handler of a call waiting.\<close>

lemma incomplete_body_waits:
  assumes "hr_Path r = ''/webhook''" and "hr_Method r = ''POST''" and "decode (hr_Body r) = None"
  shows "\<not> webhook_serve decode marshal r s resp s'"
proof -
  have "clean_url_path ''/webhook'' = ''/webhook''" by code_simp
  with assms show ?thesis by (simp add: webhook_serve.simps handleWebhook.simps)
qed

section \<open>WebSocket connections\<close>

record ws_msg =
  wm_UserID :: string
  wm_Content :: string
  wm_ThreadID :: string
  wm_APIKey :: string

text \<open>The frames written to a connection are kept per connection, to say who received what.\<close>

record ws_channel =
  ws_port :: int
  ws_msgChan :: "incoming_message list"
  ws_clients :: "string set"
  ws_shutdown :: bool
  ws_authenticator :: "(string \<Rightarrow> string + string) option"
  ws_written :: "string \<Rightarrow> ws_msg list"

definition websocket_New :: "int \<Rightarrow> ws_channel" where
  "websocket_New port =
     \<lparr>ws_port = port, ws_msgChan = [], ws_clients = {}, ws_shutdown = False, ws_authenticator = None,
      ws_written = (\<lambda>_. [])\<rparr>"

definition websocket_Name :: string where "websocket_Name = ''websocket''"

definition websocket_WithAuth :: "(string \<Rightarrow> string + string) \<Rightarrow> ws_channel \<Rightarrow> ws_channel" where
  "websocket_WithAuth a c = c\<lparr>ws_authenticator := Some a\<rparr>"

definition ws_write :: "string set \<Rightarrow> ws_msg \<Rightarrow> ws_channel \<Rightarrow> ws_channel" where
  "ws_write S m c = c\<lparr>ws_written := (\<lambda>i. if i \<in> S then ws_written c i @ [m] else ws_written c i)\<rparr>"

text \<open>\<open>SendMessage\<close> writes to every connection; \<open>broken\<close> are those whose write fails, which is ignored.\<close>

definition websocket_SendMessage :: "string set \<Rightarrow> outgoing_response \<Rightarrow> ws_channel \<Rightarrow> ws_channel" where
  "websocket_SendMessage broken msg c =
     ws_write (ws_clients c - broken)
       \<lparr>wm_UserID = [], wm_Content = or_Content msg, wm_ThreadID = or_ThreadID msg, wm_APIKey = []\<rparr> c"

definition websocket_Shutdown :: "ws_channel \<Rightarrow> ws_channel option" where
  "websocket_Shutdown c =
     (if ws_shutdown c then None else Some (c\<lparr>ws_shutdown := True, ws_clients := {}\<rparr>))"

text \<open>The user of a message, or the refusal.\<close>

definition ws_user :: "string \<Rightarrow> ws_msg \<Rightarrow> ws_channel \<Rightarrow> string option" where
  "ws_user connID msg c =
     (case ws_authenticator c of
        None \<Rightarrow> Some (or_else (wm_UserID msg) connID)
      | Some a \<Rightarrow> (case a (wm_APIKey msg) of Inl err \<Rightarrow> None | Inr u \<Rightarrow> Some (or_else u connID)))"

definition ws_incoming :: "string \<Rightarrow> string \<Rightarrow> ws_msg \<Rightarrow> incoming_message" where
  "ws_incoming uid userID msg =
     \<lparr>im_ID = uid, im_Channel = websocket_Name, im_UserID = userID, im_Content = wm_Content msg,
      im_ThreadID = wm_ThreadID msg, im_Attachments = []\<rparr>"

definition ws_unauthorized :: ws_msg where
  "ws_unauthorized = \<lparr>wm_UserID = [], wm_Content = ''unauthorized'', wm_ThreadID = [], wm_APIKey = []\<rparr>"

definition ws_leave :: "string \<Rightarrow> ws_channel \<Rightarrow> ws_channel" where
  "ws_leave connID c = c\<lparr>ws_clients := ws_clients c - {connID}\<rparr>"

text \<open>One turn of a connection's loop with a frame that was received; \<^const>\<open>None\<close> waits for room in the queue.\<close>

definition handleConn_turn :: "string \<Rightarrow> string \<Rightarrow> ws_msg \<Rightarrow> ws_channel \<Rightarrow> ws_channel option" where
  "handleConn_turn connID uid msg c =
     (if ws_shutdown c then Some (ws_leave connID c)
      else if wm_Content msg = [] then Some c
      else case ws_user connID msg c of
        None \<Rightarrow> Some (ws_leave connID (ws_write {connID} ws_unauthorized c))
      | Some userID \<Rightarrow>
          if length (ws_msgChan c) < msg_chan_capacity
          then Some (c\<lparr>ws_msgChan := ws_msgChan c @ [ws_incoming uid userID msg]\<rparr>) else None)"

definition websocket_handleHealth :: "ws_channel \<Rightarrow> http_response" where
  "websocket_handleHealth c =
     http_ok (SocketHealthReply websocket_Name (card (ws_clients c))
       (''ws://localhost:'' @ show_int (ws_port c) @ ''/ws''))"

datatype ws_event = WsConnected string | WsFrame string ws_msg | WsClosed string | WsTaken incoming_message
  | WsSent outgoing_response | WsShut

inductive ws_step :: "ws_channel \<Rightarrow> ws_event \<Rightarrow> ws_channel \<Rightarrow> bool" where
  ws_connects: "connID \<noteq> [] \<Longrightarrow> ws_step c (WsConnected connID) (c\<lparr>ws_clients := insert connID (ws_clients c)\<rparr>)"
| ws_frame: "connID \<in> ws_clients c \<Longrightarrow> connID \<noteq> [] \<Longrightarrow> handleConn_turn connID uid msg c = Some c' \<Longrightarrow>
    ws_step c (WsFrame connID msg) c'"
| ws_closes: "ws_step c (WsClosed connID) (ws_leave connID c)"
| ws_takes: "ws_msgChan c = m # ms \<Longrightarrow> ws_step c (WsTaken m) (c\<lparr>ws_msgChan := ms\<rparr>)"
| ws_sends: "ws_step c (WsSent msg) (websocket_SendMessage broken msg c)"
| ws_shuts: "websocket_Shutdown c = Some c' \<Longrightarrow> ws_step c WsShut c'"

text \<open>
  With an authenticator, every queued message belongs to a user the authenticator vouched for (or, where
  it vouched for the empty name, to a connection), and the queue stays within its capacity.
\<close>

definition ws_vouched :: "(string \<Rightarrow> string + string) \<Rightarrow> incoming_message \<Rightarrow> bool" where
  "ws_vouched a m \<longleftrightarrow>
     im_Channel m = ''websocket'' \<and> im_Content m \<noteq> [] \<and> im_UserID m \<noteq> [] \<and>
     (\<exists>key. a key = Inr (im_UserID m) \<or> a key = Inr [])"

definition ws_inv :: "(string \<Rightarrow> string + string) \<Rightarrow> ws_channel \<Rightarrow> bool" where
  "ws_inv a c \<longleftrightarrow> ws_authenticator c = Some a \<and> length (ws_msgChan c) \<le> 64 \<and>
     (\<forall>m \<in> set (ws_msgChan c). ws_vouched a m)"

lemma ws_user_vouched:
  assumes "ws_authenticator c = Some a" and "ws_user connID msg c = Some u" and "connID \<noteq> []" and "wm_Content msg \<noteq> []"
  shows "ws_vouched a (ws_incoming uid u msg)"
  using assms by (auto simp: ws_user_def ws_vouched_def ws_incoming_def websocket_Name_def or_else_def
      split: sum.splits if_splits)

lemma ws_step_inv: "ws_step c e c' \<Longrightarrow> ws_inv a c \<Longrightarrow> ws_inv a c'"
proof (induction rule: ws_step.induct)
  case (ws_frame connID c uid msg c')
  then show ?case
    using ws_user_vouched [of c a connID msg]
    by (auto simp: ws_inv_def handleConn_turn_def ws_leave_def ws_write_def msg_chan_capacity_def
        split: if_splits option.splits)
qed (auto simp: ws_inv_def ws_leave_def websocket_SendMessage_def ws_write_def websocket_Shutdown_def split: if_splits)

interpretation ws_runs: step_invariant "\<lambda>c. \<exists>port. c = websocket_WithAuth a (websocket_New port)" ws_step "ws_inv a"
  for a
proof
  show "ws_inv a c" if "\<exists>port. c = websocket_WithAuth a (websocket_New port)" for c
    using that by (auto simp: ws_inv_def websocket_WithAuth_def websocket_New_def)
qed (rule ws_step_inv)

text \<open>
  With an authenticator, every message a WebSocket connection queues has content and a user, and that user
  was vouched for by the authenticator for some key: the name a client claims is not used.
\<close>

lemma websocket_users_vouched:
  assumes "run ws_step (websocket_WithAuth a (websocket_New port)) es c" and "m \<in> set (ws_msgChan c)"
  shows "im_UserID m \<noteq> [] \<and> im_Content m \<noteq> [] \<and> (\<exists>key. a key = Inr (im_UserID m) \<or> a key = Inr []) \<and>
    length (ws_msgChan c) \<le> 64"
proof -
  have "ws_inv a c" by (rule ws_runs.run_inv [OF _ assms(1)]) blast
  with assms(2) show ?thesis by (auto simp: ws_inv_def ws_vouched_def)
qed

lemma websocket_users_vouched_witness:
  "\<exists>es c m. run ws_step (websocket_WithAuth (\<lambda>k. if k = ''key'' then Inr ''ann'' else Inl ''no'') (websocket_New 1)) es c \<and>
     ws_msgChan c = [m] \<and> im_UserID m = ''ann'' \<and> im_Content m = ''hi''"
proof -
  let ?a = "\<lambda>k. if k = ''key'' then Inr ''ann'' else (Inl ''no'' :: string + string)"
  let ?c0 = "websocket_WithAuth ?a (websocket_New 1)"
  let ?c1 = "?c0\<lparr>ws_clients := {''c''}\<rparr>"
  let ?f = "\<lparr>wm_UserID = ''eve'', wm_Content = ''hi'', wm_ThreadID = [], wm_APIKey = ''key''\<rparr>"
  let ?m = "ws_incoming ''1'' ''ann'' ?f"
  have "ws_step ?c0 (WsConnected ''c'') ?c1"
    using ws_connects [of "''c''" ?c0] by (simp add: websocket_WithAuth_def websocket_New_def)
  moreover have "ws_step ?c1 (WsFrame ''c'' ?f) (?c1\<lparr>ws_msgChan := [?m]\<rparr>)"
    by (rule ws_frame [of _ _ "''1''"])
       (simp_all add: handleConn_turn_def ws_user_def or_else_def websocket_WithAuth_def websocket_New_def msg_chan_capacity_def)
  ultimately have r: "run ws_step ?c0 [WsConnected ''c'', WsFrame ''c'' ?f] (?c1\<lparr>ws_msgChan := [?m]\<rparr>)"
    by (blast intro: run_Cons run.run_nil)
  have "im_UserID ?m \<noteq> [] \<and> im_Content ?m \<noteq> []" using websocket_users_vouched [OF r, of ?m] by simp
  with r show ?thesis
    by (intro exI [of _ "[WsConnected ''c'', WsFrame ''c'' ?f]"] exI [of _ "?c1\<lparr>ws_msgChan := [?m]\<rparr>"] exI [of _ ?m])
       (simp add: ws_incoming_def)
qed

text \<open>Every connected client receives every response, whoever it was meant for.\<close>

lemma websocket_broadcasts:
  "i \<in> ws_clients c \<Longrightarrow> i \<notin> broken \<Longrightarrow>
     \<exists>m. ws_written (websocket_SendMessage broken msg c) i = ws_written c i @ [m] \<and> wm_Content m = or_Content msg"
  by (auto simp: websocket_SendMessage_def ws_write_def)

end
