(* ===== verification/Postgres_DB.thy ===== *)
theory Postgres_DB
  imports Memory_DB "HOL-Library.Multiset"
begin

text \<open>
  The PostgreSQL back end, \<open>internal/db/postgres.go\<close>: the tables its \<open>migrate\<close> declares and the effect of
  the SQL statements of its methods on them. A table is the list of its rows in the order the server
  stored them; \<open>WHERE\<close> filters, \<open>UPDATE\<close> maps, \<open>INSERT\<close> appends unless a constraint forbids it, and
  \<open>ORDER BY\<close> sorts rows the server visits in an order of its own.

  What the statements leave to the server and the driver is the record \<open>pg_engine\<close>, an argument of every
  method, so each call may meet another behaviour: whether a statement fails and whether it had taken
  effect by then, the clock behind \<open>NOW()\<close>, the precision of a stored time, the order in which rows are
  visited, and the JSON codec.
\<close>

section \<open>Tables\<close>

record setting_row =
  sr_user_id :: string
  sr_key :: string
  sr_value :: string
  sr_updated_at :: instant

record message_row =
  mr_id :: string
  mr_thread_id :: string
  mr_user_id :: string
  mr_role :: string
  mr_content :: string
  mr_tool_calls :: string
  mr_created_at :: instant

record action_row =
  cr_id :: string
  cr_job_id :: string
  cr_tool_name :: string
  cr_input :: string
  cr_output :: string
  cr_error :: string
  cr_duration_ms :: int
  cr_created_at :: instant

text \<open>
  The rows of \<open>conversations\<close> and \<open>jobs\<close> have the columns of the Go structures \<^typ>\<open>conversation\<close> (without its
  messages, which are left empty) and \<^typ>\<open>job\<close>.
\<close>

record pg_db =
  t_settings :: "setting_row list"
  t_conversations :: "conversation list"
  t_messages :: "message_row list"
  t_jobs :: "job list"
  t_action_records :: "action_row list"

text \<open>\<open>migrate\<close> on an empty database; on one that has the tables it changes nothing.\<close>

definition migrated :: pg_db where
  "migrated = \<lparr>t_settings = [], t_conversations = [], t_messages = [], t_jobs = [], t_action_records = []\<rparr>"

definition migrate :: "pg_db option \<Rightarrow> pg_db" where
  "migrate d = (case d of None \<Rightarrow> migrated | Some d \<Rightarrow> d)"

section \<open>The server and the driver\<close>

record pg_engine =
  pe_fault :: "nat \<Rightarrow> (string \<times> bool) option"
  pe_rows_fault :: "string option"
  pe_violation :: string
  pe_now :: instant
  pe_time :: "instant \<Rightarrow> instant"
  pe_marshal :: "tool_call list \<Rightarrow> string + string"
  pe_jsonb :: "string \<Rightarrow> string"
  pe_unmarshal :: "string \<Rightarrow> tool_call list"
  pe_visit_conversations :: "conversation list \<Rightarrow> conversation list"
  pe_visit_messages :: "message_row list \<Rightarrow> message_row list"
  pe_visit_jobs :: "job list \<Rightarrow> job list"
  pe_visit_actions :: "action_row list \<Rightarrow> action_row list"

text \<open>
  The \<open>n\<close>-th statement of a method, which would change the tables from \<open>d\<close> to \<open>d'\<close>: a fault is an error,
  with or without the effect; a violated constraint is an error without it.
\<close>

definition sql_exec :: "pg_engine \<Rightarrow> nat \<Rightarrow> bool \<Rightarrow> pg_db \<Rightarrow> pg_db \<Rightarrow> string option \<times> pg_db" where
  "sql_exec E n violated d d' =
     (case pe_fault E n of
        Some (err, applied) \<Rightarrow> (Some err, if applied \<and> \<not> violated then d' else d)
      | None \<Rightarrow> if violated then (Some (pe_violation E), d) else (None, d'))"

definition wrapped :: "string \<Rightarrow> string option \<times> 'd \<Rightarrow> string option \<times> 'd" where
  "wrapped pre r = (map_option (\<lambda>err. pre @ err) (fst r), snd r)"

text \<open>\<open>QueryRow(..).Scan\<close>: a fault, no row, or the first row.\<close>

definition sql_row :: "pg_engine \<Rightarrow> string \<Rightarrow> string \<Rightarrow> 'r option \<Rightarrow> string + 'r" where
  "sql_row E pre missing r =
     (case pe_fault E 0 of
        Some (err, _) \<Rightarrow> Inl (pre @ err)
      | None \<Rightarrow> (case r of None \<Rightarrow> Inl missing | Some x \<Rightarrow> Inr x))"

text \<open>
  \<open>Query\<close> and the loop over its rows: a fault of the query is wrapped, one while the rows arrive is not; a
  negative \<open>OFFSET\<close> is an error of the server.
\<close>

definition sql_rows :: "pg_engine \<Rightarrow> string \<Rightarrow> bool \<Rightarrow> 'r list \<Rightarrow> string + 'r list" where
  "sql_rows E pre bad rows =
     (case pe_fault E 0 of
        Some (err, _) \<Rightarrow> Inl (pre @ err)
      | None \<Rightarrow>
          if bad then Inl (pe_violation E)
          else (case pe_rows_fault E of Some err \<Rightarrow> Inl err | None \<Rightarrow> Inr rows))"

definition limit_offset :: "int \<Rightarrow> int \<Rightarrow> 'r list \<Rightarrow> 'r list" where
  "limit_offset limit offset rows = take (nat limit) (drop (nat offset) rows)"

section \<open>Opening\<close>

definition int32 :: "int \<Rightarrow> int" where
  "int32 x = (x + 2 ^ 31) mod 2 ^ 32 - 2 ^ 31"

record pg_pool_config =
  pc_MaxConns :: int
  pc_MinConns :: int

text \<open>
  \<open>parse\<close> is \<open>pgxpool.ParseConfig\<close>, \<open>connect\<close> is \<open>pgxpool.NewWithConfig\<close>; the error of the migration and the
  tables found come from the server.
\<close>

definition NewPostgresDB ::
  "(string \<Rightarrow> string + pg_pool_config) \<Rightarrow> (pg_pool_config \<Rightarrow> string option) \<Rightarrow> string option \<Rightarrow> pg_db option \<Rightarrow>
     string \<Rightarrow> int \<Rightarrow> int \<Rightarrow> string + pg_pool_config \<times> pg_db" where
  "NewPostgresDB parse connect failed found dsn maxConns minConns =
     (case parse dsn of
        Inl err \<Rightarrow> Inl (''parse dsn: '' @ err)
      | Inr cfg \<Rightarrow>
          (let cfg1 = (if maxConns > 0 then cfg\<lparr>pc_MaxConns := int32 maxConns\<rparr> else cfg);
               cfg2 = (if minConns > 0 then cfg1\<lparr>pc_MinConns := int32 minConns\<rparr> else cfg1)
           in case connect cfg2 of
                Some err \<Rightarrow> Inl (''connect: '' @ err)
              | None \<Rightarrow>
                  (case failed of
                     Some err \<Rightarrow> Inl (''migrate: '' @ err)
                   | None \<Rightarrow> Inr (cfg2, migrate found))))"

section \<open>Settings\<close>

definition is_setting :: "string \<Rightarrow> string \<Rightarrow> setting_row \<Rightarrow> bool" where
  "is_setting userID key r \<longleftrightarrow> sr_user_id r = userID \<and> sr_key r = key"

definition pg_GetSetting :: "pg_engine \<Rightarrow> string \<Rightarrow> string \<Rightarrow> pg_db \<Rightarrow> string + string" where
  "pg_GetSetting E userID key d =
     sql_row E ''get setting: '' (''setting not found for user '' @ userID @ '' key '' @ key)
       (map_option sr_value (find (is_setting userID key) (t_settings d)))"

definition upsert_setting :: "pg_engine \<Rightarrow> string \<Rightarrow> string \<Rightarrow> string \<Rightarrow> setting_row list \<Rightarrow> setting_row list" where
  "upsert_setting E userID key val rows =
     (if \<exists>r \<in> set rows. is_setting userID key r
      then map (\<lambda>r. if is_setting userID key r then r\<lparr>sr_value := val, sr_updated_at := pe_time E (pe_now E)\<rparr> else r) rows
      else rows @ [\<lparr>sr_user_id = userID, sr_key = key, sr_value = val, sr_updated_at = pe_time E (pe_now E)\<rparr>])"

definition pg_SetSetting :: "pg_engine \<Rightarrow> string \<Rightarrow> string \<Rightarrow> string \<Rightarrow> pg_db \<Rightarrow> string option \<times> pg_db" where
  "pg_SetSetting E userID key val d =
     wrapped ''set setting: ''
       (sql_exec E 0 False d (d\<lparr>t_settings := upsert_setting E userID key val (t_settings d)\<rparr>))"

definition pg_DeleteSetting :: "pg_engine \<Rightarrow> string \<Rightarrow> string \<Rightarrow> pg_db \<Rightarrow> string option \<times> pg_db" where
  "pg_DeleteSetting E userID key d =
     wrapped ''delete setting: ''
       (sql_exec E 0 False d (d\<lparr>t_settings := filter (\<lambda>r. \<not> is_setting userID key r) (t_settings d)\<rparr>))"

section \<open>Conversations\<close>

text \<open>A new row keeps both times; a conflicting one keeps its \<open>created_at\<close>.\<close>

definition upsert_conversation :: "pg_engine \<Rightarrow> conversation \<Rightarrow> conversation list \<Rightarrow> conversation list" where
  "upsert_conversation E c rows =
     (if \<exists>r \<in> set rows. cv_ID r = cv_ID c
      then map (\<lambda>r. if cv_ID r = cv_ID c
                    then r\<lparr>cv_UserID := cv_UserID c, cv_Channel := cv_Channel c, cv_Title := cv_Title c,
                           cv_UpdatedAt := pe_time E (cv_UpdatedAt c)\<rparr>
                    else r) rows
      else rows @ [c\<lparr>cv_Messages := [], cv_CreatedAt := pe_time E (cv_CreatedAt c),
                     cv_UpdatedAt := pe_time E (cv_UpdatedAt c)\<rparr>])"

definition pg_SaveConversation :: "pg_engine \<Rightarrow> instant \<Rightarrow> conversation \<Rightarrow> pg_db \<Rightarrow> string option \<times> pg_db" where
  "pg_SaveConversation E now c d =
     wrapped ''save conversation: ''
       (sql_exec E 0 False d
         (d\<lparr>t_conversations := upsert_conversation E (stamp_conversation now c) (t_conversations d)\<rparr>))"

definition pg_GetConversation :: "pg_engine \<Rightarrow> string \<Rightarrow> pg_db \<Rightarrow> string + conversation" where
  "pg_GetConversation E i d =
     sql_row E ''get conversation: '' (''conversation '' @ i @ '' not found'')
       (find (\<lambda>r. cv_ID r = i) (t_conversations d))"

definition pg_ListConversations ::
  "pg_engine \<Rightarrow> string \<Rightarrow> int \<Rightarrow> int \<Rightarrow> pg_db \<Rightarrow> string + conversation list" where
  "pg_ListConversations E userID limit offset d =
     (let limit = (if limit \<le> 0 then 100 else limit) in
      sql_rows E ''list conversations: '' (offset < 0)
        (limit_offset limit offset
          (sort_key (\<lambda>r. - cv_UpdatedAt r)
            (pe_visit_conversations E (filter (\<lambda>r. cv_UserID r = userID) (t_conversations d))))))"

text \<open>The messages of a deleted conversation go with it: the reference is declared \<open>ON DELETE CASCADE\<close>.\<close>

definition drop_conversation :: "string \<Rightarrow> pg_db \<Rightarrow> pg_db" where
  "drop_conversation i d =
     (if \<exists>r \<in> set (t_conversations d). cv_ID r = i
      then d\<lparr>t_conversations := filter (\<lambda>r. cv_ID r \<noteq> i) (t_conversations d),
             t_messages := filter (\<lambda>r. mr_thread_id r \<noteq> i) (t_messages d)\<rparr>
      else d)"

definition pg_DeleteConversation :: "pg_engine \<Rightarrow> string \<Rightarrow> pg_db \<Rightarrow> string option \<times> pg_db" where
  "pg_DeleteConversation E i d =
     wrapped ''delete conversation: '' (sql_exec E 0 False d (drop_conversation i d))"

section \<open>Messages\<close>

definition message_row_of :: "pg_engine \<Rightarrow> message \<Rightarrow> string \<Rightarrow> message_row" where
  "message_row_of E msg js =
     \<lparr>mr_id = msg_ID msg, mr_thread_id = msg_ThreadID msg, mr_user_id = msg_UserID msg, mr_role = msg_Role msg,
      mr_content = msg_Content msg, mr_tool_calls = pe_jsonb E js, mr_created_at = pe_time E (msg_CreatedAt msg)\<rparr>"

definition message_violates :: "message \<Rightarrow> pg_db \<Rightarrow> bool" where
  "message_violates msg d \<longleftrightarrow>
     (\<exists>r \<in> set (t_messages d). mr_id r = msg_ID msg) \<or>
     \<not> (\<exists>c \<in> set (t_conversations d). cv_ID c = msg_ThreadID msg)"

definition touch_conversation :: "pg_engine \<Rightarrow> string \<Rightarrow> pg_db \<Rightarrow> pg_db" where
  "touch_conversation E i d =
     d\<lparr>t_conversations := map (\<lambda>r. if cv_ID r = i then r\<lparr>cv_UpdatedAt := pe_time E (pe_now E)\<rparr> else r) (t_conversations d)\<rparr>"

text \<open>The error of the second statement, which refreshes the conversation, is ignored.\<close>

definition pg_SaveMessage :: "pg_engine \<Rightarrow> instant \<Rightarrow> message \<Rightarrow> pg_db \<Rightarrow> string option \<times> pg_db" where
  "pg_SaveMessage E now msg0 d =
     (let msg = stamp_message now msg0 in
      case pe_marshal E (msg_ToolCalls msg) of
        Inl err \<Rightarrow> (Some (''marshal tool calls: '' @ err), d)
      | Inr js \<Rightarrow>
          (case sql_exec E 0 (message_violates msg d) d
                  (d\<lparr>t_messages := t_messages d @ [message_row_of E msg js]\<rparr>) of
             (Some err, d1) \<Rightarrow> (Some (''save message: '' @ err), d1)
           | (None, d1) \<Rightarrow> (None, snd (sql_exec E 1 False d1 (touch_conversation E (msg_ThreadID msg) d1)))))"

definition scanMessage :: "pg_engine \<Rightarrow> message_row \<Rightarrow> message" where
  "scanMessage E r =
     \<lparr>msg_ID = mr_id r, msg_ThreadID = mr_thread_id r, msg_UserID = mr_user_id r, msg_Role = mr_role r,
      msg_Content = mr_content r,
      msg_ToolCalls = (if length (mr_tool_calls r) > 0 then pe_unmarshal E (mr_tool_calls r) else []),
      msg_CreatedAt = mr_created_at r\<rparr>"

definition pg_GetMessagesByThread ::
  "pg_engine \<Rightarrow> string \<Rightarrow> int \<Rightarrow> int \<Rightarrow> pg_db \<Rightarrow> string + message list" where
  "pg_GetMessagesByThread E threadID limit offset d =
     (let limit = (if limit \<le> 0 then 1000 else limit) in
      sql_rows E ''get messages: '' (offset < 0)
        (map (scanMessage E) (limit_offset limit offset
          (sort_key mr_created_at
            (pe_visit_messages E (filter (\<lambda>r. mr_thread_id r = threadID) (t_messages d)))))))"

definition pg_DeleteMessagesByThread :: "pg_engine \<Rightarrow> string \<Rightarrow> pg_db \<Rightarrow> string option \<times> pg_db" where
  "pg_DeleteMessagesByThread E threadID d =
     wrapped ''delete messages: ''
       (sql_exec E 0 False d (d\<lparr>t_messages := filter (\<lambda>r. mr_thread_id r \<noteq> threadID) (t_messages d)\<rparr>))"

section \<open>Jobs\<close>

definition upsert_job :: "pg_engine \<Rightarrow> job \<Rightarrow> job list \<Rightarrow> job list" where
  "upsert_job E j rows =
     (if \<exists>r \<in> set rows. job_ID r = job_ID j
      then map (\<lambda>r. if job_ID r = job_ID j
                    then j\<lparr>job_CreatedAt := job_CreatedAt r, job_UpdatedAt := pe_time E (job_UpdatedAt j)\<rparr>
                    else r) rows
      else rows @ [j\<lparr>job_CreatedAt := pe_time E (job_CreatedAt j), job_UpdatedAt := pe_time E (job_UpdatedAt j)\<rparr>])"

definition pg_SaveJob :: "pg_engine \<Rightarrow> instant \<Rightarrow> job \<Rightarrow> pg_db \<Rightarrow> string option \<times> pg_db" where
  "pg_SaveJob E now j d =
     wrapped ''save job: '' (sql_exec E 0 False d (d\<lparr>t_jobs := upsert_job E (stamp_job now j) (t_jobs d)\<rparr>))"

definition pg_GetJob :: "pg_engine \<Rightarrow> string \<Rightarrow> pg_db \<Rightarrow> string + job" where
  "pg_GetJob E i d =
     sql_row E ''get job: '' (''job '' @ i @ '' not found'') (find (\<lambda>r. job_ID r = i) (t_jobs d))"

definition pg_ListJobs :: "pg_engine \<Rightarrow> string \<Rightarrow> int \<Rightarrow> int \<Rightarrow> pg_db \<Rightarrow> string + job list" where
  "pg_ListJobs E userID limit offset d =
     (let limit = (if limit \<le> 0 then 100 else limit);
          rows = (if userID \<noteq> [] then filter (\<lambda>r. job_UserID r = userID) (t_jobs d) else t_jobs d)
      in sql_rows E ''list jobs: '' (offset < 0)
           (limit_offset limit offset (sort_key (\<lambda>r. - job_CreatedAt r) (pe_visit_jobs E rows))))"

definition pg_UpdateJobStatus ::
  "pg_engine \<Rightarrow> string \<Rightarrow> string \<Rightarrow> string \<Rightarrow> string \<Rightarrow> pg_db \<Rightarrow> string option \<times> pg_db" where
  "pg_UpdateJobStatus E i status output errMsg d =
     wrapped ''update job status: ''
       (sql_exec E 0 False d
         (d\<lparr>t_jobs := map (\<lambda>r. if job_ID r = i
              then r\<lparr>job_Status := status, job_Output := output, job_Error := errMsg,
                     job_UpdatedAt := pe_time E (pe_now E)\<rparr> else r) (t_jobs d)\<rparr>))"

definition drop_job :: "string \<Rightarrow> pg_db \<Rightarrow> pg_db" where
  "drop_job i d =
     (if \<exists>r \<in> set (t_jobs d). job_ID r = i
      then d\<lparr>t_jobs := filter (\<lambda>r. job_ID r \<noteq> i) (t_jobs d),
             t_action_records := filter (\<lambda>r. cr_job_id r \<noteq> i) (t_action_records d)\<rparr>
      else d)"

definition pg_DeleteJob :: "pg_engine \<Rightarrow> string \<Rightarrow> pg_db \<Rightarrow> string option \<times> pg_db" where
  "pg_DeleteJob E i d = wrapped ''delete job: '' (sql_exec E 0 False d (drop_job i d))"

section \<open>Action records\<close>

text \<open>\<open>Milliseconds\<close> divides towards zero; a negative duration is stored as zero.\<close>

definition duration_ms :: "duration \<Rightarrow> int" where
  "duration_ms dur = (if dur < 0 then 0 else dur div 1000000)"

definition action_row_of :: "pg_engine \<Rightarrow> action_record \<Rightarrow> action_row" where
  "action_row_of E r =
     \<lparr>cr_id = ar_ID r, cr_job_id = ar_JobID r, cr_tool_name = ar_ToolName r, cr_input = ar_Input r,
      cr_output = ar_Output r, cr_error = ar_Error r, cr_duration_ms = duration_ms (ar_Duration r),
      cr_created_at = pe_time E (ar_CreatedAt r)\<rparr>"

definition action_violates :: "action_record \<Rightarrow> pg_db \<Rightarrow> bool" where
  "action_violates r d \<longleftrightarrow>
     (\<exists>x \<in> set (t_action_records d). cr_id x = ar_ID r) \<or> \<not> (\<exists>j \<in> set (t_jobs d). job_ID j = ar_JobID r)"

definition pg_SaveActionRecord :: "pg_engine \<Rightarrow> instant \<Rightarrow> action_record \<Rightarrow> pg_db \<Rightarrow> string option \<times> pg_db" where
  "pg_SaveActionRecord E now rec d =
     wrapped ''save action record: ''
       (sql_exec E 0 (action_violates rec d) d
         (d\<lparr>t_action_records := t_action_records d @ [action_row_of E (stamp_action now rec)]\<rparr>))"

definition scanActionRecord :: "action_row \<Rightarrow> action_record" where
  "scanActionRecord r =
     \<lparr>ar_ID = cr_id r, ar_JobID = cr_job_id r, ar_ToolName = cr_tool_name r, ar_Input = cr_input r,
      ar_Output = cr_output r, ar_Error = cr_error r, ar_Duration = int64 (cr_duration_ms r * 1000000),
      ar_CreatedAt = cr_created_at r\<rparr>"

definition pg_ListActionRecordsByJob :: "pg_engine \<Rightarrow> string \<Rightarrow> pg_db \<Rightarrow> string + action_record list" where
  "pg_ListActionRecordsByJob E jobID d =
     sql_rows E ''list action records: '' False
       (map scanActionRecord (sort_key cr_created_at
         (pe_visit_actions E (filter (\<lambda>r. cr_job_id r = jobID) (t_action_records d)))))"

section \<open>The interface\<close>

text \<open>The order a caller names for a range over Go maps plays no role here.\<close>

definition postgres_database :: "pg_engine \<Rightarrow> pg_db database" where
  "postgres_database E =
     \<lparr>db_GetSetting = pg_GetSetting E, db_SetSetting = pg_SetSetting E, db_DeleteSetting = pg_DeleteSetting E,
      db_SaveConversation = pg_SaveConversation E, db_GetConversation = pg_GetConversation E,
      db_ListConversations = (\<lambda>ks u l o' d. Some (pg_ListConversations E u l o' d)),
      db_DeleteConversation = pg_DeleteConversation E,
      db_SaveMessage = pg_SaveMessage E,
      db_GetMessagesByThread = (\<lambda>t l o' d. Some (pg_GetMessagesByThread E t l o' d)),
      db_DeleteMessagesByThread = pg_DeleteMessagesByThread E,
      db_SaveJob = pg_SaveJob E, db_GetJob = pg_GetJob E,
      db_ListJobs = (\<lambda>ks u l o' d. Some (pg_ListJobs E u l o' d)),
      db_UpdateJobStatus = (\<lambda>now. pg_UpdateJobStatus E), db_DeleteJob = pg_DeleteJob E,
      db_SaveActionRecord = pg_SaveActionRecord E, db_ListActionRecordsByJob = pg_ListActionRecordsByJob E\<rparr>"

section \<open>Tables as keyed stores\<close>

lemma find_map_stable:
  "(\<And>r. P (f r) = P r) \<Longrightarrow> find P (map f rows) = map_option f (find P rows)"
  by (induction rows) auto

lemma find_snoc: "find P (rows @ [r]) = (case find P rows of None \<Rightarrow> if P r then Some r else None | Some x \<Rightarrow> Some x)"
  by (induction rows) auto

lemma find_exists: "(\<exists>r \<in> set rows. P r) \<longleftrightarrow> find P rows \<noteq> None"
  by (auto simp: find_None_iff)

lemma find_kept: "(\<And>r. P r \<Longrightarrow> Q r) \<Longrightarrow> find P (filter Q rows) = find P rows"
  by (induction rows) auto

lemma find_removed: "(\<And>r. P r \<Longrightarrow> \<not> Q r) \<Longrightarrow> find P (filter Q rows) = None"
  by (auto simp: find_None_iff)

text \<open>An upsert: rows under the key are updated, or a new row is added; \<open>core\<close> is what is read of a row.\<close>

lemma find_upsert:
  assumes "\<And>r. key r = k \<Longrightarrow> key (f r) = k \<and> core (f r) = v" and "key new = k" and "core new = v"
  shows "map_option core (find (\<lambda>r. key r = k')
      (if \<exists>r \<in> set rows. key r = k then map (\<lambda>r. if key r = k then f r else r) rows else rows @ [new])) =
    (if k' = k then Some v else map_option core (find (\<lambda>r. key r = k') rows))"
proof -
  let ?g = "\<lambda>r. if key r = k then f r else r"
  have "map_option core (find (\<lambda>r. key r = k) (map ?g rows)) = Some v" if "\<exists>r \<in> set rows. key r = k"
    using that assms(1) by (induction rows) auto
  moreover have "map_option core (find (\<lambda>r. key r = k') (map ?g rows)) = map_option core (find (\<lambda>r. key r = k') rows)"
    if "k' \<noteq> k"
    using that assms(1) by (induction rows) auto
  moreover have "find (\<lambda>r. key r = k) rows = None" if "\<not> (\<exists>r \<in> set rows. key r = k)"
    using that by (auto simp: find_None_iff)
  ultimately show ?thesis
    using assms(2,3) by (simp add: find_snoc split: option.split)
qed

lemma find_upsert_setting:
  "map_option sr_value (find (is_setting u' k') (upsert_setting E u k v rows)) =
     (if u' = u \<and> k' = k then Some v else map_option sr_value (find (is_setting u' k') rows))"
proof -
  have row_key: "is_setting a b = (\<lambda>r. (sr_user_id r, sr_key r) = (a, b))" for a b
    by (auto simp: is_setting_def)
  have "map_option sr_value (find (is_setting u' k') (upsert_setting E u k v rows)) =
      (if (u', k') = (u, k) then Some v else map_option sr_value (find (is_setting u' k') rows))"
    unfolding upsert_setting_def row_key by (rule find_upsert) auto
  then show ?thesis by simp
qed

interpretation pg_settings: keyed_store
  "\<lambda>d (u, k). map_option sr_value (find (is_setting u k) (t_settings d))"
  "\<lambda>(u, k) v d. d\<lparr>t_settings := upsert_setting E u k v (t_settings d)\<rparr>"
  "\<lambda>(u, k) d. d\<lparr>t_settings := filter (\<lambda>r. \<not> is_setting u k r) (t_settings d)\<rparr>" for E
proof unfold_locales
  fix x y :: "string \<times> string" and v d
  show "(\<lambda>d (u, k). map_option sr_value (find (is_setting u k) (t_settings d)))
      ((\<lambda>(u, k) v d. d\<lparr>t_settings := upsert_setting E u k v (t_settings d)\<rparr>) x v d) y =
    (if y = x then Some v else (\<lambda>d (u, k). map_option sr_value (find (is_setting u k) (t_settings d))) d y)"
    by (cases x; cases y) (simp add: find_upsert_setting)
next
  fix x y :: "string \<times> string" and d
  show "(\<lambda>d (u, k). map_option sr_value (find (is_setting u k) (t_settings d)))
      ((\<lambda>(u, k) d. d\<lparr>t_settings := filter (\<lambda>r. \<not> is_setting u k r) (t_settings d)\<rparr>) x d) y =
    (if y = x then None else (\<lambda>d (u, k). map_option sr_value (find (is_setting u k) (t_settings d))) d y)"
  proof (cases x; cases y)
    fix u k u' k'
    assume x: "x = (u, k)" and y: "y = (u', k')"
    have "find (is_setting u k) (filter (\<lambda>r. \<not> is_setting u k r) (t_settings d)) = None"
      by (rule find_removed) simp
    moreover have "y \<noteq> x \<Longrightarrow>
        find (is_setting u' k') (filter (\<lambda>r. \<not> is_setting u k r) (t_settings d)) = find (is_setting u' k') (t_settings d)"
      by (rule find_kept) (auto simp: x y is_setting_def)
    ultimately show ?thesis by (simp add: x y)
  qed
qed

text \<open>The columns of a row that both back ends keep alike: all but the times.\<close>

definition conv_core :: "conversation \<Rightarrow> string \<times> string \<times> string \<times> string" where
  "conv_core c = (cv_ID c, cv_UserID c, cv_Channel c, cv_Title c)"

definition job_core :: "job \<Rightarrow> string \<times> string \<times> string \<times> string \<times> string \<times> string \<times> string" where
  "job_core j = (job_ID j, job_UserID j, job_Name j, job_Status j, job_Input j, job_Output j, job_Error j)"

lemma find_upsert_conversation:
  "map_option conv_core (find (\<lambda>r. cv_ID r = i) (upsert_conversation E c rows)) =
     (if i = cv_ID c then Some (conv_core c) else map_option conv_core (find (\<lambda>r. cv_ID r = i) rows))"
  unfolding upsert_conversation_def by (rule find_upsert) (auto simp: conv_core_def)

lemma find_upsert_job:
  "map_option job_core (find (\<lambda>r. job_ID r = i) (upsert_job E j rows)) =
     (if i = job_ID j then Some (job_core j) else map_option job_core (find (\<lambda>r. job_ID r = i) rows))"
  unfolding upsert_job_def by (rule find_upsert) (auto simp: job_core_def)

section \<open>Integrity\<close>

text \<open>What the declared keys and references promise of the tables.\<close>

definition pg_wf :: "pg_db \<Rightarrow> bool" where
  "pg_wf d \<longleftrightarrow>
     distinct (map (\<lambda>r. (sr_user_id r, sr_key r)) (t_settings d)) \<and>
     distinct (map cv_ID (t_conversations d)) \<and>
     distinct (map mr_id (t_messages d)) \<and> distinct (map job_ID (t_jobs d)) \<and>
     distinct (map cr_id (t_action_records d)) \<and>
     mr_thread_id ` set (t_messages d) \<subseteq> cv_ID ` set (t_conversations d) \<and>
     cr_job_id ` set (t_action_records d) \<subseteq> job_ID ` set (t_jobs d)"

text \<open>The writing methods of the interface, and their effect on the state of either back end.\<close>

datatype db_op =
    OpSetSetting string string string
  | OpDeleteSetting string string
  | OpSaveConversation instant conversation
  | OpDeleteConversation string
  | OpSaveMessage instant message
  | OpDeleteMessages string
  | OpSaveJob instant job
  | OpUpdateJob instant string string string string
  | OpDeleteJob string
  | OpSaveAction instant action_record

fun db_apply :: "'d database \<Rightarrow> db_op \<Rightarrow> 'd \<Rightarrow> string option \<times> 'd" where
  "db_apply D (OpSetSetting u k v) d = db_SetSetting D u k v d"
| "db_apply D (OpDeleteSetting u k) d = db_DeleteSetting D u k d"
| "db_apply D (OpSaveConversation now c) d = db_SaveConversation D now c d"
| "db_apply D (OpDeleteConversation i) d = db_DeleteConversation D i d"
| "db_apply D (OpSaveMessage now x) d = db_SaveMessage D now x d"
| "db_apply D (OpDeleteMessages t) d = db_DeleteMessagesByThread D t d"
| "db_apply D (OpSaveJob now j) d = db_SaveJob D now j d"
| "db_apply D (OpUpdateJob now i s o' e) d = db_UpdateJobStatus D now i s o' e d"
| "db_apply D (OpDeleteJob i) d = db_DeleteJob D i d"
| "db_apply D (OpSaveAction now r) d = db_SaveActionRecord D now r d"

inductive pg_step :: "pg_db \<Rightarrow> pg_engine \<times> db_op \<Rightarrow> pg_db \<Rightarrow> bool" where
  pg_call: "db_apply (postgres_database E) op d = (res, d') \<Longrightarrow> pg_step d (E, op) d'"

lemma sql_exec_state: "snd (sql_exec E n violated d d') = d \<or> \<not> violated \<and> snd (sql_exec E n violated d d') = d'"
  by (auto simp: sql_exec_def split: option.splits)

lemma snd_wrapped [simp]: "snd (wrapped p r) = snd r"
  by (simp add: wrapped_def)

lemma sql_exec_keeps:
  assumes "P d" and "\<not> violated \<Longrightarrow> P d'"
  shows "P (snd (sql_exec E n violated d d'))"
  using sql_exec_state [of E n violated d d'] assms by auto

lemma map_upsert_ids:
  "map cv_ID (upsert_conversation E c rows) = (if cv_ID c \<in> set (map cv_ID rows) then map cv_ID rows else map cv_ID rows @ [cv_ID c])"
  "map job_ID (upsert_job E j jrows) = (if job_ID j \<in> set (map job_ID jrows) then map job_ID jrows else map job_ID jrows @ [job_ID j])"
  "map (\<lambda>r. (sr_user_id r, sr_key r)) (upsert_setting E u k v srows) =
     (if (u, k) \<in> set (map (\<lambda>r. (sr_user_id r, sr_key r)) srows) then map (\<lambda>r. (sr_user_id r, sr_key r)) srows
      else map (\<lambda>r. (sr_user_id r, sr_key r)) srows @ [(u, k)])"
  by (auto simp: upsert_conversation_def upsert_job_def upsert_setting_def is_setting_def image_iff) (metis+)

lemma distinct_map_filterI: "distinct (map f xs) \<Longrightarrow> distinct (map f (filter P xs))"
  by (simp add: distinct_map_filter)

lemma ids_touch [simp]: "map cv_ID (t_conversations (touch_conversation E i d)) = map cv_ID (t_conversations d)"
  by (simp add: touch_conversation_def)

lemma touch_fields [simp]:
  "t_settings (touch_conversation E i d) = t_settings d" "t_messages (touch_conversation E i d) = t_messages d"
  "t_jobs (touch_conversation E i d) = t_jobs d" "t_action_records (touch_conversation E i d) = t_action_records d"
  by (simp_all add: touch_conversation_def)

lemma pg_wf_ids:
  "pg_wf d \<longleftrightarrow>
     distinct (map (\<lambda>r. (sr_user_id r, sr_key r)) (t_settings d)) \<and>
     distinct (map cv_ID (t_conversations d)) \<and>
     distinct (map mr_id (t_messages d)) \<and> distinct (map job_ID (t_jobs d)) \<and>
     distinct (map cr_id (t_action_records d)) \<and>
     set (map mr_thread_id (t_messages d)) \<subseteq> set (map cv_ID (t_conversations d)) \<and>
     set (map cr_job_id (t_action_records d)) \<subseteq> set (map job_ID (t_jobs d))"
  by (simp add: pg_wf_def)

lemma pg_wf_save:
  assumes "pg_wf d"
  shows "pg_wf (d\<lparr>t_settings := upsert_setting E u k v (t_settings d)\<rparr>)"
    and "pg_wf (d\<lparr>t_conversations := upsert_conversation E c (t_conversations d)\<rparr>)"
    and "pg_wf (d\<lparr>t_jobs := upsert_job E j (t_jobs d)\<rparr>)"
    and "pg_wf (touch_conversation E i d)"
  using assms unfolding pg_wf_ids by (auto simp: map_upsert_ids simp del: set_map)

lemma pg_wf_insert:
  assumes "pg_wf d"
  shows "\<not> message_violates msg d \<Longrightarrow> pg_wf (d\<lparr>t_messages := t_messages d @ [message_row_of E msg js]\<rparr>)"
    and "\<not> action_violates r d \<Longrightarrow> pg_wf (d\<lparr>t_action_records := t_action_records d @ [action_row_of E (stamp_action now r)]\<rparr>)"
  using assms
  by (auto simp: pg_wf_def message_violates_def action_violates_def message_row_of_def action_row_of_def stamp_action_def
      intro: rev_image_eqI)

lemma pg_wf_delete:
  assumes "pg_wf d"
  shows "pg_wf (d\<lparr>t_settings := filter P (t_settings d)\<rparr>)"
    and "pg_wf (d\<lparr>t_messages := filter Q (t_messages d)\<rparr>)"
    and "pg_wf (drop_conversation i d)" and "pg_wf (drop_job i d)"
  using assms by (auto simp: pg_wf_def drop_conversation_def drop_job_def distinct_map_filterI)

lemma pg_wf_update:
  assumes "pg_wf d" and "\<And>r. job_ID (f r) = job_ID r"
  shows "pg_wf (d\<lparr>t_jobs := map f (t_jobs d)\<rparr>)"
  using assms by (simp add: pg_wf_ids comp_def image_image)

lemma pg_SaveMessage_state:
  assumes "P d"
    and "\<And>js. \<not> message_violates (stamp_message now x) d \<Longrightarrow>
      P (d\<lparr>t_messages := t_messages d @ [message_row_of E (stamp_message now x) js]\<rparr>)"
    and "\<And>d1. P d1 \<Longrightarrow> P (touch_conversation E (msg_ThreadID (stamp_message now x)) d1)"
  shows "P (snd (pg_SaveMessage E now x d))"
  using assms by (auto simp: pg_SaveMessage_def Let_def sql_exec_def split: sum.splits option.splits if_splits)

lemma pg_step_wf: "pg_step d l d' \<Longrightarrow> pg_wf d \<Longrightarrow> pg_wf d'"
proof (induction rule: pg_step.induct)
  case (pg_call E op d res d')
  then have d': "d' = snd (db_apply (postgres_database E) op d)" by simp
  show ?case
    unfolding d' using pg_call.prems
    by (cases op)
       (auto simp: postgres_database_def pg_SetSetting_def pg_DeleteSetting_def pg_SaveConversation_def
          pg_DeleteConversation_def pg_DeleteMessagesByThread_def pg_SaveJob_def pg_UpdateJobStatus_def pg_DeleteJob_def
          pg_SaveActionRecord_def
        intro!: sql_exec_keeps [of pg_wf] pg_SaveMessage_state [of pg_wf] pg_wf_save pg_wf_insert pg_wf_delete pg_wf_update)
qed

interpretation pg_runs: step_invariant "\<lambda>d. d = migrated" pg_step pg_wf
proof
  show "pg_wf d" if "d = migrated" for d
    using that by (simp add: migrated_def pg_wf_def)
qed (rule pg_step_wf)

text \<open>
  C18: whatever the server does, calls of the PostgreSQL back end on new tables keep them whole: no key occurs
  twice, every message belongs to a stored conversation and every action record to a stored job.
\<close>

theorem postgres_integrity:
  assumes "run pg_step migrated calls d"
  shows "pg_wf d"
  by (rule pg_runs.run_inv [OF refl assms])

section \<open>Calls the server answers\<close>

text \<open>
  A server without faults, whose JSON column gives back what was stored (\<open>un\<close> is \<open>json.Unmarshal\<close>) and that
  visits rows completely; and the calls that violate no constraint.
\<close>

definition calm :: "(string \<Rightarrow> tool_call list) \<Rightarrow> pg_engine \<Rightarrow> bool" where
  "calm un E \<longleftrightarrow>
     pe_fault E = (\<lambda>n. None) \<and> pe_rows_fault E = None \<and> pe_unmarshal E = un \<and>
     (\<forall>rows. mset (pe_visit_messages E rows) = mset rows)"

definition stores :: "pg_engine \<Rightarrow> tool_call list \<Rightarrow> bool" where
  "stores E tcs \<longleftrightarrow>
     (case pe_marshal E tcs of
        Inl _ \<Rightarrow> False
      | Inr js \<Rightarrow> pe_jsonb E js \<noteq> [] \<and> pe_unmarshal E (pe_jsonb E js) = tcs)"

fun admissible :: "pg_engine \<Rightarrow> pg_db \<Rightarrow> db_op \<Rightarrow> bool" where
  "admissible E d (OpSaveMessage now x) \<longleftrightarrow> \<not> message_violates x d \<and> stores E (msg_ToolCalls x)"
| "admissible E d (OpSaveAction now r) \<longleftrightarrow> \<not> action_violates r d"
| "admissible E d _ \<longleftrightarrow> True"

definition msg_core :: "message \<Rightarrow> string \<times> string \<times> string \<times> string \<times> string \<times> tool_call list" where
  "msg_core x = (msg_ID x, msg_ThreadID x, msg_UserID x, msg_Role x, msg_Content x, msg_ToolCalls x)"

definition act_core :: "action_record \<Rightarrow> string \<times> string \<times> string \<times> string \<times> string \<times> string" where
  "act_core r = (ar_ID r, ar_JobID r, ar_ToolName r, ar_Input r, ar_Output r, ar_Error r)"

text \<open>The effect of a call on the tables when the server answers.\<close>

fun pg_effect :: "pg_engine \<Rightarrow> db_op \<Rightarrow> pg_db \<Rightarrow> pg_db" where
  "pg_effect E (OpSetSetting u k v) d = d\<lparr>t_settings := upsert_setting E u k v (t_settings d)\<rparr>"
| "pg_effect E (OpDeleteSetting u k) d = d\<lparr>t_settings := filter (\<lambda>r. \<not> is_setting u k r) (t_settings d)\<rparr>"
| "pg_effect E (OpSaveConversation now c) d =
     d\<lparr>t_conversations := upsert_conversation E (stamp_conversation now c) (t_conversations d)\<rparr>"
| "pg_effect E (OpDeleteConversation i) d = drop_conversation i d"
| "pg_effect E (OpSaveMessage now x) d =
     touch_conversation E (msg_ThreadID x)
       (d\<lparr>t_messages := t_messages d @
          [message_row_of E (stamp_message now x) (case pe_marshal E (msg_ToolCalls x) of Inr js \<Rightarrow> js | Inl _ \<Rightarrow> [])]\<rparr>)"
| "pg_effect E (OpDeleteMessages t) d = d\<lparr>t_messages := filter (\<lambda>r. mr_thread_id r \<noteq> t) (t_messages d)\<rparr>"
| "pg_effect E (OpSaveJob now j) d = d\<lparr>t_jobs := upsert_job E (stamp_job now j) (t_jobs d)\<rparr>"
| "pg_effect E (OpUpdateJob now i s o' e) d =
     d\<lparr>t_jobs := map (\<lambda>r. if job_ID r = i then r\<lparr>job_Status := s, job_Output := o', job_Error := e,
        job_UpdatedAt := pe_time E (pe_now E)\<rparr> else r) (t_jobs d)\<rparr>"
| "pg_effect E (OpDeleteJob i) d = drop_job i d"
| "pg_effect E (OpSaveAction now r) d =
     d\<lparr>t_action_records := t_action_records d @ [action_row_of E (stamp_action now r)]\<rparr>"

lemma stamp_message_fields [simp]:
  "msg_ID (stamp_message now x) = msg_ID x" "msg_ThreadID (stamp_message now x) = msg_ThreadID x"
  "msg_ToolCalls (stamp_message now x) = msg_ToolCalls x" "msg_core (stamp_message now x) = msg_core x"
  "message_violates (stamp_message now x) d = message_violates x d"
  by (simp_all add: stamp_message_def msg_core_def message_violates_def)

lemma stamp_fields [simp]:
  "conv_core (stamp_conversation now c) = conv_core c" "cv_ID (stamp_conversation now c) = cv_ID c"
  "job_core (stamp_job now j) = job_core j" "job_ID (stamp_job now j) = job_ID j"
  "act_core (stamp_action now r) = act_core r" "ar_JobID (stamp_action now r) = ar_JobID r"
  by (simp_all add: stamp_conversation_def conv_core_def stamp_job_def job_core_def stamp_action_def act_core_def)

lemma stores_marshal:
  assumes "stores E tcs"
  obtains js where "pe_marshal E tcs = Inr js" "pe_jsonb E js \<noteq> []" "pe_unmarshal E (pe_jsonb E js) = tcs"
  using assms that by (cases "pe_marshal E tcs") (auto simp: stores_def)

lemma calm_apply:
  assumes "calm un E" and "admissible E d op"
  shows "db_apply (postgres_database E) op d = (None, pg_effect E op d)"
proof (cases op)
  case (OpSaveMessage now x)
  obtain js where "pe_marshal E (msg_ToolCalls x) = Inr js"
    using assms(2) by (auto simp: OpSaveMessage elim: stores_marshal)
  with OpSaveMessage assms show ?thesis
    by (simp add: postgres_database_def pg_SaveMessage_def sql_exec_def calm_def)
qed (use assms in \<open>simp_all add: calm_def postgres_database_def sql_exec_def wrapped_def pg_SetSetting_def pg_DeleteSetting_def
  pg_SaveConversation_def pg_DeleteConversation_def pg_DeleteMessagesByThread_def pg_SaveJob_def pg_UpdateJobStatus_def
  pg_DeleteJob_def pg_SaveActionRecord_def\<close>)

text \<open>A server that answers, with the codec of a message without tool calls.\<close>

definition demo_engine :: pg_engine where
  "demo_engine =
     \<lparr>pe_fault = (\<lambda>n. None), pe_rows_fault = None, pe_violation = ''violation'', pe_now = 7, pe_time = (\<lambda>t. t),
      pe_marshal = (\<lambda>tcs. Inr ''null''), pe_jsonb = (\<lambda>js. js), pe_unmarshal = (\<lambda>js. []),
      pe_visit_conversations = (\<lambda>rows. rows), pe_visit_messages = rev, pe_visit_jobs = (\<lambda>rows. rows),
      pe_visit_actions = (\<lambda>rows. rows)\<rparr>"

definition demo_conversation :: conversation where
  "demo_conversation =
     \<lparr>cv_ID = ''t'', cv_UserID = ''ann'', cv_Channel = ''repl'', cv_Title = [], cv_Messages = [], cv_CreatedAt = 0,
      cv_UpdatedAt = 0\<rparr>"

definition demo_message :: message where
  "demo_message =
     \<lparr>msg_ID = ''m'', msg_ThreadID = ''t'', msg_UserID = ''ann'', msg_Role = ''user'', msg_Content = ''hi'',
      msg_ToolCalls = [], msg_CreatedAt = 3\<rparr>"

definition demo_calls :: "(pg_engine \<times> db_op) list" where
  "demo_calls = [(demo_engine, OpSaveConversation 5 demo_conversation), (demo_engine, OpSaveMessage 6 demo_message)]"

definition demo_tables :: pg_db where
  "demo_tables =
     pg_effect demo_engine (OpSaveMessage 6 demo_message)
       (pg_effect demo_engine (OpSaveConversation 5 demo_conversation) migrated)"

lemma demo_calm: "calm (\<lambda>js. []) demo_engine"
  by (simp add: calm_def demo_engine_def)

lemma demo_admissible:
  "admissible demo_engine migrated (OpSaveConversation 5 demo_conversation)"
  "admissible demo_engine (pg_effect demo_engine (OpSaveConversation 5 demo_conversation) migrated) (OpSaveMessage 6 demo_message)"
  by (simp_all add: message_violates_def stores_def demo_engine_def demo_message_def demo_conversation_def migrated_def
      upsert_conversation_def stamp_conversation_def)

lemma demo_pg_run: "run pg_step migrated demo_calls demo_tables"
  unfolding demo_calls_def demo_tables_def
  using pg_call [OF calm_apply [OF demo_calm demo_admissible(1)]] pg_call [OF calm_apply [OF demo_calm demo_admissible(2)]]
  by (blast intro: run_Cons run.run_nil)

lemma postgres_integrity_witness: "pg_wf demo_tables \<and> map mr_id (t_messages demo_tables) = [''m'']"
  using postgres_integrity [OF demo_pg_run]
  by (simp add: demo_tables_def touch_conversation_def message_row_of_def demo_message_def migrated_def)

section \<open>The choice of the back end\<close>

datatype opened_db = OpenMemory memory_db | OpenPostgres pg_pool_config pg_db

text \<open>\<open>connect\<close> is \<^const>\<open>NewPostgresDB\<close> on the server at hand, \<open>quote\<close> is \<open>strconv.Quote\<close>.\<close>

definition db_New ::
  "(string \<Rightarrow> string) \<Rightarrow> (string \<Rightarrow> int \<Rightarrow> int \<Rightarrow> string + pg_pool_config \<times> pg_db) \<Rightarrow>
     string \<Rightarrow> string \<Rightarrow> int \<Rightarrow> int \<Rightarrow> string + opened_db" where
  "db_New quote connect driver dsn maxConns minConns =
     (if driver = ''memory'' then Inr (OpenMemory new_memory_db)
      else if driver = ''postgres''
      then (case connect dsn maxConns minConns of Inl err \<Rightarrow> Inl err | Inr (cfg, d) \<Rightarrow> Inr (OpenPostgres cfg d))
      else if driver = ''libsql'' then Inl ''libsql driver not yet implemented''
      else Inl (''unsupported database driver: '' @ quote driver))"

end
