(* ===== verification/Application.thy ===== *)
theory Application
  imports Agent Builtin_Tools Worker Accounts Document Gateway Channel_Manager Config Secrets LLM_Clients
    Input_Channels Postgres_DB
begin

text \<open>
  How the application is put together: \<open>Build\<close> and \<open>Run\<close> of \<open>internal/app/builder.go\<close>, the entry point
  \<open>cmd/ironclaw/main.go\<close>, the log levels of \<open>internal/observability/observability.go\<close> and the client of the
  WebAssembly sidecar, \<open>internal/rpc/rpc.go\<close>. What the standard library and the operating system do for the
  tools, the model services and the database is the record \<open>app_lib\<close>.

  The objects that the wired parts share by pointer (the risk evaluator, the database, the data of the
  built-in tools) are parts of one world; the approval store is the dispatcher's, of which the gateway gets
  a reference.
\<close>

section \<open>Logging\<close>

datatype log_level = LevelDebug | LevelInfo | LevelWarn | LevelError

definition parseLevel :: "(string \<Rightarrow> string) \<Rightarrow> string \<Rightarrow> log_level" where
  "parseLevel ucase level =
     (let l = to_lower ucase level in
      if l = ''trace'' \<or> l = ''debug'' then LevelDebug
      else if l = ''info'' then LevelInfo
      else if l = ''warn'' \<or> l = ''warning'' then LevelWarn
      else if l = ''error'' then LevelError
      else LevelInfo)"

text \<open>A logger keeps its lowest level, whether it names the source, and the attributes bound to it.\<close>

record logger =
  lg_level :: log_level
  lg_addSource :: bool
  lg_attrs :: "(string \<times> string) list"

definition NewLogger :: "(string \<Rightarrow> string) \<Rightarrow> string \<Rightarrow> logger" where
  "NewLogger ucase level =
     (let lvl = parseLevel ucase level in \<lparr>lg_level = lvl, lg_addSource = (lvl = LevelDebug), lg_attrs = []\<rparr>)"

definition NewLoggerWithWriter :: "(string \<Rightarrow> string) \<Rightarrow> string \<Rightarrow> logger" where
  "NewLoggerWithWriter ucase level = \<lparr>lg_level = parseLevel ucase level, lg_addSource = False, lg_attrs = []\<rparr>"

fun level_rank :: "log_level \<Rightarrow> int" where
  "level_rank LevelDebug = - 4"
| "level_rank LevelInfo = 0"
| "level_rank LevelWarn = 4"
| "level_rank LevelError = 8"

text \<open>A record handed to the handler: nothing below the logger's level.\<close>

record log_record =
  lr_level :: log_level
  lr_msg :: string
  lr_attrs :: "(string \<times> string) list"

definition LogAttrs :: "log_level \<Rightarrow> string \<Rightarrow> (string \<times> string) list \<Rightarrow> logger \<Rightarrow> log_record list" where
  "LogAttrs lvl msg attrs l =
     (if level_rank lvl < level_rank (lg_level l) then []
      else [\<lparr>lr_level = lvl, lr_msg = msg, lr_attrs = lg_attrs l @ attrs\<rparr>])"

definition log_Debug :: "string \<Rightarrow> (string \<times> string) list \<Rightarrow> logger \<Rightarrow> log_record list" where
  "log_Debug msg attrs l = LogAttrs LevelDebug msg attrs l"

definition log_Info :: "string \<Rightarrow> (string \<times> string) list \<Rightarrow> logger \<Rightarrow> log_record list" where
  "log_Info msg attrs l = LogAttrs LevelInfo msg attrs l"

definition log_Warn :: "string \<Rightarrow> (string \<times> string) list \<Rightarrow> logger \<Rightarrow> log_record list" where
  "log_Warn msg attrs l = LogAttrs LevelWarn msg attrs l"

definition log_Error :: "string \<Rightarrow> string option \<Rightarrow> (string \<times> string) list \<Rightarrow> logger \<Rightarrow> log_record list" where
  "log_Error msg err attrs l =
     LogAttrs LevelError msg ((case err of None \<Rightarrow> [] | Some e \<Rightarrow> [(''error'', e)]) @ attrs) l"

definition log_With :: "(string \<times> string) list \<Rightarrow> logger \<Rightarrow> logger" where
  "log_With attrs l = l\<lparr>lg_attrs := lg_attrs l @ attrs\<rparr>"

text \<open>The function a timer returns, called at \<open>stop\<close>; \<open>show_d\<close> prints a duration.\<close>

definition StartTimer :: "(duration \<Rightarrow> string) \<Rightarrow> string \<Rightarrow> instant \<Rightarrow> logger \<Rightarrow> instant \<Rightarrow> log_record list" where
  "StartTimer show_d name start l stop =
     log_Info ''timer'' [(''name'', name), (''duration'', show_d (stop - start))] l"

section \<open>The sidecar client\<close>

definition dial_address :: "string \<Rightarrow> string" where
  "dial_address addr =
     (if length addr > 7 \<and> take 7 addr = ''unix://'' then ''unix:'' @ drop 7 addr else addr)"

record tool_request =
  tr_ToolName :: string
  tr_WasmModule :: string
  tr_ParamsJson :: string
  tr_UserId :: string
  tr_Secrets :: "string \<rightharpoonup> string"
  tr_FuelLimit :: nat
  tr_MaxMemory :: nat

text \<open>The generated gRPC client: its calls change a world and yield an error or an answer.\<close>

record ('w, 'resp, 'handle, 'health) wasm_client =
  wc_ExecuteTool :: "tool_request \<Rightarrow> 'w \<Rightarrow> (string + 'resp) \<times> 'w"
  wc_LoadChannel :: "string \<times> string \<times> string \<Rightarrow> 'w \<Rightarrow> (string + 'handle) \<times> 'w"
  wc_SendChannelEvent :: "string \<times> string \<Rightarrow> 'w \<Rightarrow> string option \<times> 'w"
  wc_Health :: "'w \<Rightarrow> (string + 'health) \<times> 'w"

datatype conn_state = ConnIdle | ConnConnecting | ConnReady | ConnTransientFailure | ConnShutdown

record rpc_client =
  rc_conn :: "conn_state option"
  rc_addr :: string

definition rpc_NewClient :: "(string \<Rightarrow> string) \<Rightarrow> (string \<Rightarrow> string + conn_state) \<Rightarrow> string \<Rightarrow> string + rpc_client" where
  "rpc_NewClient quote dial addr =
     (case dial (dial_address addr) of
        Inl err \<Rightarrow> Inl (''dial sidecar '' @ quote addr @ '': '' @ err)
      | Inr st \<Rightarrow> Inr \<lparr>rc_conn = Some st, rc_addr = addr\<rparr>)"

definition rpc_Close :: "(conn_state \<Rightarrow> string option) \<Rightarrow> rpc_client \<Rightarrow> string option" where
  "rpc_Close close c = (case rc_conn c of Some st \<Rightarrow> close st | None \<Rightarrow> None)"

definition rpc_Healthy :: "rpc_client \<Rightarrow> bool" where
  "rpc_Healthy c = (case rc_conn c of None \<Rightarrow> False | Some st \<Rightarrow> st = ConnReady)"

definition prefixed :: "string \<Rightarrow> (string + 'a) \<times> 'w \<Rightarrow> (string + 'a) \<times> 'w" where
  "prefixed pre r = (case r of (Inl err, w) \<Rightarrow> (Inl (pre @ err), w) | (Inr x, w) \<Rightarrow> (Inr x, w))"

definition rpc_ExecuteTool ::
  "('w, 'resp, 'handle, 'health) wasm_client \<Rightarrow> string \<Rightarrow> string \<Rightarrow> string \<Rightarrow> string \<Rightarrow> (string \<rightharpoonup> string) \<Rightarrow> nat \<Rightarrow> nat \<Rightarrow>
     'w \<Rightarrow> (string + 'resp) \<times> 'w" where
  "rpc_ExecuteTool C toolName wasmModule paramsJSON userID secrets fuelLimit maxMemory w =
     prefixed ''execute tool: ''
       (wc_ExecuteTool C
         \<lparr>tr_ToolName = toolName, tr_WasmModule = wasmModule, tr_ParamsJson = paramsJSON, tr_UserId = userID,
          tr_Secrets = secrets, tr_FuelLimit = fuelLimit, tr_MaxMemory = maxMemory\<rparr> w)"

definition rpc_LoadChannel ::
  "('w, 'resp, 'handle, 'health) wasm_client \<Rightarrow> string \<Rightarrow> string \<Rightarrow> string \<Rightarrow> 'w \<Rightarrow> (string + 'handle) \<times> 'w" where
  "rpc_LoadChannel C channelName wasmModule configJSON w =
     prefixed ''load channel: '' (wc_LoadChannel C (channelName, wasmModule, configJSON) w)"

definition rpc_SendChannelEvent ::
  "('w, 'resp, 'handle, 'health) wasm_client \<Rightarrow> string \<Rightarrow> string \<Rightarrow> 'w \<Rightarrow> string option \<times> 'w" where
  "rpc_SendChannelEvent C handleID eventJSON w =
     (case wc_SendChannelEvent C (handleID, eventJSON) w of
        (Some err, w') \<Rightarrow> (Some (''send channel event: '' @ err), w')
      | (None, w') \<Rightarrow> (None, w'))"

definition rpc_Health :: "('w, 'resp, 'handle, 'health) wasm_client \<Rightarrow> 'w \<Rightarrow> (string + 'health) \<times> 'w" where
  "rpc_Health C w = prefixed ''health check: '' (wc_Health C w)"

section \<open>One database over the two back ends\<close>

definition read_db :: "(memory_db \<Rightarrow> 'a) \<Rightarrow> (pg_db \<Rightarrow> 'a) \<Rightarrow> opened_db \<Rightarrow> 'a" where
  "read_db f g d = (case d of OpenMemory m \<Rightarrow> f m | OpenPostgres c p \<Rightarrow> g p)"

definition write_db ::
  "(memory_db \<Rightarrow> 'a \<times> memory_db) \<Rightarrow> (pg_db \<Rightarrow> 'a \<times> pg_db) \<Rightarrow> opened_db \<Rightarrow> 'a \<times> opened_db" where
  "write_db f g d =
     (case d of
        OpenMemory m \<Rightarrow> (case f m of (x, m') \<Rightarrow> (x, OpenMemory m'))
      | OpenPostgres c p \<Rightarrow> (case g p of (x, p') \<Rightarrow> (x, OpenPostgres c p')))"

text \<open>The value of the interface type \<open>Database\<close> that \<open>New\<close> returns: a call goes to the back end behind it.\<close>

definition opened_database :: "pg_engine \<Rightarrow> opened_db database" where
  "opened_database E =
     (let M = memory_database; P = postgres_database E in
      \<lparr>db_GetSetting = (\<lambda>u k. read_db (db_GetSetting M u k) (db_GetSetting P u k)),
       db_SetSetting = (\<lambda>u k v. write_db (db_SetSetting M u k v) (db_SetSetting P u k v)),
       db_DeleteSetting = (\<lambda>u k. write_db (db_DeleteSetting M u k) (db_DeleteSetting P u k)),
       db_SaveConversation = (\<lambda>now c. write_db (db_SaveConversation M now c) (db_SaveConversation P now c)),
       db_GetConversation = (\<lambda>i. read_db (db_GetConversation M i) (db_GetConversation P i)),
       db_ListConversations = (\<lambda>ks u l f. read_db (db_ListConversations M ks u l f) (db_ListConversations P ks u l f)),
       db_DeleteConversation = (\<lambda>i. write_db (db_DeleteConversation M i) (db_DeleteConversation P i)),
       db_SaveMessage = (\<lambda>now x. write_db (db_SaveMessage M now x) (db_SaveMessage P now x)),
       db_GetMessagesByThread = (\<lambda>t l f. read_db (db_GetMessagesByThread M t l f) (db_GetMessagesByThread P t l f)),
       db_DeleteMessagesByThread = (\<lambda>t. write_db (db_DeleteMessagesByThread M t) (db_DeleteMessagesByThread P t)),
       db_SaveJob = (\<lambda>now j. write_db (db_SaveJob M now j) (db_SaveJob P now j)),
       db_GetJob = (\<lambda>i. read_db (db_GetJob M i) (db_GetJob P i)),
       db_ListJobs = (\<lambda>ks u l f. read_db (db_ListJobs M ks u l f) (db_ListJobs P ks u l f)),
       db_UpdateJobStatus =
         (\<lambda>now i s out e. write_db (db_UpdateJobStatus M now i s out e) (db_UpdateJobStatus P now i s out e)),
       db_DeleteJob = (\<lambda>i. write_db (db_DeleteJob M i) (db_DeleteJob P i)),
       db_SaveActionRecord = (\<lambda>now r. write_db (db_SaveActionRecord M now r) (db_SaveActionRecord P now r)),
       db_ListActionRecordsByJob =
         (\<lambda>i. read_db (db_ListActionRecordsByJob M i) (db_ListActionRecordsByJob P i))\<rparr>)"

section \<open>The wired application\<close>

record 'f app_world =
  aw_builtin :: "'f builtin_world"
  aw_risk :: risk_evaluator
  aw_db :: opened_db

record 'f app_lib =
  al_quote :: "string \<Rightarrow> string"
  al_ucase :: "string \<Rightarrow> string"
  al_connect :: "string \<Rightarrow> int \<Rightarrow> int \<Rightarrow> string + pg_pool_config \<times> pg_db"
  al_engine :: pg_engine
  al_ping :: "opened_db \<Rightarrow> instant \<Rightarrow> string option"
  al_os :: "'f os_calls"
  al_web :: "'f http_calls"
  al_json :: json_codec
  al_format :: "jval \<Rightarrow> string"
  al_headers :: "(string \<rightharpoonup> jval) \<Rightarrow> string list"
  al_entries :: "(string \<rightharpoonup> string) \<Rightarrow> string list"
  al_shell :: "duration \<Rightarrow> string \<Rightarrow> 'f \<Rightarrow> (string \<times> string option) \<times> 'f"
  al_clock :: "'f \<Rightarrow> string"
  al_services :: "'f app_world http_lib"
  al_documents :: doc_lib
  al_arguments :: "string \<Rightarrow> string + nil_params"
  al_tools :: "string list"
  al_channels :: "string list"
  al_now :: instant

text \<open>A built-in tool works on its part of the world.\<close>

definition lift_tool :: "'f builtin_world tool \<Rightarrow> 'f app_world tool" where
  "lift_tool t =
     \<lparr>t_Name = t_Name t, t_Description = t_Description t, t_ParameterSchema = t_ParameterSchema t,
      t_Execute = (\<lambda>ps j w. case t_Execute t ps j (aw_builtin w) of (r, b) \<Rightarrow> (r, w\<lparr>aw_builtin := b\<rparr>)),
      t_RequiresApproval = t_RequiresApproval t\<rparr>"

definition builtin_tools :: "'f app_lib \<Rightarrow> 'f builtin_world tool list" where
  "builtin_tools L =
     [echo_tool, time_tool (al_clock L), json_tool (al_ucase L) (al_json L), shell_tool (al_ucase L) (al_shell L),
      file_tool (al_quote L) (al_os L) (new_fs_workspace ''./workspaces''),
      http_tool (al_headers L) (al_format L) (al_web L) new_http_tool, memory_tool (al_quote L) (al_entries L)]"

definition build_registry :: "'f app_lib \<Rightarrow> 'f app_world registry" where
  "build_registry L = fold (\<lambda>t. register (lift_tool t)) (builtin_tools L) new_registry"

definition risk_gate :: "'f app_world exec_gate" where
  "risk_gate =
     \<lparr>g_Name = approval_gate_name,
      g_Evaluate = (\<lambda>w now ctx. approval_gate_evaluate (risk_evaluate now (aw_risk w)) ctx)\<rparr>"

definition build_dispatcher :: "'f app_lib \<Rightarrow> config \<Rightarrow> 'f app_world dispatcher" where
  "build_dispatcher L cfg =
     (let reg = build_registry L;
          safetyLayer = new_layer_with_config \<lparr>MaxOutputLength = 10000, RateMaxCalls = 100, RateWindow = minute\<rparr>;
          d = with_gates [risk_gate] (new_dispatcher reg (Some safetyLayer));
          d1 = (if ag_AutoApproveTools (cf_Agent cfg) then with_auto_approved (registry_list (al_tools L) reg) d else d)
      in if cc_HTTP (cf_Channels cfg) then with_event_publisher d1 else d1)"

definition build_llm :: "config \<Rightarrow> llm_client option" where
  "build_llm cfg =
     (let l = cf_LLM cfg in
      if lc_APIKey l \<noteq> [] \<or> lc_Provider l = ''ollama''
      then llm_New (lc_Provider l) (lc_Model l) (lc_APIKey l) (lc_BaseURL l) else None)"

definition build_deps :: "'f app_lib \<Rightarrow> config \<Rightarrow> 'f app_world deps" where
  "build_deps L cfg =
     \<lparr>dp_Name = ag_Name (cf_Agent cfg),
      dp_LLM = map_option (client_Complete (al_services L)) (build_llm cfg),
      dp_Tools = Some (build_registry L), dp_Hooks = Some new_hook_registry, dp_Skills = Some new_skill_registry,
      dp_Document = Some (document_Process (al_documents L)),
      dp_SaveConversation = Some (\<lambda>now c w.
        case db_SaveConversation (opened_database (al_engine L)) now c (aw_db w) of (err, d) \<Rightarrow> (err, w\<lparr>aw_db := d\<rparr>)),
      dp_publishes = cc_HTTP (cf_Channels cfg), dp_unmarshal = al_arguments L, dp_quote = al_quote L\<rparr>"

definition build_auth :: "config \<Rightarrow> string \<Rightarrow> string + string" where
  "build_auth cfg =
     (if cf_APIKey cfg \<noteq> []
      then (\<lambda>key. authenticate key (new_api_key_auth (Some [cf_APIKey cfg \<mapsto> cf_OwnerID cfg])))
      else no_auth)"

text \<open>The health checks: the database answers, and the agent exists, which it always does here.\<close>

definition build_gateway ::
  "'f app_lib \<Rightarrow> config \<Rightarrow> pending_store \<Rightarrow> risk_evaluator \<Rightarrow> opened_db \<Rightarrow> opened_db gateway" where
  "build_gateway L cfg pendingStore riskEvaluator d =
     RegisterHealthCheck ''agent'' (\<lambda>_. None)
       (RegisterHealthCheck ''database'' (al_ping L d)
         (WithRiskEvaluator riskEvaluator (WithPendingStore pendingStore (WithVersion (cf_Env cfg)
           (WithHistory (opened_database (al_engine L), d) (WithAuth (build_auth cfg)
             (gateway_New (cc_HTTPPort (cf_Channels cfg)) (al_now L))))))))"

text \<open>The channels in one world; a panic of a second shutdown is recorded.\<close>

record chan_world =
  cw_printed :: string
  cw_repl :: repl
  cw_gateway :: "opened_db gateway option"
  cw_webhook :: webhook_server
  cw_websocket :: "ws_channel option"
  cw_broken :: "string set"
  cw_panicked :: bool

definition repl_chan :: "chan_world chan" where
  "repl_chan =
     \<lparr>chn_Name = repl_Name, chn_Messages = 0,
      chn_SendMessage = (\<lambda>msg w. (None, w\<lparr>cw_printed := cw_printed w @ repl_SendMessage msg\<rparr>)),
      chn_Shutdown = (\<lambda>w. (None, case repl_Shutdown (cw_repl w) of
         None \<Rightarrow> w\<lparr>cw_panicked := True\<rparr> | Some r \<Rightarrow> w\<lparr>cw_repl := r\<rparr>))\<rparr>"

definition gateway_chan :: "chan_world chan" where
  "gateway_chan =
     \<lparr>chn_Name = gateway_Name, chn_Messages = 1,
      chn_SendMessage = (\<lambda>msg w. (None, w\<lparr>cw_gateway := map_option (gateway_SendMessage msg) (cw_gateway w)\<rparr>)),
      chn_Shutdown = (\<lambda>w. (None, case Option.bind (cw_gateway w) gateway_Shutdown of
         None \<Rightarrow> w\<lparr>cw_panicked := True\<rparr> | Some g \<Rightarrow> w\<lparr>cw_gateway := Some g\<rparr>))\<rparr>"

definition webhook_chan :: "chan_world chan" where
  "webhook_chan =
     \<lparr>chn_Name = webhook_Name, chn_Messages = 2,
      chn_SendMessage = (\<lambda>msg w. (None, w\<lparr>cw_webhook := webhook_SendMessage msg (cw_webhook w)\<rparr>)),
      chn_Shutdown = (\<lambda>w. (None, case webhook_Shutdown (cw_webhook w) of
         None \<Rightarrow> w\<lparr>cw_panicked := True\<rparr> | Some s \<Rightarrow> w\<lparr>cw_webhook := s\<rparr>))\<rparr>"

definition websocket_chan :: "chan_world chan" where
  "websocket_chan =
     \<lparr>chn_Name = websocket_Name, chn_Messages = 3,
      chn_SendMessage = (\<lambda>msg w.
        (None, w\<lparr>cw_websocket := map_option (websocket_SendMessage (cw_broken w) msg) (cw_websocket w)\<rparr>)),
      chn_Shutdown = (\<lambda>w. (None, case Option.bind (cw_websocket w) websocket_Shutdown of
         None \<Rightarrow> w\<lparr>cw_panicked := True\<rparr> | Some c \<Rightarrow> w\<lparr>cw_websocket := Some c\<rparr>))\<rparr>"

definition build_channels :: "config \<Rightarrow> chan_world chan list" where
  "build_channels cfg =
     [repl_chan] @ (if cc_HTTP (cf_Channels cfg) then [gateway_chan] else []) @ [webhook_chan] @
     (if cc_WebSocket (cf_Channels cfg) then [websocket_chan] else [])"

definition build_manager :: "'f app_lib \<Rightarrow> config \<Rightarrow> chan_world manager" where
  "build_manager L cfg =
     manager_Start (al_channels L)
       (fold manager_Add (build_channels cfg) (NewManager (replicate 4 ([], False))))"

record 'f app =
  ap_Config :: config
  ap_Deps :: "'f app_world deps"
  ap_State :: "'f app_world state"
  ap_Channels :: "chan_world manager"
  ap_ChanWorld :: chan_world
  ap_Logger :: logger
  ap_Worker :: Worker.pool_config

text \<open>
  \<open>Build\<close>: the parts in the order the code makes them; the only failure is the database's, since \<open>llm.New\<close>
  returns no error. \<open>b\<close> is the state of the outside world in which the built-in tools start.
\<close>

definition Build :: "'f app_lib \<Rightarrow> 'f \<Rightarrow> config \<Rightarrow> string + 'f app" where
  "Build L b cfg =
     (case db_New (al_quote L) (al_connect L) (dc_Driver (cf_Database cfg)) (dc_DSN (cf_Database cfg))
             (dc_MaxConns (cf_Database cfg)) (dc_MinConns (cf_Database cfg)) of
        Inl err \<Rightarrow> Inl (''init database: '' @ err)
      | Inr database \<Rightarrow>
          (let dispatcher = build_dispatcher L cfg;
               riskEvaluator = new_risk_based_evaluator TrustBalanced;
               port = cc_HTTPPort (cf_Channels cfg);
               gw = (if cc_HTTP (cf_Channels cfg)
                     then Some (build_gateway L cfg (d_pendingStore dispatcher) riskEvaluator database) else None);
               wsock = (if cc_WebSocket (cf_Channels cfg)
                        then Some (websocket_WithAuth (build_auth cfg)
                               (websocket_New (cc_WebSocketPort (cf_Channels cfg)))) else None)
           in Inr
             \<lparr>ap_Config = cfg, ap_Deps = build_deps L cfg,
              ap_State =
                \<lparr>st_disp = dispatcher, st_session = new_session_manager,
                 st_world = \<lparr>aw_builtin = \<lparr>bw_data = Map.empty, bw_sys = b\<rparr>, aw_risk = riskEvaluator, aw_db = database\<rparr>,
                 st_events = [], st_audits = []\<rparr>,
              ap_Channels = build_manager L cfg,
              ap_ChanWorld =
                \<lparr>cw_printed = ''> '', cw_repl = repl_New (cf_OwnerID cfg), cw_gateway = gw,
                 cw_webhook = webhook_New (int64 (port + 1)), cw_websocket = wsock, cw_broken = {}, cw_panicked = False\<rparr>,
              ap_Logger = NewLogger (al_ucase L) (cf_LogLevel cfg),
              ap_Worker = new_pool (ag_MaxParallelJobs (cf_Agent cfg))\<rparr>))"

text \<open>The entry point up to the loop: configuration, then the parts.\<close>

definition main_run :: "config_env \<Rightarrow> 'f app_lib \<Rightarrow> 'f \<Rightarrow> string + 'f app" where
  "main_run E L b =
     (case Load E [] of
        Inl err \<Rightarrow> Inl (''config: '' @ err)
      | Inr cfg \<Rightarrow> (case Build L b cfg of Inl err \<Rightarrow> Inl (''build: '' @ err) | Inr a \<Rightarrow> Inr a))"

text \<open>
  A turn of \<open>Run\<close>: a received message is processed and the response, or the text of the error, goes to
  every channel. \<^const>\<open>None\<close> waits for a message or is a panic of the agent.
\<close>

definition run_turn :: "string list \<Rightarrow> agent_env \<Rightarrow> 'f app \<Rightarrow> 'f app option" where
  "run_turn ks env a =
     (case manager_Receive (ap_Channels a) of
        None \<Rightarrow> None
      | Some (msg, mgr) \<Rightarrow>
          (case process_message (ap_Deps a) env msg (ap_State a) of
             None \<Rightarrow> None
           | Some (r, st) \<Rightarrow>
               (let resp = (case r of Inr x \<Rightarrow> x
                            | Inl e \<Rightarrow> response ((''Agent '' @ utf8 [233, 148, 153, 232, 175, 175] @ '': '') @ e))
                in Some (a\<lparr>ap_State := st, ap_Channels := mgr,
                           ap_ChanWorld := snd (manager_Broadcast ks resp mgr (ap_ChanWorld a))\<rparr>))))"

text \<open>
  A request to the gateway of the application: the handlers work on the dispatcher's approval store and on
  the risk evaluator and the database that the rest of the application uses.
\<close>

definition shared_gateway :: "'f app_lib \<Rightarrow> 'f app \<Rightarrow> opened_db gateway \<Rightarrow> opened_db gateway" where
  "shared_gateway L a g =
     g\<lparr>gw_pendingStore := Some (d_pendingStore (st_disp (ap_State a))),
       gw_riskEvaluator := Some (aw_risk (st_world (ap_State a))),
       gw_historyStore := Some (opened_database (al_engine L), aw_db (st_world (ap_State a)))\<rparr>"

definition take_shared :: "opened_db gateway \<Rightarrow> 'f app \<Rightarrow> 'f app" where
  "take_shared g a =
     (let st = ap_State a;
          store = (case gw_pendingStore g of None \<Rightarrow> d_pendingStore (st_disp st) | Some ps \<Rightarrow> ps);
          risk = (case gw_riskEvaluator g of None \<Rightarrow> aw_risk (st_world st) | Some ev \<Rightarrow> ev);
          d = (case gw_historyStore g of None \<Rightarrow> aw_db (st_world st) | Some h \<Rightarrow> snd h)
      in a\<lparr>ap_State := st\<lparr>st_disp := (st_disp st)\<lparr>d_pendingStore := store\<rparr>,
                           st_world := (st_world st)\<lparr>aw_risk := risk, aw_db := d\<rparr>\<rparr>,
           ap_ChanWorld := (ap_ChanWorld a)\<lparr>cw_gateway := Some g\<rparr>\<rparr>)"

definition app_serve :: "'f app_lib \<Rightarrow> gw_lib \<Rightarrow> gw_env \<Rightarrow> http_request \<Rightarrow> 'f app \<Rightarrow> (Gateway.http_response \<times> 'f app) option" where
  "app_serve L GL GE r a =
     (case cw_gateway (ap_ChanWorld a) of
        None \<Rightarrow> None
      | Some g \<Rightarrow> map_option (\<lambda>(resp, g'). (resp, take_shared g' a)) (serve GL GE r (shared_gateway L a g)))"

section \<open>What is built\<close>

lemma build_dispatcher_fields [simp]:
  "d_gates (build_dispatcher L cfg) = [risk_gate]" "d_registry (build_dispatcher L cfg) = build_registry L"
  "d_allowed (build_dispatcher L cfg) = None" "d_pendingStore (build_dispatcher L cfg) = new_pending_store"
  by (simp_all add: build_dispatcher_def Let_def with_gates_def with_auto_approved_def with_event_publisher_def new_dispatcher_def)

text \<open>The registry offers exactly the seven built-in tools, each under its own name.\<close>

lemma build_registry_names:
  "dom (tools (build_registry L)) = {''echo'', ''time'', ''json'', ''shell'', ''file'', ''http'', ''memory''}"
  by (simp add: build_registry_def builtin_tools_def register_def new_registry_def lift_tool_def echo_tool_def time_tool_def
      json_tool_def shell_tool_def file_tool_def http_tool_def memory_tool_def insert_commute)

text \<open>
  Building succeeds exactly when the database opens: always in memory, for PostgreSQL when it connects, and
  never for the driver \<open>libsql\<close>, although the configuration accepts that name.
\<close>

lemma build_outcome:
  "(\<exists>a. Build L b cfg = Inr a) \<longleftrightarrow>
     dc_Driver (cf_Database cfg) = ''memory'' \<or>
     dc_Driver (cf_Database cfg) = ''postgres'' \<and>
       \<not> isl (al_connect L (dc_DSN (cf_Database cfg)) (dc_MaxConns (cf_Database cfg)) (dc_MinConns (cf_Database cfg)))"
  by (auto simp: Build_def db_New_def Let_def split: sum.splits if_splits)

lemma build_state:
  assumes "Build L b cfg = Inr a"
  shows "st_disp (ap_State a) = build_dispatcher L cfg" "ap_Deps a = build_deps L cfg" "ap_Config a = cfg"
    "ap_Channels a = build_manager L cfg" "st_session (ap_State a) = new_session_manager"
    "aw_risk (st_world (ap_State a)) = new_risk_based_evaluator TrustBalanced"
  using assms by (auto simp: Build_def Let_def split: sum.splits if_splits)

lemma shell_known: "registry_get ''shell'' (build_registry L) \<noteq> None"
proof -
  have "''shell'' \<in> dom (tools (build_registry L))"
    by (simp add: build_registry_names)
  then show ?thesis by (auto simp: registry_get_def)
qed

lemma new_build_rates: "d_rateLimiter (build_dispatcher L cfg) = new_rate_limiter 60 minute"
  by (simp add: build_dispatcher_def Let_def with_gates_def with_auto_approved_def with_event_publisher_def new_dispatcher_def)

text \<open>Settings of the configuration that nothing reads: the tools allowed, the terminal switch, the safety section.\<close>

lemma build_ignores_settings:
  "Build L b (cfg\<lparr>cf_Safety := s, cf_Agent := (cf_Agent cfg)\<lparr>ag_AllowedTools := ts\<rparr>,
     cf_Channels := (cf_Channels cfg)\<lparr>cc_REPL := on\<rparr>\<rparr>) =
   map_sum id (\<lambda>a. a\<lparr>ap_Config := cfg\<lparr>cf_Safety := s, cf_Agent := (cf_Agent cfg)\<lparr>ag_AllowedTools := ts\<rparr>,
     cf_Channels := (cf_Channels cfg)\<lparr>cc_REPL := on\<rparr>\<rparr>\<rparr>) (Build L b cfg)"
  by (simp add: Build_def build_dispatcher_def build_deps_def build_llm_def build_gateway_def build_auth_def build_manager_def
      build_channels_def Let_def split: sum.split)

text \<open>The gateway of a built application starts with no open request and an empty queue, as its runs assume.\<close>

lemma built_gateway_fresh:
  assumes "Build L b cfg = Inr a" and "cw_gateway (ap_ChanWorld a) = Some g"
  shows "gw_responses g = Map.empty \<and> gw_msgChan g = []"
  using assms
  by (auto simp: Build_def Let_def build_gateway_def RegisterHealthCheck_def WithRiskEvaluator_def WithPendingStore_def
      WithVersion_def WithHistory_def WithAuth_def gateway_New_def split: sum.splits if_splits)

text \<open>With the default ports, the webhook server and the WebSocket server are given the same one.\<close>

lemma default_ports_collide:
  assumes "Build L b (DefaultConfig\<lparr>cf_Channels := (cf_Channels DefaultConfig)\<lparr>cc_WebSocket := True\<rparr>\<rparr>) = Inr a"
  shows "map_option ws_port (cw_websocket (ap_ChanWorld a)) = Some (wh_port (cw_webhook (ap_ChanWorld a)))"
  using assms
  by (auto simp: Build_def Let_def DefaultConfig_def websocket_WithAuth_def websocket_New_def webhook_New_def int64_def
      split: sum.splits)

text \<open>The channels of the built application: the terminal and the webhooks always, the others as configured.\<close>

lemma build_channel_names:
  assumes "Build L b cfg = Inr a"
  shows "dom (mg_channels (ap_Channels a)) =
     {''repl'', ''webhook''} \<union> (if cc_HTTP (cf_Channels cfg) then {''http''} else {}) \<union>
     (if cc_WebSocket (cf_Channels cfg) then {''websocket''} else {})"
  by (auto simp: build_state [OF assms] build_manager_def build_channels_def manager_Start_def merge_init_def manager_Add_def
      NewManager_def repl_chan_def webhook_chan_def gateway_chan_def websocket_chan_def repl_Name_def webhook_Name_def
      gateway_Name_def websocket_Name_def Let_def split: if_splits)

end
