(* ===== verification/Postgres_Agreement.thy ===== *)
theory Postgres_Agreement
  imports Postgres_DB
begin

text \<open>
  The PostgreSQL back end beside the in-memory one: a simulation that relates the states of both under the
  same calls, what follows for their reads, the order in which a thread is read, and where they differ.
\<close>

section \<open>Both back ends side by side\<close>

text \<open>
  The two back ends do the same calls side by side, as long as the server answers without faults, its JSON
  column gives back what was stored (\<open>un\<close> is \<open>json.Unmarshal\<close>), rows are visited completely, and a message
  or action record is saved under a new identifier for a conversation or job that exists.
\<close>

inductive twin_step :: "(string \<Rightarrow> tool_call list) \<Rightarrow> pg_db \<times> memory_db \<Rightarrow> pg_engine \<times> db_op \<Rightarrow> pg_db \<times> memory_db \<Rightarrow> bool"
  for un where
  twin_call: "calm un E \<Longrightarrow> admissible E d op \<Longrightarrow>
    twin_step un (d, m) (E, op)
      (snd (db_apply (postgres_database E) op d), snd (db_apply memory_database op m))"

definition row_core ::
  "(string \<Rightarrow> tool_call list) \<Rightarrow> message_row \<Rightarrow> string \<times> string \<times> string \<times> string \<times> string \<times> tool_call list" where
  "row_core un r =
     (mr_id r, mr_thread_id r, mr_user_id r, mr_role r, mr_content r,
      if length (mr_tool_calls r) > 0 then un (mr_tool_calls r) else [])"

definition setting_of :: "memory_db \<Rightarrow> string \<Rightarrow> string \<Rightarrow> string option" where
  "setting_of m u k = Option.bind (settings m u) (\<lambda>us. us k)"

definition agree_settings :: "pg_db \<Rightarrow> memory_db \<Rightarrow> bool" where
  "agree_settings d m \<longleftrightarrow>
     (\<forall>u k. map_option sr_value (find (is_setting u k) (t_settings d)) = setting_of m u k)"

definition agree_conversations :: "pg_db \<Rightarrow> memory_db \<Rightarrow> bool" where
  "agree_conversations d m \<longleftrightarrow>
     (\<forall>i. map_option conv_core (find (\<lambda>r. cv_ID r = i) (t_conversations d)) = map_option conv_core (conversations m i))"

definition agree_jobs :: "pg_db \<Rightarrow> memory_db \<Rightarrow> bool" where
  "agree_jobs d m \<longleftrightarrow>
     (\<forall>i. map_option job_core (find (\<lambda>r. job_ID r = i) (t_jobs d)) = map_option job_core (jobs m i))"

definition agree_messages :: "(string \<Rightarrow> tool_call list) \<Rightarrow> pg_db \<Rightarrow> memory_db \<Rightarrow> bool" where
  "agree_messages un d m \<longleftrightarrow>
     (\<forall>t. map (row_core un) (filter (\<lambda>r. mr_thread_id r = t) (t_messages d)) = map msg_core (messages m t))"

definition agree_actions :: "pg_db \<Rightarrow> memory_db \<Rightarrow> bool" where
  "agree_actions d m \<longleftrightarrow>
     (\<forall>j. map (\<lambda>r. act_core (scanActionRecord r)) (filter (\<lambda>r. cr_job_id r = j) (t_action_records d)) =
          map act_core (actions m j))"

definition agree :: "(string \<Rightarrow> tool_call list) \<Rightarrow> pg_db \<times> memory_db \<Rightarrow> bool" where
  "agree un s \<longleftrightarrow>
     (case s of (d, m) \<Rightarrow>
        pg_wf d \<and> agree_settings d m \<and> agree_conversations d m \<and> agree_messages un d m \<and> agree_jobs d m \<and>
        agree_actions d m)"

lemmas agree_defs = agree_settings_def agree_conversations_def agree_messages_def agree_jobs_def agree_actions_def

lemma setting_of_ops:
  "setting_of (set_setting u k v m) u' k' = (if u' = u \<and> k' = k then Some v else setting_of m u' k')"
  "setting_of (delete_setting u k m) u' k' = (if u' = u \<and> k' = k then None else setting_of m u' k')"
  by (auto simp: setting_of_def set_setting_def delete_setting_def Let_def split: option.splits)

lemma pg_setting_ops:
  "map_option sr_value (find (is_setting u' k') (filter (\<lambda>r. \<not> is_setting u k r) rows)) =
     (if u' = u \<and> k' = k then None else map_option sr_value (find (is_setting u' k') rows))"
  using pg_settings.look_del [of "(u, k)" "migrated\<lparr>t_settings := rows\<rparr>" "(u', k')"] by simp

text \<open>Which parts of the in-memory state an operation leaves alone.\<close>

lemma mem_frame [simp]:
  "settings (save_conversation now c m) = settings m" "settings (delete_conversation i m) = settings m"
  "settings (save_message now x m) = settings m" "settings (delete_messages_by_thread t m) = settings m"
  "settings (save_job now j m) = settings m" "settings (delete_job i m) = settings m"
  "settings (save_action_record now r m) = settings m" "settings (snd (update_job_status now i a b c' m)) = settings m"
  "jobs (set_setting u k v m) = jobs m" "jobs (delete_setting u k m) = jobs m"
  "jobs (save_conversation now c m) = jobs m" "jobs (delete_conversation i m) = jobs m"
  "jobs (save_message now x m) = jobs m" "jobs (delete_messages_by_thread t m) = jobs m"
  "jobs (save_action_record now r m) = jobs m"
  "messages (set_setting u k v m) = messages m" "messages (delete_setting u k m) = messages m"
  "messages (save_conversation now c m) = messages m" "messages (save_job now j m) = messages m"
  "messages (delete_job i m) = messages m" "messages (save_action_record now r m) = messages m"
  "messages (snd (update_job_status now i a b c' m)) = messages m"
  "actions (set_setting u k v m) = actions m" "actions (delete_setting u k m) = actions m"
  "actions (save_conversation now c m) = actions m" "actions (delete_conversation i m) = actions m"
  "actions (save_message now x m) = actions m" "actions (delete_messages_by_thread t m) = actions m"
  "actions (save_job now j m) = actions m" "actions (snd (update_job_status now i a b c' m)) = actions m"
  by (simp_all add: save_conversation_def delete_conversation_def save_message_def delete_messages_by_thread_def save_job_def
      delete_job_def save_action_record_def update_job_status_def set_setting_def delete_setting_def Let_def split: option.splits)

lemma agree_settings_frame:
  "settings m' = settings m \<Longrightarrow> t_settings d' = t_settings d \<Longrightarrow> agree_settings d m \<Longrightarrow> agree_settings d' m'"
  by (simp add: agree_settings_def setting_of_def)

lemma t_settings_drop [simp]:
  "t_settings (drop_conversation i d) = t_settings d" "t_settings (drop_job i d) = t_settings d"
  "t_jobs (drop_conversation i d) = t_jobs d" "t_action_records (drop_conversation i d) = t_action_records d"
  "t_conversations (drop_job i d) = t_conversations d" "t_messages (drop_job i d) = t_messages d"
  by (simp_all add: drop_conversation_def drop_job_def)

lemma agree_settings_step:
  assumes "agree_settings d m"
  shows "agree_settings (pg_effect E op d) (snd (db_apply memory_database op m))"
proof (cases op)
  case (OpSetSetting u k v)
  with assms show ?thesis
    by (simp add: agree_settings_def memory_database_def find_upsert_setting setting_of_ops)
next
  case (OpDeleteSetting u k)
  with assms show ?thesis
    by (simp add: agree_settings_def memory_database_def pg_setting_ops setting_of_ops)
qed (use assms in \<open>simp_all add: agree_settings_frame memory_database_def\<close>)

lemma find_filter_other:
  "map_option core (find (\<lambda>r. key r = i') (filter (\<lambda>r. key r \<noteq> i) rows)) =
     (if i' = i then None else map_option core (find (\<lambda>r. key r = i') rows))"
  by (auto simp: find_removed intro!: arg_cong [where f = "map_option core"] find_kept)

lemma find_drop_conversation:
  "map_option conv_core (find (\<lambda>r. cv_ID r = i') (t_conversations (drop_conversation i d))) =
     (if i' = i then None else map_option conv_core (find (\<lambda>r. cv_ID r = i') (t_conversations d)))"
  by (auto simp: drop_conversation_def find_filter_other find_None_iff)

lemma find_touch_conversation:
  "map_option conv_core (find (\<lambda>r. cv_ID r = i') (t_conversations (touch_conversation E i d))) =
     map_option conv_core (find (\<lambda>r. cv_ID r = i') (t_conversations d))"
proof -
  let ?f = "\<lambda>r. if cv_ID r = i then r\<lparr>cv_UpdatedAt := pe_time E (pe_now E)\<rparr> else r"
  have "find (\<lambda>r. cv_ID r = i') (map ?f (t_conversations d)) = map_option ?f (find (\<lambda>r. cv_ID r = i') (t_conversations d))"
    by (rule find_map_stable) simp
  moreover have "conv_core (?f r) = conv_core r" for r
    by (simp add: conv_core_def)
  ultimately show ?thesis
    by (simp add: touch_conversation_def option.map_comp comp_def)
qed

lemma conv_core_ops:
  "map_option conv_core (conversations (save_message now x m) i) = map_option conv_core (conversations m i)"
  by (auto simp: save_message_def Let_def conv_core_def split: option.splits)

lemma agree_conversations_step:
  assumes "agree_conversations d m"
  shows "agree_conversations (pg_effect E op d) (snd (db_apply memory_database op m))"
  using assms
  by (cases op)
     (auto simp: agree_conversations_def memory_database_def find_upsert_conversation find_drop_conversation
        find_touch_conversation conv_core_ops drop_job_def save_conversation_def delete_conversation_def set_setting_def
        delete_setting_def delete_messages_by_thread_def save_job_def update_job_status_def delete_job_def
        save_action_record_def Let_def split: option.splits)

lemma find_drop_job:
  "map_option job_core (find (\<lambda>r. job_ID r = i') (t_jobs (drop_job i d))) =
     (if i' = i then None else map_option job_core (find (\<lambda>r. job_ID r = i') (t_jobs d)))"
  by (auto simp: drop_job_def find_filter_other find_None_iff)

lemma find_update_job:
  assumes "\<And>r. job_ID (f r) = job_ID r"
  shows "find (\<lambda>r. job_ID r = i') (map (\<lambda>r. if job_ID r = i then f r else r) rows) =
    (if i' = i then map_option f else id) (find (\<lambda>r. job_ID r = i') rows)"
  using assms by (induction rows) auto

lemma agree_jobs_frame:
  "jobs m' = jobs m \<Longrightarrow> t_jobs d' = t_jobs d \<Longrightarrow> agree_jobs d m \<Longrightarrow> agree_jobs d' m'"
  by (simp add: agree_jobs_def)

lemma agree_jobs_step:
  assumes "agree_jobs d m"
  shows "agree_jobs (pg_effect E op d) (snd (db_apply memory_database op m))"
proof (cases op)
  case (OpSaveJob now j)
  with assms show ?thesis by (simp add: agree_jobs_def memory_database_def find_upsert_job save_job_def)
next
  case (OpDeleteJob i)
  with assms show ?thesis by (simp add: agree_jobs_def memory_database_def find_drop_job delete_job_def)
next
  case (OpUpdateJob now i s o' e)
  have "map_option job_core (find (\<lambda>r. job_ID r = i') (t_jobs (pg_effect E op d))) =
      map_option job_core (jobs (snd (update_job_status now i s o' e m)) i')" for i'
  proof -
    have a: "map_option job_core (find (\<lambda>r. job_ID r = i') (t_jobs d)) = map_option job_core (jobs m i')"
      using assms by (simp add: agree_jobs_def)
    show ?thesis
      unfolding OpUpdateJob pg_effect.simps
      using a by (cases "jobs m i'"; cases "jobs m i"; cases "find (\<lambda>r. job_ID r = i') (t_jobs d)")
        (auto simp: find_update_job update_job_status_def job_core_def)
  qed
  with OpUpdateJob show ?thesis by (simp add: agree_jobs_def memory_database_def)
qed (use assms in \<open>simp_all add: agree_jobs_frame memory_database_def\<close>)

lemma agree_messages_frame:
  "messages m' = messages m \<Longrightarrow> t_messages d' = t_messages d \<Longrightarrow> agree_messages un d m \<Longrightarrow> agree_messages un d' m'"
  by (simp add: agree_messages_def)

text \<open>A thread without a conversation has no messages, so the cascade deletes the whole thread in either case.\<close>

lemma t_messages_drop:
  assumes "pg_wf d"
  shows "t_messages (drop_conversation i d) = filter (\<lambda>r. mr_thread_id r \<noteq> i) (t_messages d)"
proof (cases "\<exists>r \<in> set (t_conversations d). cv_ID r = i")
  case False
  then have "mr_thread_id r \<noteq> i" if "r \<in> set (t_messages d)" for r
    using assms that by (force simp: pg_wf_def image_subset_iff image_iff)
  with False show ?thesis by (simp add: drop_conversation_def)
qed (simp add: drop_conversation_def)

lemma filter_thread: "filter (\<lambda>r. f r \<noteq> i \<and> f r = t) rows = (if t = i then [] else filter (\<lambda>r. f r = t) rows)"
  by (induction rows) auto

lemma agree_messages_step:
  assumes "agree_messages un d m" and "pg_wf d" and "calm un E" and "admissible E d op"
  shows "agree_messages un (pg_effect E op d) (snd (db_apply memory_database op m))"
proof (cases op)
  case (OpSaveMessage now x)
  obtain js where js: "pe_marshal E (msg_ToolCalls x) = Inr js" "pe_jsonb E js \<noteq> []" "un (pe_jsonb E js) = msg_ToolCalls x"
    using assms(3,4) by (auto simp: OpSaveMessage calm_def elim: stores_marshal)
  then have "row_core un (message_row_of E (stamp_message now x) js) = msg_core x"
    by (simp add: row_core_def message_row_of_def msg_core_def) (simp add: stamp_message_def)
  moreover have "mr_thread_id (message_row_of E (stamp_message now x) js) = msg_ThreadID x"
    by (simp add: message_row_of_def)
  ultimately show ?thesis
    using assms(1) js(1) by (simp add: OpSaveMessage agree_messages_def memory_database_def messages_save_message)
next
  case (OpDeleteConversation i)
  with assms(1,2) show ?thesis
    by (simp add: agree_messages_def memory_database_def t_messages_drop filter_thread delete_conversation_def)
next
  case (OpDeleteMessages t)
  with assms(1) show ?thesis
    by (simp add: agree_messages_def memory_database_def filter_thread delete_messages_by_thread_def)
qed (use assms in \<open>simp_all add: agree_messages_frame memory_database_def\<close>)

lemma agree_actions_frame:
  "actions m' = actions m \<Longrightarrow> t_action_records d' = t_action_records d \<Longrightarrow> agree_actions d m \<Longrightarrow> agree_actions d' m'"
  by (simp add: agree_actions_def)

lemma t_actions_drop:
  assumes "pg_wf d"
  shows "t_action_records (drop_job i d) = filter (\<lambda>r. cr_job_id r \<noteq> i) (t_action_records d)"
proof (cases "\<exists>r \<in> set (t_jobs d). job_ID r = i")
  case False
  then have "cr_job_id r \<noteq> i" if "r \<in> set (t_action_records d)" for r
    using assms that by (force simp: pg_wf_def image_subset_iff image_iff)
  with False show ?thesis by (simp add: drop_job_def)
qed (simp add: drop_job_def)

lemma agree_actions_step:
  assumes "agree_actions d m" and "pg_wf d"
  shows "agree_actions (pg_effect E op d) (snd (db_apply memory_database op m))"
proof (cases op)
  case (OpSaveAction now r)
  have "act_core (scanActionRecord (action_row_of E (stamp_action now r))) = act_core (stamp_action now r)"
    by (simp add: act_core_def scanActionRecord_def action_row_of_def)
  moreover have "cr_job_id (action_row_of E (stamp_action now r)) = ar_JobID r"
    by (simp add: action_row_of_def)
  ultimately show ?thesis
    using assms(1) by (simp add: OpSaveAction agree_actions_def memory_database_def save_action_record_def)
next
  case (OpDeleteJob i)
  with assms show ?thesis
    by (simp add: agree_actions_def memory_database_def t_actions_drop filter_thread delete_job_def)
qed (use assms in \<open>simp_all add: agree_actions_frame memory_database_def\<close>)

lemma twin_step_agree: "twin_step un s l s' \<Longrightarrow> agree un s \<Longrightarrow> agree un s'"
proof (induction rule: twin_step.induct)
  case (twin_call E d op m)
  have eff: "snd (db_apply (postgres_database E) op d) = pg_effect E op d"
    using calm_apply [OF twin_call.hyps] by simp
  have "pg_wf (pg_effect E op d)"
    using pg_step_wf [OF pg_call [OF calm_apply [OF twin_call.hyps]]] twin_call.prems by (simp add: agree_def)
  with twin_call show ?case
    by (simp add: agree_def eff agree_settings_step agree_conversations_step agree_jobs_step agree_messages_step
        agree_actions_step)
qed

interpretation twins: step_invariant "\<lambda>s. s = (migrated, new_memory_db)" "twin_step un" "agree un" for un
proof
  show "agree un s" if "s = (migrated, new_memory_db)" for s
    using that by (simp add: agree_def agree_defs pg_wf_def migrated_def new_memory_db_def setting_of_def)
qed (rule twin_step_agree)

text \<open>The value of a successful read.\<close>

fun found :: "string + 'a \<Rightarrow> 'a option" where
  "found (Inl err) = None"
| "found (Inr x) = Some x"

text \<open>
  Where the stored times strictly increase, sorting by them restores the order in which the rows were
  stored, whatever order the server visits them in.
\<close>

lemma visited_in_order:
  assumes "mset (pe_visit_messages E rows) = mset rows" and "sorted_wrt (<) (map mr_created_at rows)"
  shows "sort_key mr_created_at (pe_visit_messages E rows) = rows"
proof -
  have st: "sorted (map mr_created_at rows)" and di: "distinct (map mr_created_at rows)"
    using assms(2) strict_sorted_iff by blast+
  have "inj_on mr_created_at (set (pe_visit_messages E rows))"
    using di mset_eq_setD [OF assms(1)] by (simp add: distinct_map)
  then show ?thesis by (rule sort_key_inj_key_eq [OF assms(1) _ st])
qed


definition demo_memory :: memory_db where
  "demo_memory = save_message 6 demo_message (save_conversation 5 demo_conversation new_memory_db)"

lemma demo_twin_run: "run (twin_step (\<lambda>js. [])) (migrated, new_memory_db) demo_calls (demo_tables, demo_memory)"
proof -
  let ?op1 = "OpSaveConversation 5 demo_conversation" and ?op2 = "OpSaveMessage 6 demo_message"
  let ?d1 = "pg_effect demo_engine ?op1 migrated" and ?m1 = "save_conversation 5 demo_conversation new_memory_db"
  have "twin_step (\<lambda>js. []) (migrated, new_memory_db) (demo_engine, ?op1) (?d1, ?m1)"
    using twin_call [OF demo_calm demo_admissible(1), of new_memory_db]
    by (simp only: calm_apply [OF demo_calm demo_admissible(1)]) (simp add: memory_database_def)
  moreover have "twin_step (\<lambda>js. []) (?d1, ?m1) (demo_engine, ?op2) (demo_tables, demo_memory)"
    using twin_call [OF demo_calm demo_admissible(2), of ?m1]
    by (simp only: calm_apply [OF demo_calm demo_admissible(2)] demo_tables_def [symmetric])
       (simp add: memory_database_def demo_memory_def)
  ultimately show ?thesis
    unfolding demo_calls_def by (blast intro: run_Cons run.run_nil)
qed


section \<open>Order, precision and differences\<close>

text \<open>
  The messages of a thread are read in the order of their stored times; where these strictly increase
  it is the order in which they were saved, whatever order the server visits the rows in.
\<close>

lemma postgres_thread_order:
  assumes "calm un E" and "sorted_wrt (<) (map mr_created_at (filter (\<lambda>r. mr_thread_id r = t) (t_messages d)))"
    and "0 < limit"
  shows "pg_GetMessagesByThread E t limit 0 d =
    Inr (take (nat limit) (map (scanMessage E) (filter (\<lambda>r. mr_thread_id r = t) (t_messages d))))"
proof -
  let ?rows = "filter (\<lambda>r. mr_thread_id r = t) (t_messages d)"
  have "mset (pe_visit_messages E ?rows) = mset ?rows"
    using assms(1) by (simp add: calm_def)
  then have "sort_key mr_created_at (pe_visit_messages E ?rows) = ?rows"
    by (rule visited_in_order [OF _ assms(2)])
  with assms(1,3) show ?thesis
    by (simp add: pg_GetMessagesByThread_def sql_rows_def limit_offset_def calm_def take_map)
qed

text \<open>A duration is stored in whole milliseconds: what is read back is the duration rounded down.\<close>

lemma duration_precision:
  assumes "0 \<le> dur" and "dur < 2 ^ 63"
  shows "int64 (duration_ms dur * 1000000) \<le> dur \<and> dur < int64 (duration_ms dur * 1000000) + 1000000"
proof -
  define q where "q = dur div 1000000"
  have q: "q * 1000000 \<le> dur" "dur < q * 1000000 + 1000000" "0 \<le> q"
    using assms(1) by (simp_all add: q_def pos_imp_zdiv_nonneg_iff)
  then have "int64 (q * 1000000) = q * 1000000"
    using assms(2) by (intro int64_id) auto
  with q assms(1) show ?thesis
    by (simp add: duration_ms_def q_def [symmetric])
qed

text \<open>An action record whose job does not exist is refused, and nothing is stored.\<close>

lemma record_without_job_refused:
  assumes "find (\<lambda>j. job_ID j = ar_JobID r) (t_jobs d) = None"
  shows "fst (pg_SaveActionRecord E now r d) \<noteq> None \<and> snd (pg_SaveActionRecord E now r d) = d"
  using assms by (auto simp: pg_SaveActionRecord_def sql_exec_def wrapped_def action_violates_def find_None_iff
      split: option.splits)

text \<open>Updating a job that does not exist is an error in memory and none in PostgreSQL.\<close>

lemma missing_job_update_differs:
  assumes "pe_fault E 0 = None"
  shows "fst (pg_UpdateJobStatus E i s o' e migrated) = None \<and> fst (update_job_status now i s o' e new_memory_db) \<noteq> None"
  using assms by (simp add: pg_UpdateJobStatus_def wrapped_def sql_exec_def update_job_status_def new_memory_db_def)

text \<open>A negative offset is an error from PostgreSQL, where the in-memory back end panics.\<close>

lemma postgres_negative_offset:
  "offset < 0 \<Longrightarrow> isl (pg_GetMessagesByThread E t limit offset d) \<and> get_messages_by_thread t limit offset m = None"
  by (simp add: pg_GetMessagesByThread_def sql_rows_def negative_offset_panics Let_def split: option.splits)

text \<open>A pool size beyond 32 bits wraps, here to a negative one.\<close>

lemma pool_size_wraps:
  "NewPostgresDB (\<lambda>_. Inr \<lparr>pc_MaxConns = 4, pc_MinConns = 0\<rparr>) (\<lambda>_. None) None None dsn (2 ^ 31) 0 =
     Inr (\<lparr>pc_MaxConns = - (2 ^ 31), pc_MinConns = 0\<rparr>, migrated)"
  by (simp add: NewPostgresDB_def int32_def migrate_def)

end
