(* ===== verification/Orchestrator.thy ===== *)
theory Orchestrator
  imports Go_Prelude
begin

text \<open>
  Job orchestration (\<open>internal/orchestrator\<close>): the job manager, the token store, the reaper and the
  orchestrator on top of them. A job is shared by pointer, but only the manager and the reaper write
  to it, so it is stored by value. The reaper visits a snapshot of the jobs and reads each one as it
  is at that moment; what another goroutine does in between is another step of the manager.
\<close>

section \<open>Jobs\<close>

datatype job_status = JobPending | JobInProgress | JobCompleted | JobFailed | JobCancelled

definition job_status_text :: "job_status \<Rightarrow> string" where
  "job_status_text s =
     (case s of
        JobPending \<Rightarrow> ''pending''
      | JobInProgress \<Rightarrow> ''in_progress''
      | JobCompleted \<Rightarrow> ''completed''
      | JobFailed \<Rightarrow> ''failed''
      | JobCancelled \<Rightarrow> ''cancelled'')"

definition is_terminal :: "job_status \<Rightarrow> bool" where
  "is_terminal s \<longleftrightarrow> s = JobCompleted \<or> s = JobFailed \<or> s = JobCancelled"

record ojob =
  oj_ID :: string
  oj_UserID :: string
  oj_Title :: string
  oj_Description :: string
  oj_Status :: job_status
  oj_CreatedAt :: instant
  oj_StartedAt :: "instant option"
  oj_CompletedAt :: "instant option"
  oj_Error :: string
  oj_Result :: string

record orch_config =
  oc_MaxConcurrentJobs :: int
  oc_JobTimeout :: duration
  oc_ReaperInterval :: duration

definition orch_default_config :: orch_config where
  "orch_default_config = \<lparr>oc_MaxConcurrentJobs = 4, oc_JobTimeout = 30 * minute, oc_ReaperInterval = 5 * minute\<rparr>"

section \<open>The job manager\<close>

record job_manager =
  jm_jobs :: "string \<rightharpoonup> ojob"
  jm_byUser :: "string \<Rightarrow> string list"
  jm_maxJobs :: int

definition new_memory_job_manager :: "int \<Rightarrow> job_manager" where
  "new_memory_job_manager maxJobs = \<lparr>jm_jobs = Map.empty, jm_byUser = (\<lambda>_. []), jm_maxJobs = maxJobs\<rparr>"

definition jm_create ::
  "instant \<Rightarrow> string \<Rightarrow> string \<Rightarrow> string \<Rightarrow> string \<Rightarrow> job_manager \<Rightarrow> (string + ojob) \<times> job_manager" where
  "jm_create now newID userID title description m =
     (if jm_maxJobs m > 0 \<and> int (map_len (jm_jobs m)) \<ge> jm_maxJobs m
      then (Inl (''max concurrent jobs ('' @ show_int (jm_maxJobs m) @ '') reached''), m)
      else let j = \<lparr>oj_ID = newID, oj_UserID = userID, oj_Title = title, oj_Description = description,
                   oj_Status = JobPending, oj_CreatedAt = now, oj_StartedAt = None, oj_CompletedAt = None,
                   oj_Error = [], oj_Result = []\<rparr>
           in (Inr j, m\<lparr>jm_jobs := (jm_jobs m)(newID \<mapsto> j),
                      jm_byUser := (jm_byUser m)(userID := jm_byUser m userID @ [newID])\<rparr>))"

definition jm_get :: "string \<Rightarrow> job_manager \<Rightarrow> ojob option" where
  "jm_get jobID m = jm_jobs m jobID"

definition jm_list_by_user :: "string \<Rightarrow> job_manager \<Rightarrow> ojob list" where
  "jm_list_by_user userID m = List.map_filter (jm_jobs m) (jm_byUser m userID)"

definition set_status :: "instant \<Rightarrow> job_status \<Rightarrow> ojob \<Rightarrow> ojob" where
  "set_status now status j =
     (case status of
        JobInProgress \<Rightarrow> j\<lparr>oj_StartedAt := Some now\<rparr>
      | JobPending \<Rightarrow> j
      | _ \<Rightarrow> j\<lparr>oj_CompletedAt := Some now\<rparr>)\<lparr>oj_Status := status\<rparr>"

definition jm_update_status ::
  "(string \<Rightarrow> string) \<Rightarrow> instant \<Rightarrow> string \<Rightarrow> job_status \<Rightarrow> job_manager \<Rightarrow> string option \<times> job_manager" where
  "jm_update_status q now jobID status m =
     (case jm_jobs m jobID of
        None \<Rightarrow> (Some (''job '' @ q jobID @ '' not found''), m)
      | Some j \<Rightarrow> (None, m\<lparr>jm_jobs := (jm_jobs m)(jobID \<mapsto> set_status now status j)\<rparr>))"

definition jm_all :: "string list \<Rightarrow> job_manager \<Rightarrow> ojob list" where
  "jm_all ks m = map snd (range_map ks (jm_jobs m))"

section \<open>The reaper\<close>

definition timeout_error :: string where
  "timeout_error = ''timeout: job exceeded maximum duration''"

definition overdue :: "duration \<Rightarrow> instant \<Rightarrow> ojob \<Rightarrow> bool" where
  "overdue jobTimeout now j \<longleftrightarrow>
     oj_Status j = JobInProgress \<and>
     (case oj_StartedAt j of None \<Rightarrow> False | Some t \<Rightarrow> now - t > jobTimeout)"

text \<open>One round of the loop: \<open>now\<close> is the reading of the scan, \<open>tick\<close> that of the status update.\<close>

definition reap_job ::
  "(string \<Rightarrow> string) \<Rightarrow> duration \<Rightarrow> instant \<Rightarrow> instant \<Rightarrow> string \<Rightarrow> job_manager \<Rightarrow> job_manager" where
  "reap_job q jobTimeout now tick jobID m =
     (case jm_jobs m jobID of
        None \<Rightarrow> m
      | Some j \<Rightarrow>
          if overdue jobTimeout now j
          then let m' = snd (jm_update_status q tick jobID JobFailed m)
               in m'\<lparr>jm_jobs := (jm_jobs m')(jobID := map_option (\<lambda>j. j\<lparr>oj_Error := timeout_error\<rparr>) (jm_jobs m' jobID))\<rparr>
          else m)"

definition cleanup ::
  "(string \<Rightarrow> string) \<Rightarrow> duration \<Rightarrow> instant \<Rightarrow> instant \<Rightarrow> string list \<Rightarrow> job_manager \<Rightarrow> job_manager" where
  "cleanup q jobTimeout now tick ks m =
     fold (reap_job q jobTimeout now tick) (map oj_ID (jm_all ks m)) m"

section \<open>Tokens\<close>

type_synonym token_store = "string \<rightharpoonup> string"

definition new_token_store :: token_store where
  "new_token_store = Map.empty"

text \<open>\<open>hex.EncodeToString\<close> of the random bytes.\<close>

definition hex_digit :: "nat \<Rightarrow> char" where
  "hex_digit n = (if n < 10 then char_of (48 + n) else char_of (87 + n))"

definition encode_hex :: "string \<Rightarrow> string" where
  "encode_hex b = concat (map (\<lambda>c. [hex_digit (of_char c div 16), hex_digit (of_char c mod 16)]) b)"

definition ts_generate :: "string \<Rightarrow> string \<Rightarrow> token_store \<Rightarrow> string \<times> token_store" where
  "ts_generate b jobID s = (encode_hex b, s(jobID \<mapsto> encode_hex b))"

definition ts_get :: "string \<Rightarrow> token_store \<Rightarrow> string option" where
  "ts_get jobID s = s jobID"

definition ts_validate :: "string \<Rightarrow> string \<Rightarrow> token_store \<Rightarrow> bool" where
  "ts_validate jobID token s = (case s jobID of None \<Rightarrow> False | Some expected \<Rightarrow> expected = token)"

definition ts_revoke :: "string \<Rightarrow> token_store \<Rightarrow> token_store" where
  "ts_revoke jobID s = s(jobID := None)"

section \<open>The orchestrator\<close>

record orchestrator =
  o_config :: orch_config
  o_jm :: job_manager
  o_ts :: token_store
  o_jobTimeout :: duration

definition new_orchestrator :: "orch_config \<Rightarrow> orchestrator" where
  "new_orchestrator cfg = \<lparr>o_config = cfg, o_jm = new_memory_job_manager (oc_MaxConcurrentJobs cfg),
     o_ts = new_token_store, o_jobTimeout = oc_JobTimeout cfg\<rparr>"

definition create_job ::
  "instant \<Rightarrow> string \<Rightarrow> string \<Rightarrow> string \<Rightarrow> string \<Rightarrow> string \<Rightarrow> orchestrator \<Rightarrow> (string + ojob) \<times> orchestrator" where
  "create_job now newID b userID title description orc =
     (case jm_create now newID userID title description (o_jm orc) of
        (Inl e, m) \<Rightarrow> (Inl (''create job: '' @ e), orc\<lparr>o_jm := m\<rparr>)
      | (Inr j, m) \<Rightarrow> (Inr j, orc\<lparr>o_jm := m, o_ts := snd (ts_generate b (oj_ID j) (o_ts orc))\<rparr>))"

definition list_user_jobs :: "string \<Rightarrow> orchestrator \<Rightarrow> ojob list" where
  "list_user_jobs userID orc = jm_list_by_user userID (o_jm orc)"

definition get_ojob :: "string \<Rightarrow> orchestrator \<Rightarrow> ojob option" where
  "get_ojob jobID orc = jm_get jobID (o_jm orc)"

definition cancel_job :: "(string \<Rightarrow> string) \<Rightarrow> instant \<Rightarrow> string \<Rightarrow> orchestrator \<Rightarrow> string option \<times> orchestrator" where
  "cancel_job q now jobID orc =
     (case jm_update_status q now jobID JobCancelled (o_jm orc) of
        (Some e, m) \<Rightarrow> (Some (''cancel job: '' @ e), orc\<lparr>o_jm := m\<rparr>)
      | (None, m) \<Rightarrow> (None, orc\<lparr>o_jm := m\<rparr>))"

definition validate_token :: "string \<Rightarrow> string \<Rightarrow> orchestrator \<Rightarrow> bool" where
  "validate_token jobID token orc = ts_validate jobID token (o_ts orc)"

definition job_token :: "string \<Rightarrow> orchestrator \<Rightarrow> string option" where
  "job_token jobID orc = ts_get jobID (o_ts orc)"

text \<open>One tick of the background loop.\<close>

definition reaper_tick ::
  "(string \<Rightarrow> string) \<Rightarrow> instant \<Rightarrow> instant \<Rightarrow> string list \<Rightarrow> orchestrator \<Rightarrow> orchestrator" where
  "reaper_tick q now tick ks orc = orc\<lparr>o_jm := cleanup q (o_jobTimeout orc) now tick ks (o_jm orc)\<rparr>"

section \<open>Runs of the job manager\<close>

datatype job_event = JobCreated string string | JobUpdated string job_status | JobReaped string

inductive job_step :: "job_manager \<Rightarrow> job_event \<Rightarrow> job_manager \<Rightarrow> bool" where
  step_create: "jm_jobs m i = None \<Longrightarrow> jm_create now i u title d m = (r, m') \<Longrightarrow> job_step m (JobCreated u i) m'"
| step_update: "jm_update_status q now i st m = (r, m') \<Longrightarrow> job_step m (JobUpdated i st) m'"
| step_reap: "job_step m (JobReaped i) (reap_job q jobTimeout now tick i m)"

inductive_cases job_stepE: "job_step m e m'"

text \<open>
  The invariant: jobs are filed under their own identifier, the list of a user names the user's jobs
  once each, and the number of jobs respects the limit.
\<close>

definition user_jobs :: "job_manager \<Rightarrow> string \<Rightarrow> string set" where
  "user_jobs m u = {i. \<exists>j. jm_jobs m i = Some j \<and> oj_UserID j = u}"

definition job_inv :: "job_manager \<Rightarrow> bool" where
  "job_inv m \<longleftrightarrow> finite (dom (jm_jobs m)) \<and> (\<forall>i j. jm_jobs m i = Some j \<longrightarrow> oj_ID j = i) \<and>
     (\<forall>u. distinct (jm_byUser m u) \<and> set (jm_byUser m u) = user_jobs m u) \<and>
     (jm_maxJobs m > 0 \<longrightarrow> int (map_len (jm_jobs m)) \<le> jm_maxJobs m)"

lemma set_status_keeps [simp]:
  "oj_ID (set_status now s j) = oj_ID j" "oj_UserID (set_status now s j) = oj_UserID j"
  "oj_Status (set_status now s j) = s"
  by (cases s; simp add: set_status_def)+

text \<open>An update of one job that keeps its identity keeps the invariant.\<close>

lemma job_inv_update:
  assumes "job_inv m" and "jm_jobs m i = Some j" and "oj_ID j' = oj_ID j" and "oj_UserID j' = oj_UserID j"
  shows "job_inv (m\<lparr>jm_jobs := (jm_jobs m)(i \<mapsto> j')\<rparr>)"
proof -
  have "user_jobs (m\<lparr>jm_jobs := (jm_jobs m)(i \<mapsto> j')\<rparr>) u = user_jobs m u" for u
    using assms(2,4) by (auto simp: user_jobs_def)
  moreover have "dom ((jm_jobs m)(i \<mapsto> j')) = dom (jm_jobs m)"
    using assms(2) by auto
  ultimately show ?thesis
    using assms by (simp add: job_inv_def map_len_def del: dom_fun_upd)
qed

lemma update_status_inv:
  "job_inv m \<Longrightarrow> jm_update_status q now i st m = (r, m') \<Longrightarrow> job_inv m'"
  using job_inv_update [of m i _ "set_status now st _"]
  by (auto simp: jm_update_status_def split: option.splits)

lemma reap_job_overdue:
  assumes "jm_jobs m i = Some j" and "overdue jobTimeout now j"
  shows "reap_job q jobTimeout now tick i m =
    m\<lparr>jm_jobs := (jm_jobs m)(i \<mapsto> (set_status tick JobFailed j)\<lparr>oj_Error := timeout_error\<rparr>)\<rparr>"
  using assms by (simp add: reap_job_def jm_update_status_def Let_def)

lemma reap_job_other:
  "\<not> (\<exists>j. jm_jobs m i = Some j \<and> overdue jobTimeout now j) \<Longrightarrow> reap_job q jobTimeout now tick i m = m"
  by (simp add: reap_job_def split: option.splits)

lemma reap_job_inv: "job_inv m \<Longrightarrow> job_inv (reap_job q jobTimeout now tick i m)"
proof (cases "\<exists>j. jm_jobs m i = Some j \<and> overdue jobTimeout now j")
  case True
  assume inv: "job_inv m"
  from True obtain j where j: "jm_jobs m i = Some j" "overdue jobTimeout now j" by blast
  show ?thesis
    unfolding reap_job_overdue [OF j] by (rule job_inv_update [OF inv j(1)]) simp_all
next
  case False
  assume "job_inv m"
  then show ?thesis using reap_job_other [OF False] by simp
qed

lemma job_create_inv:
  assumes "job_inv m" and "jm_jobs m i = None" and "jm_create now i u title d m = (r, m')"
  shows "job_inv m'"
proof (cases r)
  case (Inl e)
  with assms show ?thesis by (auto simp: jm_create_def Let_def split: if_splits)
next
  case (Inr j)
  with assms(3) have m': "m' = m\<lparr>jm_jobs := (jm_jobs m)(i \<mapsto> j),
        jm_byUser := (jm_byUser m)(u := jm_byUser m u @ [i])\<rparr>"
    and j: "oj_ID j = i" "oj_UserID j = u" and room: "jm_maxJobs m > 0 \<longrightarrow> int (map_len (jm_jobs m)) < jm_maxJobs m"
    by (auto simp: jm_create_def Let_def split: if_splits)
  have "user_jobs m' v = (if v = u then insert i (user_jobs m u) else user_jobs m v)" for v
    using j assms(2) by (auto simp: user_jobs_def m')
  moreover have "i \<notin> user_jobs m u" using assms(2) by (simp add: user_jobs_def)
  moreover have "map_len (jm_jobs m') = Suc (map_len (jm_jobs m))"
    using assms(1,2) by (simp add: m' map_len_fresh job_inv_def)
  ultimately show ?thesis
    using assms(1) j room by (auto simp: job_inv_def m')
qed

interpretation job_runs: step_invariant "\<lambda>m. \<exists>n. m = new_memory_job_manager n" job_step job_inv
proof
  fix m assume "\<exists>n. m = new_memory_job_manager n"
  then show "job_inv m"
    by (auto simp: job_inv_def new_memory_job_manager_def user_jobs_def map_len_def)
next
  fix m e m' assume "job_step m e m'" and "job_inv m"
  then show "job_inv m'"
    by (cases rule: job_step.cases) (auto intro: job_create_inv update_status_inv reap_job_inv)
qed

lemma step_keeps_limit: "job_step m e m' \<Longrightarrow> jm_maxJobs m' = jm_maxJobs m"
  by (cases rule: job_step.cases)
    (auto simp: jm_create_def jm_update_status_def reap_job_def Let_def split: if_splits option.splits)

lemma run_keeps_limit: "run job_step m es m' \<Longrightarrow> jm_maxJobs m' = jm_maxJobs m"
  by (induction rule: run.induct) (simp_all add: step_keeps_limit)

lemma jobs_of_list:
  assumes "job_inv m"
  shows "jm_list_by_user u m = map (\<lambda>i. the (jm_jobs m i)) (jm_byUser m u)"
proof -
  have "\<forall>i \<in> set (jm_byUser m u). \<exists>j. jm_jobs m i = Some j"
    using assms by (auto simp: job_inv_def user_jobs_def)
  then show ?thesis
    unfolding jm_list_by_user_def by (induction "jm_byUser m u" rule: list.induct) (auto simp: List.map_filter_def filter_id_conv)
qed

lemma cleanup_fold:
  "distinct is \<Longrightarrow> jm_jobs (fold (reap_job q jobTimeout now tick) is m) i =
     (if i \<in> set is then map_option (\<lambda>j. if overdue jobTimeout now j
        then (set_status tick JobFailed j)\<lparr>oj_Error := timeout_error\<rparr> else j) (jm_jobs m i)
      else jm_jobs m i)"
proof (induction "is" arbitrary: m)
  case (Cons k ks)
  have step: "jm_jobs (reap_job q jobTimeout now tick k m) i =
      (if i = k then map_option (\<lambda>j. if overdue jobTimeout now j
         then (set_status tick JobFailed j)\<lparr>oj_Error := timeout_error\<rparr> else j) (jm_jobs m i) else jm_jobs m i)"
    by (cases "jm_jobs m k"; cases "\<exists>j. jm_jobs m k = Some j \<and> overdue jobTimeout now j")
      (auto simp: reap_job_overdue reap_job_other)
  from Cons.IH [of "reap_job q jobTimeout now tick k m"] Cons.prems step show ?case
    by (auto simp: option.map_comp)
qed simp

section \<open>Properties\<close>

text \<open>
  C23: the job manager's two indexes agree and its limit holds: after any interleaving of creations
  with fresh identifiers, status changes and reaping, the list of a user has exactly the user's
  jobs, each once, and there are never more jobs than the limit allows.
\<close>

theorem jobs_indexed_and_limited:
  assumes "run job_step (new_memory_job_manager n) es m"
  shows "set (jm_list_by_user u m) = {j. oj_UserID j = u \<and> jm_get (oj_ID j) m = Some j} \<and>
    distinct (map oj_ID (jm_list_by_user u m)) \<and>
    (n \<le> 0 \<or> int (map_len (jm_jobs m)) \<le> n)"
proof -
  have inv: "job_inv m"
    using job_runs.run_inv [OF _ assms] by blast
  have limit: "jm_maxJobs m = n"
    using run_keeps_limit [OF assms] by (simp add: new_memory_job_manager_def)
  have ids: "map oj_ID (jm_list_by_user u m) = jm_byUser m u"
    unfolding jobs_of_list [OF inv] using inv
    by (fastforce simp: job_inv_def user_jobs_def intro: map_idI)
  have "set (jm_list_by_user u m) = {j. oj_UserID j = u \<and> jm_get (oj_ID j) m = Some j}"
  proof -
    have key: "oj_ID j = i" if "jm_jobs m i = Some j" for i j
      using inv that by (simp add: job_inv_def)
    have "set (jm_list_by_user u m) = (\<lambda>i. the (jm_jobs m i)) ` user_jobs m u"
      using inv by (simp add: jobs_of_list [OF inv] job_inv_def)
    also have "\<dots> = {j. oj_UserID j = u \<and> jm_jobs m (oj_ID j) = Some j}"
    proof (intro equalityI subsetI)
      fix j assume "j \<in> (\<lambda>i. the (jm_jobs m i)) ` user_jobs m u"
      then obtain i where "jm_jobs m i = Some j" "oj_UserID j = u" by (auto simp: user_jobs_def)
      with key [of i j] show "j \<in> {j. oj_UserID j = u \<and> jm_jobs m (oj_ID j) = Some j}" by simp
    next
      fix j assume "j \<in> {j. oj_UserID j = u \<and> jm_jobs m (oj_ID j) = Some j}"
      then have "oj_ID j \<in> user_jobs m u" "j = the (jm_jobs m (oj_ID j))" by (auto simp: user_jobs_def)
      then show "j \<in> (\<lambda>i. the (jm_jobs m i)) ` user_jobs m u" by (metis imageI)
    qed
    finally show ?thesis by (simp add: jm_get_def)
  qed
  with ids inv limit show ?thesis
    by (auto simp: job_inv_def)
qed

definition demo_ojob :: ojob where
  "demo_ojob = \<lparr>oj_ID = ''j1'', oj_UserID = ''u'', oj_Title = ''t'', oj_Description = [], oj_Status = JobPending,
     oj_CreatedAt = 1, oj_StartedAt = None, oj_CompletedAt = None, oj_Error = [], oj_Result = []\<rparr>"

definition demo_manager :: job_manager where
  "demo_manager = \<lparr>jm_jobs = [''j1'' \<mapsto> demo_ojob], jm_byUser = (\<lambda>_. [])(''u'' := [''j1'']), jm_maxJobs = 1\<rparr>"

lemma demo_created: "jm_create 1 ''j1'' ''u'' ''t'' [] (new_memory_job_manager 1) = (Inr demo_ojob, demo_manager)"
  by (simp add: jm_create_def new_memory_job_manager_def map_len_def demo_ojob_def demo_manager_def Let_def)

theorem jobs_indexed_and_limited_witness:
  "distinct (map oj_ID (jm_list_by_user ''u'' demo_manager)) \<and> int (map_len (jm_jobs demo_manager)) \<le> 1"
proof -
  have "run job_step (new_memory_job_manager 1) [JobCreated ''u'' ''j1''] demo_manager"
    using run_Cons [of job_step, OF step_create [OF _ demo_created], of "[]"]
    by (simp add: new_memory_job_manager_def)
  from jobs_indexed_and_limited [OF this, of "''u''"] show ?thesis by simp
qed

text \<open>
  The reaper fails exactly the overdue jobs: a job in progress for longer than the timeout is
  marked failed with its completion time and the timeout error, and every other job is untouched.
\<close>

lemma cleanup_fails_overdue:
  assumes "job_inv m" and "range_order ks (jm_jobs m)"
  shows "jm_jobs (cleanup q jobTimeout now tick ks m) i =
    map_option (\<lambda>j. if oj_Status j = JobInProgress \<and> (\<exists>t. oj_StartedAt j = Some t \<and> now - t > jobTimeout)
      then j\<lparr>oj_Status := JobFailed, oj_CompletedAt := Some tick, oj_Error := timeout_error\<rparr> else j) (jm_jobs m i)"
proof -
  have "map oj_ID (jm_all ks m) = map fst (range_map ks (jm_jobs m))"
    using assms(1) set_range_map [OF assms(2)] by (auto simp: jm_all_def job_inv_def)
  then have ids: "map oj_ID (jm_all ks m) = ks"
    by (simp only: range_map_keys [OF assms(2)])
  have "overdue jobTimeout now j \<longleftrightarrow>
      oj_Status j = JobInProgress \<and> (\<exists>t. oj_StartedAt j = Some t \<and> now - t > jobTimeout)" for j
    by (auto simp: overdue_def split: option.splits)
  moreover have "(set_status tick JobFailed j)\<lparr>oj_Error := timeout_error\<rparr> =
      j\<lparr>oj_Status := JobFailed, oj_CompletedAt := Some tick, oj_Error := timeout_error\<rparr>" for j
    by (simp add: set_status_def)
  moreover have "distinct ks" "set ks = dom (jm_jobs m)"
    using assms(2) by (simp_all add: range_order_def)
  ultimately show ?thesis
    by (auto simp: cleanup_def ids cleanup_fold)
qed

theorem cleanup_fails_overdue_witness:
  "jm_jobs (cleanup id 5 9 9 [''j1''] demo_manager) ''j1'' = Some demo_ojob"
proof -
  have "job_inv demo_manager"
    by (auto simp: job_inv_def demo_manager_def demo_ojob_def user_jobs_def map_len_def)
  moreover have "range_order [''j1''] (jm_jobs demo_manager)"
    by (simp add: range_order_def demo_manager_def)
  ultimately show ?thesis
    by (subst cleanup_fails_overdue) (simp_all add: demo_manager_def demo_ojob_def)
qed

text \<open>
  The token of a job admits to that job only: after a job is created its token is valid for it,
  no other text is, and the tokens of all other jobs are as before.
\<close>

lemma job_token_valid:
  assumes "create_job now i b u title d orc = (Inr j, orc')"
  shows "job_token i orc' = Some (encode_hex b) \<and> (validate_token i t orc' \<longleftrightarrow> t = encode_hex b) \<and>
    (i' = i \<or> validate_token i' t orc' = validate_token i' t orc)"
  using assms
  by (auto simp: create_job_def jm_create_def job_token_def validate_token_def ts_get_def ts_validate_def
      ts_generate_def Let_def split: prod.splits sum.splits if_splits)

theorem job_token_valid_witness:
  "\<exists>orc'. create_job 1 ''j1'' [CHR 0xAB] ''u'' ''t'' [] (new_orchestrator orch_default_config) = (Inr demo_ojob, orc') \<and>
     validate_token ''j1'' ''ab'' orc'"
proof -
  have "\<exists>orc'. create_job 1 ''j1'' [CHR 0xAB] ''u'' ''t'' [] (new_orchestrator orch_default_config) = (Inr demo_ojob, orc')"
    by (simp add: create_job_def new_orchestrator_def orch_default_config_def jm_create_def
        new_memory_job_manager_def map_len_def demo_ojob_def Let_def)
  then obtain orc' where c: "create_job 1 ''j1'' [CHR 0xAB] ''u'' ''t'' [] (new_orchestrator orch_default_config) =
    (Inr demo_ojob, orc')" by blast
  have "''ab'' = encode_hex [CHR 0xAB]" by code_simp
  with job_token_valid [OF c, of "''ab''" "''j1''"] c show ?thesis by auto
qed

text \<open>
  A finished job keeps its place: the limit counts all jobs ever created, so that a manager whose
  jobs are all finished still refuses a new one.
\<close>

lemma finished_jobs_count:
  "jm_create 3 ''j2'' ''u'' ''t'' [] (snd (jm_update_status id 2 ''j1'' JobCompleted demo_manager)) =
     (Inl ''max concurrent jobs (1) reached'', snd (jm_update_status id 2 ''j1'' JobCompleted demo_manager))"
proof -
  have "show_int 1 = ''1''" by code_simp
  then show ?thesis
    by (simp add: jm_create_def jm_update_status_def demo_manager_def map_len_def)
qed

text \<open>A status change is not checked against the current status: a completed job can be cancelled.\<close>

lemma completed_job_cancelled:
  "jm_get i m = Some j \<Longrightarrow> oj_Status j = JobCompleted \<Longrightarrow>
     \<exists>j'. jm_get i (snd (jm_update_status q now i JobCancelled m)) = Some j' \<and> oj_Status j' = JobCancelled"
  by (simp add: jm_get_def jm_update_status_def)

end
