(* ===== verification/Worker_Pool.thy ===== *)
theory Worker_Pool
  imports Worker
begin

text \<open>
  The goroutines of the worker pool: \<open>Start\<close>, \<open>Stop\<close>, \<open>loop\<close> and \<open>pollAndRun\<close> of \<open>internal/worker/worker.go\<close>
  as steps that interleave. The loop waits for its ticker or polls; a poll hands the pending jobs it found
  to goroutines one by one, each taking a place of the semaphore; a job goes through the phases of \<open>runJob\<close>
  and gives its place back. The wait group counts the loop and the jobs.
\<close>

section \<open>State and steps\<close>

datatype job_phase = JobStarting | JobBegan | JobDispatched "dispatch_error + tool_output"

datatype loop_phase = LoopNotStarted | LoopWaiting | LoopPolling "job list" | LoopExited

record ('d, 'w) worker_pool =
  wp_config :: pool_config
  wp_state :: "('d, 'w) pool_state"
  wp_loop :: loop_phase
  wp_jobs :: "(job \<times> job_phase) list"
  wp_stopped :: bool
  wp_cancelled :: bool

definition pool_New :: "int \<Rightarrow> ('d, 'w) pool_state \<Rightarrow> ('d, 'w) worker_pool" where
  "pool_New maxWorkers st =
     \<lparr>wp_config = new_pool maxWorkers, wp_state = st, wp_loop = LoopNotStarted, wp_jobs = [], wp_stopped = False,
      wp_cancelled = False\<rparr>"

text \<open>The goroutine of a job ends: its place in the semaphore is free and the wait group is told.\<close>

definition job_leaves :: "nat \<Rightarrow> ('d, 'w) worker_pool \<Rightarrow> ('d, 'w) worker_pool" where
  "job_leaves i p = p\<lparr>wp_jobs := take i (wp_jobs p) @ drop (Suc i) (wp_jobs p)\<rparr>"

definition job_moves :: "nat \<Rightarrow> job_phase \<Rightarrow> ('d, 'w) worker_pool \<Rightarrow> ('d, 'w) worker_pool" where
  "job_moves i ph p = p\<lparr>wp_jobs := (wp_jobs p)[i := (fst (wp_jobs p ! i), ph)]\<rparr>"

text \<open>The wait group is at zero.\<close>

definition wg_zero :: "('d, 'w) worker_pool \<Rightarrow> bool" where
  "wg_zero p \<longleftrightarrow> wp_loop p \<in> {LoopNotStarted, LoopExited} \<and> wp_jobs p = []"

datatype pool_event =
    PoolStarted | PoolTick | JobLaunched job | PollFinished | PollAborted | LoopEnded | StopCalled | ContextEnded
  | StopReturned | JobBegins nat | JobGivenUp nat | JobDispatches nat | JobSettled nat | JobSubmitted

inductive pool_step ::
  "'d database \<Rightarrow> (string \<Rightarrow> string + params option) \<Rightarrow> (string \<Rightarrow> string) \<Rightarrow>
     ('d, 'w) worker_pool \<Rightarrow> pool_event \<Rightarrow> ('d, 'w) worker_pool \<Rightarrow> bool" for D unmarshal q where
  pool_starts: "wp_loop p = LoopNotStarted \<Longrightarrow> pool_step D unmarshal q p PoolStarted (p\<lparr>wp_loop := LoopWaiting\<rparr>)"
| pool_ticks: "wp_loop p = LoopWaiting \<Longrightarrow> db_ListJobs D ks [] 100 0 (pl_db (wp_state p)) = Some (Inr js) \<Longrightarrow>
    pool_step D unmarshal q p PoolTick (p\<lparr>wp_loop := LoopPolling js\<rparr>)"
| pool_tick_fails: "wp_loop p = LoopWaiting \<Longrightarrow> db_ListJobs D ks [] 100 0 (pl_db (wp_state p)) = Some (Inl err) \<Longrightarrow>
    pool_step D unmarshal q p PoolTick p"
| poll_skips: "wp_loop p = LoopPolling (j # js) \<Longrightarrow> job_Status j \<noteq> ''pending'' \<Longrightarrow>
    pool_step D unmarshal q p PollFinished (p\<lparr>wp_loop := LoopPolling js\<rparr>)"
| poll_launches: "wp_loop p = LoopPolling (j # js) \<Longrightarrow> job_Status j = ''pending'' \<Longrightarrow>
    int (length (wp_jobs p)) < pc_maxWorkers (wp_config p) \<Longrightarrow>
    pool_step D unmarshal q p (JobLaunched j) (p\<lparr>wp_loop := LoopPolling js, wp_jobs := wp_jobs p @ [(j, JobStarting)]\<rparr>)"
| poll_finishes: "wp_loop p = LoopPolling [] \<Longrightarrow> pool_step D unmarshal q p PollFinished (p\<lparr>wp_loop := LoopWaiting\<rparr>)"
| poll_aborts: "wp_loop p = LoopPolling (j # js) \<Longrightarrow> job_Status j = ''pending'' \<Longrightarrow> wp_stopped p \<or> wp_cancelled p \<Longrightarrow>
    pool_step D unmarshal q p PollAborted (p\<lparr>wp_loop := LoopWaiting\<rparr>)"
| loop_ends: "wp_loop p = LoopWaiting \<Longrightarrow> wp_stopped p \<or> wp_cancelled p \<Longrightarrow>
    pool_step D unmarshal q p LoopEnded (p\<lparr>wp_loop := LoopExited\<rparr>)"
| stop_called: "\<not> wp_stopped p \<Longrightarrow> pool_step D unmarshal q p StopCalled (p\<lparr>wp_stopped := True\<rparr>)"
| context_ends: "pool_step D unmarshal q p ContextEnded (p\<lparr>wp_cancelled := True\<rparr>)"
| stop_returns: "wp_stopped p \<Longrightarrow> wg_zero p \<Longrightarrow> pool_step D unmarshal q p StopReturned p"
| job_begins: "i < length (wp_jobs p) \<Longrightarrow> wp_jobs p ! i = (j, JobStarting) \<Longrightarrow>
    job_begin D now j (wp_state p) = (None, st) \<Longrightarrow>
    pool_step D unmarshal q p (JobBegins i) (job_moves i JobBegan (p\<lparr>wp_state := st\<rparr>))"
| job_given_up: "i < length (wp_jobs p) \<Longrightarrow> wp_jobs p ! i = (j, JobStarting) \<Longrightarrow>
    job_begin D now j (wp_state p) = (Some err, st) \<Longrightarrow>
    pool_step D unmarshal q p (JobGivenUp i) (job_leaves i (p\<lparr>wp_state := st\<rparr>))"
| job_dispatches: "i < length (wp_jobs p) \<Longrightarrow> wp_jobs p ! i = (j, JobBegan) \<Longrightarrow>
    job_dispatch unmarshal env j (wp_state p) = (r, st) \<Longrightarrow> r \<noteq> Inl SanitizerPanic \<Longrightarrow>
    pool_step D unmarshal q p (JobDispatches i) (job_moves i (JobDispatched r) (p\<lparr>wp_state := st\<rparr>))"
| job_settled: "i < length (wp_jobs p) \<Longrightarrow> wp_jobs p ! i = (j, JobDispatched r) \<Longrightarrow>
    pool_step D unmarshal q p (JobSettled i) (job_leaves i (p\<lparr>wp_state := job_end D q now j r (wp_state p)\<rparr>))"
| job_submitted: "submit D nowSec now saved userID name input (wp_state p) = (res, st) \<Longrightarrow>
    pool_step D unmarshal q p JobSubmitted (p\<lparr>wp_state := st\<rparr>)"

inductive_cases stop_returnsE: "pool_step D unmarshal q p StopReturned p'"

section \<open>Bounds and termination of the pool\<close>

definition pool_inv :: "int \<Rightarrow> ('d, 'w) worker_pool \<Rightarrow> bool" where
  "pool_inv n p \<longleftrightarrow>
     pc_maxWorkers (wp_config p) = n \<and> int (length (wp_jobs p)) \<le> n \<and>
     list_all (\<lambda>(j, ph). job_Status j = ''pending'') (wp_jobs p) \<and> (wp_loop p = LoopNotStarted \<longrightarrow> wp_jobs p = [])"

lemma pool_step_inv: "pool_step D unmarshal q p e p' \<Longrightarrow> pool_inv n p \<Longrightarrow> pool_inv n p'"
proof (induction rule: pool_step.induct)
  case (job_begins i p j now st)
  then show ?case
    by (auto simp: pool_inv_def job_moves_def list_all_length nth_list_update split: if_splits)
next
  case (job_dispatches i p j env r st)
  then show ?case
    by (auto simp: pool_inv_def job_moves_def list_all_length nth_list_update split: if_splits)
qed (auto simp: pool_inv_def job_leaves_def list_all_iff dest: in_set_takeD in_set_dropD)

interpretation pool_runs: step_invariant "\<lambda>p. \<exists>st. p = pool_New m st" "pool_step D unmarshal q"
  "pool_inv (if m \<le> 0 then 1 else m)" for m D unmarshal q
proof
  show "pool_inv (if m \<le> 0 then 1 else m) p" if "\<exists>st. p = pool_New m st" for p
    using that by (auto simp: pool_inv_def pool_New_def new_pool_def)
qed (rule pool_step_inv)

text \<open>
  C21: however polls, jobs and submissions interleave, the pool never runs more jobs at once than its limit, and
  a limit that is not positive counts as one; only jobs read as pending are started.
\<close>

theorem pool_bounded:
  assumes "run (pool_step D unmarshal q) (pool_New m st) es p"
  shows "int (length (wp_jobs p)) \<le> max m 1 \<and> list_all (\<lambda>(j, ph). job_Status j = ''pending'') (wp_jobs p)"
proof -
  have "pool_inv (if m \<le> 0 then 1 else m) p"
    by (rule pool_runs.run_inv [OF _ assms]) blast
  then show ?thesis by (auto simp: pool_inv_def split: if_splits)
qed

lemma pool_bounded_witness:
  "\<exists>p. run (pool_step memory_database (\<lambda>_. Inl []) id) (pool_New 0 demo_pool) [PoolStarted, PoolTick, JobLaunched demo_job] p \<and>
     wp_jobs p = [(demo_job, JobStarting)] \<and> int (length (wp_jobs p)) \<le> max 0 1"
proof -
  let ?S = "pool_step memory_database (\<lambda>_. Inl []) id"
  let ?p0 = "pool_New 0 demo_pool :: (memory_db, unit) worker_pool"
  let ?p1 = "?p0\<lparr>wp_loop := LoopWaiting\<rparr>" and ?p2 = "?p0\<lparr>wp_loop := LoopPolling [demo_job]\<rparr>"
  let ?p3 = "?p0\<lparr>wp_loop := LoopPolling [], wp_jobs := [(demo_job, JobStarting)]\<rparr>"
  have "?S ?p0 PoolStarted ?p1"
    using pool_starts [of ?p0] by (simp add: pool_New_def)
  moreover have "db_ListJobs memory_database [''j''] [] 100 0 (pl_db (wp_state ?p1)) = Some (Inr [demo_job])"
    by (simp add: memory_database_def list_jobs_def paginate_ok pool_New_def demo_pool_def demo_job_def range_map_def
        map_filter_simps new_memory_db_def)
  then have "?S ?p1 PoolTick ?p2"
    using pool_ticks [of ?p1 memory_database "[''j'']" "[demo_job]"] by (simp add: pool_New_def)
  moreover have "?S ?p2 (JobLaunched demo_job) ?p3"
    using poll_launches [of ?p2 demo_job "[]"] by (simp add: pool_New_def new_pool_def demo_job_def)
  ultimately have r: "run ?S ?p0 [PoolStarted, PoolTick, JobLaunched demo_job] ?p3"
    by (blast intro: run_Cons run.run_nil)
  show ?thesis using pool_bounded [OF r] r by (intro exI [of _ ?p3]) simp
qed

text \<open>Once the pool has come to rest after a stop, only submissions, the context and a late start can still occur.\<close>

definition at_rest :: "('d, 'w) worker_pool \<Rightarrow> bool" where
  "at_rest p \<longleftrightarrow> wp_stopped p \<and> wp_loop p = LoopExited \<and> wp_jobs p = []"

lemma at_rest_step:
  assumes "pool_step D unmarshal q p e p'" and "at_rest p"
  shows "at_rest p' \<and> pl_disp (wp_state p') = pl_disp (wp_state p) \<and> pl_world (wp_state p') = pl_world (wp_state p)"
  using assms
  by (cases rule: pool_step.cases) (auto simp: at_rest_def submit_def generate_id_def Let_def split: prod.splits option.splits)

lemma at_rest_run:
  "run (pool_step D unmarshal q) p es p' \<Longrightarrow> at_rest p \<Longrightarrow>
     at_rest p' \<and> pl_disp (wp_state p') = pl_disp (wp_state p) \<and> pl_world (wp_state p') = pl_world (wp_state p)"
proof (induction rule: run.induct)
  case (run_snoc p es p1 e p2)
  then have "at_rest p1" "pl_disp (wp_state p1) = pl_disp (wp_state p)" "pl_world (wp_state p1) = pl_world (wp_state p)"
    by simp_all
  with at_rest_step [OF run_snoc.hyps(2)] show ?case by simp
qed simp

lemma loop_started:
  "run (pool_step D unmarshal q) p es p' \<Longrightarrow> wp_loop p \<noteq> LoopNotStarted \<Longrightarrow> wp_loop p' \<noteq> LoopNotStarted"
proof (induction rule: run.induct)
  case (run_snoc p es p1 e p2)
  from run_snoc.hyps(2) run_snoc.IH [OF run_snoc.prems] show ?case
    by (cases rule: pool_step.cases) (auto simp: job_moves_def job_leaves_def)
qed simp

text \<open>
  C20: \<open>Stop\<close> waits for the work in progress and is final: once it has returned on a started pool, no job runs and
  none ever will, so the tools and what they act on are not touched by the pool again, whatever is
  submitted later.
\<close>

theorem stop_is_final:
  assumes "run (pool_step D unmarshal q) (pool_New m st) (PoolStarted # es @ StopReturned # fs) p"
  shows "wp_jobs p = [] \<and>
    (\<exists>p1. run (pool_step D unmarshal q) (pool_New m st) (PoolStarted # es) p1 \<and>
       pl_disp (wp_state p) = pl_disp (wp_state p1) \<and> pl_world (wp_state p) = pl_world (wp_state p1))"
proof -
  obtain p1 where r1: "run (pool_step D unmarshal q) (pool_New m st) (PoolStarted # es) p1"
      and r2: "run (pool_step D unmarshal q) p1 (StopReturned # fs) p"
    using run_append [of "pool_step D unmarshal q" "pool_New m st" "PoolStarted # es" "StopReturned # fs" p] assms by auto
  obtain p2 where s: "pool_step D unmarshal q p1 StopReturned p2" and r3: "run (pool_step D unmarshal q) p2 fs p"
    using run_append [of "pool_step D unmarshal q" p1 "[StopReturned]" fs p] r2
      run_snoc_iff [of "pool_step D unmarshal q" p1 "[]" StopReturned] by auto
  obtain p0 where s0: "pool_step D unmarshal q (pool_New m st) PoolStarted p0" and r0: "run (pool_step D unmarshal q) p0 es p1"
    using run_append [of "pool_step D unmarshal q" "pool_New m st" "[PoolStarted]" es p1] r1
      run_snoc_iff [of "pool_step D unmarshal q" "pool_New m st" "[]" PoolStarted] by auto
  from s0 have "wp_loop p0 \<noteq> LoopNotStarted" by (cases rule: pool_step.cases) auto
  then have "wp_loop p1 \<noteq> LoopNotStarted" by (rule loop_started [OF r0])
  with s have "p2 = p1" "at_rest p1" by (auto simp: at_rest_def wg_zero_def elim: stop_returnsE)
  with at_rest_run [OF r3] r1 show ?thesis by (auto simp: at_rest_def)
qed

lemma stop_is_final_witness:
  "\<exists>p. run (pool_step memory_database (\<lambda>_. Inl []) id) (pool_New 4 demo_pool)
      [PoolStarted, StopCalled, LoopEnded, StopReturned] p \<and> wp_jobs p = [] \<and> wp_loop p = LoopExited"
proof -
  let ?S = "pool_step memory_database (\<lambda>_. Inl []) id"
  let ?p0 = "pool_New 4 demo_pool :: (memory_db, unit) worker_pool"
  let ?p3 = "?p0\<lparr>wp_loop := LoopExited, wp_stopped := True\<rparr>"
  have "?S ?p0 PoolStarted (?p0\<lparr>wp_loop := LoopWaiting\<rparr>)"
    using pool_starts [of ?p0] by (simp add: pool_New_def)
  moreover have "?S (?p0\<lparr>wp_loop := LoopWaiting\<rparr>) StopCalled (?p0\<lparr>wp_loop := LoopWaiting, wp_stopped := True\<rparr>)"
    using stop_called [of "?p0\<lparr>wp_loop := LoopWaiting\<rparr>"] by (simp add: pool_New_def)
  moreover have "?S (?p0\<lparr>wp_loop := LoopWaiting, wp_stopped := True\<rparr>) LoopEnded ?p3"
    using loop_ends [of "?p0\<lparr>wp_loop := LoopWaiting, wp_stopped := True\<rparr>"] by (simp add: pool_New_def)
  moreover have "?S ?p3 StopReturned ?p3"
    by (rule stop_returns) (simp_all add: pool_New_def wg_zero_def)
  ultimately have r: "run ?S ?p0 (PoolStarted # [StopCalled, LoopEnded] @ StopReturned # []) ?p3"
    by (simp) (blast intro: run_Cons run.run_nil)
  show ?thesis using stop_is_final [OF r] r by (intro exI [of _ ?p3]) simp
qed

end
