(* ===== verification/Extensions.thy ===== *)
theory Extensions
  imports Workspace
begin

text \<open>
  Extensions: the types of \<open>internal/extensions/types.go\<close>, the errors of \<open>error.go\<close>, the entry registry of
  \<open>registry.go\<close> and the manager of \<open>extensions.go\<close>, which installs modules below its registry
  directory. Go's string types stay strings, since any text can be converted to them. The file
  system is the record of calls that the workspaces use, with \<open>RemoveAll\<close> beside it.
\<close>

section \<open>Types\<close>

type_synonym extension_kind = string

definition KindMcpServer :: extension_kind where "KindMcpServer = ''mcp_server''"
definition KindWasmTool :: extension_kind where "KindWasmTool = ''wasm_tool''"
definition KindWasmChannel :: extension_kind where "KindWasmChannel = ''wasm_channel''"
definition KindChannelRelay :: extension_kind where "KindChannelRelay = ''channel_relay''"
definition KindAcpAgent :: extension_kind where "KindAcpAgent = ''acp_agent''"

record extension_source =
  es_Type :: string
  es_URL :: string
  es_WasmURL :: string
  es_CapabilitiesURL :: string
  es_SourceDir :: string
  es_BuildDir :: string
  es_CrateName :: string
  es_RelayURL :: string

definition no_source :: extension_source where
  "no_source = \<lparr>es_Type = [], es_URL = [], es_WasmURL = [], es_CapabilitiesURL = [], es_SourceDir = [],
     es_BuildDir = [], es_CrateName = [], es_RelayURL = []\<rparr>"

record auth_hint =
  ah_Type :: string
  ah_SetupURL :: string

definition AuthHintDcr :: string where "AuthHintDcr = ''dcr''"
definition AuthHintOAuthPreConfigured :: string where "AuthHintOAuthPreConfigured = ''oauth_pre_configured''"
definition AuthHintCapabilitiesAuth :: string where "AuthHintCapabilitiesAuth = ''capabilities_auth''"
definition AuthHintNone :: string where "AuthHintNone = ''none''"

record registry_entry =
  re_Name :: string
  re_DisplayName :: string
  re_Kind :: extension_kind
  re_Description :: string
  re_Keywords :: "string list"
  re_Source :: extension_source
  re_FallbackSource :: "extension_source option"
  re_AuthHint :: auth_hint
  re_Version :: string
  re_Hidden :: bool

definition entry_Validate :: "(string \<Rightarrow> string) \<Rightarrow> registry_entry \<Rightarrow> string option" where
  "entry_Validate quote r =
     (if re_Name r = [] then Some ''registry entry: name is required''
      else if re_Kind r = [] then Some (''registry entry '' @ quote (re_Name r) @ '': kind is required'')
      else None)"

record ext_search_result =
  xs_Entry :: registry_entry
  xs_Source :: string
  xs_Validated :: bool

record auth_result =
  xa_Name :: string
  xa_Kind :: extension_kind
  xa_Status :: string
  xa_AuthURL :: string
  xa_CallbackType :: string
  xa_Instructions :: string
  xa_SetupURL :: string
  xa_AwaitingToken :: bool

definition AuthStatusAuthenticated :: string where "AuthStatusAuthenticated = ''authenticated''"
definition AuthStatusAwaitingToken :: string where "AuthStatusAwaitingToken = ''awaiting_token''"

definition IsAuthenticated :: "auth_result \<Rightarrow> bool" where
  "IsAuthenticated a \<longleftrightarrow> xa_Status a = AuthStatusAuthenticated"

definition IsAwaitingToken :: "auth_result \<Rightarrow> bool" where
  "IsAwaitingToken a \<longleftrightarrow> xa_Status a = AuthStatusAwaitingToken"

record activate_result =
  xr_Name :: string
  xr_Kind :: extension_kind
  xr_ToolsLoaded :: "string list"
  xr_Message :: string

record ready_outcome =
  ro_OutcomeType :: string
  ro_Name :: string
  ro_Kind :: extension_kind
  ro_Phase :: string
  ro_Auth :: "auth_result option"
  ro_Activation :: "activate_result option"
  ro_Instructions :: string
  ro_SetupURL :: string
  ro_CredentialName :: string

definition ReadyOutcome :: "string \<Rightarrow> extension_kind \<Rightarrow> string \<Rightarrow> activate_result option \<Rightarrow> ready_outcome" where
  "ReadyOutcome name kind phase activation =
     \<lparr>ro_OutcomeType = ''ready'', ro_Name = name, ro_Kind = kind, ro_Phase = phase, ro_Auth = None,
      ro_Activation = activation, ro_Instructions = [], ro_SetupURL = [], ro_CredentialName = []\<rparr>"

definition NeedsAuthOutcome :: "string \<Rightarrow> extension_kind \<Rightarrow> string \<Rightarrow> auth_result \<Rightarrow> string \<Rightarrow> ready_outcome" where
  "NeedsAuthOutcome name kind phase auth credentialName =
     \<lparr>ro_OutcomeType = ''needs_auth'', ro_Name = name, ro_Kind = kind, ro_Phase = phase, ro_Auth = Some auth,
      ro_Activation = None, ro_Instructions = [], ro_SetupURL = [], ro_CredentialName = credentialName\<rparr>"

definition NeedsSetupOutcome :: "string \<Rightarrow> extension_kind \<Rightarrow> string \<Rightarrow> string \<Rightarrow> string \<Rightarrow> ready_outcome" where
  "NeedsSetupOutcome name kind phase instructions setupURL =
     \<lparr>ro_OutcomeType = ''needs_setup'', ro_Name = name, ro_Kind = kind, ro_Phase = phase, ro_Auth = None,
      ro_Activation = None, ro_Instructions = instructions, ro_SetupURL = setupURL, ro_CredentialName = []\<rparr>"

record installed_extension =
  ie_Name :: string
  ie_Kind :: extension_kind
  ie_DisplayName :: string
  ie_Description :: string
  ie_URL :: string
  ie_Authenticated :: bool
  ie_Active :: bool
  ie_Tools :: "string list"
  ie_NeedsSetup :: bool
  ie_HasAuth :: bool
  ie_RequiresBinding :: bool
  ie_Installed :: bool
  ie_ActivationError :: string
  ie_Version :: string

definition NewInstalledExtension :: "string \<Rightarrow> extension_kind \<Rightarrow> installed_extension" where
  "NewInstalledExtension name kind =
     \<lparr>ie_Name = name, ie_Kind = kind, ie_DisplayName = [], ie_Description = [], ie_URL = [],
      ie_Authenticated = False, ie_Active = False, ie_Tools = [], ie_NeedsSetup = False,
      ie_HasAuth = False, ie_RequiresBinding = False, ie_Installed = True, ie_ActivationError = [],
      ie_Version = []\<rparr>"

section \<open>Errors\<close>

record extension_error =
  xe_Op :: string
  xe_Key :: string
  xe_Err :: "string option"

definition extension_error_text :: "extension_error \<Rightarrow> string" where
  "extension_error_text e =
     (case xe_Err e of
        Some err \<Rightarrow> ''extension '' @ xe_Op e @ '' '' @ xe_Key e @ '': '' @ err
      | None \<Rightarrow> ''extension '' @ xe_Op e @ '' '' @ xe_Key e)"

definition extension_error_of :: "string \<Rightarrow> string \<Rightarrow> string \<Rightarrow> extension_error" where
  "extension_error_of opn key err = \<lparr>xe_Op = opn, xe_Key = key, xe_Err = Some err\<rparr>"

definition ErrNotFound :: "string \<Rightarrow> extension_error" where
  "ErrNotFound name = extension_error_of ''not_found'' name ''extension not found''"
definition ErrAlreadyInstalled :: "string \<Rightarrow> extension_error" where
  "ErrAlreadyInstalled name = extension_error_of ''already_installed'' name ''extension already installed''"
definition ErrNotInstalled :: "string \<Rightarrow> extension_error" where
  "ErrNotInstalled name = extension_error_of ''not_installed'' name ''extension not installed''"
definition ErrAuthFailed :: "string \<Rightarrow> string \<Rightarrow> extension_error" where
  "ErrAuthFailed name err = extension_error_of ''auth_failed'' name err"
definition ErrActivationFailed :: "string \<Rightarrow> string \<Rightarrow> extension_error" where
  "ErrActivationFailed name err = extension_error_of ''activation_failed'' name err"
definition ErrInstallFailed :: "string \<Rightarrow> string \<Rightarrow> extension_error" where
  "ErrInstallFailed name err = extension_error_of ''install_failed'' name err"
definition ErrDiscoveryFailed :: "string \<Rightarrow> extension_error" where
  "ErrDiscoveryFailed reason = extension_error_of ''discovery_failed'' reason ''discovery failed''"
definition ErrInvalidURL :: "string \<Rightarrow> extension_error" where
  "ErrInvalidURL url = extension_error_of ''invalid_url'' url ''invalid URL''"
definition ErrDownloadFailed :: "string \<Rightarrow> extension_error" where
  "ErrDownloadFailed reason = extension_error_of ''download_failed'' reason ''download failed''"
definition ErrConfig :: "string \<Rightarrow> extension_error" where
  "ErrConfig msg = extension_error_of ''config'' msg ''config error''"

section \<open>The entry registry\<close>

type_synonym entry_registry = "string \<rightharpoonup> registry_entry"

definition NewEntryRegistry :: entry_registry where "NewEntryRegistry = Map.empty"

definition entry_Register ::
  "(string \<Rightarrow> string) \<Rightarrow> registry_entry \<Rightarrow> entry_registry \<Rightarrow> string option \<times> entry_registry" where
  "entry_Register quote e r =
     (case entry_Validate quote e of Some err \<Rightarrow> (Some err, r) | None \<Rightarrow> (None, r(re_Name e \<mapsto> e)))"

definition entry_Get :: "string \<Rightarrow> entry_registry \<Rightarrow> registry_entry option" where
  "entry_Get name r = r name"

definition entry_List :: "string list \<Rightarrow> entry_registry \<Rightarrow> registry_entry list" where
  "entry_List ks r = map snd (range_map ks r)"

definition matchEntry :: "registry_entry \<Rightarrow> string \<Rightarrow> bool" where
  "matchEntry e query = (if query = [] then True else True)"

definition entry_Search :: "string list \<Rightarrow> string \<Rightarrow> entry_registry \<Rightarrow> ext_search_result list" where
  "entry_Search ks query r =
     map (\<lambda>e. \<lparr>xs_Entry = e, xs_Source = ''registry'', xs_Validated = True\<rparr>)
       (filter (\<lambda>e. \<not> re_Hidden e \<and> matchEntry e query) (entry_List ks r))"

definition entry_ListByKind :: "string list \<Rightarrow> extension_kind \<Rightarrow> entry_registry \<Rightarrow> registry_entry list" where
  "entry_ListByKind ks kind r = filter (\<lambda>e. re_Kind e = kind) (entry_List ks r)"

section \<open>The manager\<close>

record extension =
  ex_Name :: string
  ex_Type :: string
  ex_Version :: string
  ex_Path :: string
  ex_ConfigPath :: string
  ex_Active :: bool

record extension_manager =
  em_extensions :: "string \<rightharpoonup> extension"
  em_registryDir :: string

definition TypeTool :: string where "TypeTool = ''tool''"
definition TypeChannel :: string where "TypeChannel = ''channel''"

definition ext_NewManager :: "string \<Rightarrow> extension_manager" where
  "ext_NewManager registryDir = \<lparr>em_extensions = Map.empty, em_registryDir = registryDir\<rparr>"

definition type_dir :: "extension_manager \<Rightarrow> string \<Rightarrow> string" where
  "type_dir m extType = join_path [em_registryDir m, extType @ ''s'']"

definition discovered :: "string \<Rightarrow> string \<Rightarrow> string \<Rightarrow> extension" where
  "discovered d extType name =
     \<lparr>ex_Name = name, ex_Type = extType, ex_Version = [], ex_Path = join_path [d, name, name @ ''.wasm''],
      ex_ConfigPath = join_path [d, name, name @ ''.json''], ex_Active = False\<rparr>"

definition discover_entry ::
  "'f os_calls \<Rightarrow> 'f \<Rightarrow> string \<Rightarrow> string \<Rightarrow> os_entry \<Rightarrow> (string \<rightharpoonup> extension) \<Rightarrow> (string \<rightharpoonup> extension)" where
  "discover_entry os f d extType entry exts =
     (if \<not> oe_IsDir entry then exts
      else let x = discovered d extType (oe_Name entry) in
      (case os_Stat os (ex_Path x) f of Inr _ \<Rightarrow> exts(oe_Name entry \<mapsto> x) | Inl _ \<Rightarrow> exts))"

definition discover_type :: "'f os_calls \<Rightarrow> 'f \<Rightarrow> extension_manager \<Rightarrow> string \<Rightarrow> (string \<rightharpoonup> extension) \<Rightarrow> (string \<rightharpoonup> extension)" where
  "discover_type os f m extType exts =
     (let d = type_dir m extType in
      case os_ReadDir os d f of
        Inl err \<Rightarrow> exts
      | Inr entries \<Rightarrow> fold (discover_entry os f d extType) entries exts)"

definition ext_Discover :: "'f os_calls \<Rightarrow> 'f \<Rightarrow> extension_manager \<Rightarrow> extension_manager" where
  "ext_Discover os f m =
     m\<lparr>em_extensions := discover_type os f m TypeChannel (discover_type os f m TypeTool (em_extensions m))\<rparr>"

definition ext_Get :: "string \<Rightarrow> extension_manager \<Rightarrow> extension option" where
  "ext_Get name m = em_extensions m name"

definition ext_List :: "string list \<Rightarrow> extension_manager \<Rightarrow> extension list" where
  "ext_List ks m = map snd (range_map ks (em_extensions m))"

definition ext_ListByType :: "string list \<Rightarrow> string \<Rightarrow> extension_manager \<Rightarrow> extension list" where
  "ext_ListByType ks extType m = filter (\<lambda>x. ex_Type x = extType) (ext_List ks m)"

definition ext_not_found :: "(string \<Rightarrow> string) \<Rightarrow> string \<Rightarrow> string" where
  "ext_not_found quote name = ''extension '' @ quote name @ '' not found''"

definition set_active ::
  "(string \<Rightarrow> string) \<Rightarrow> bool \<Rightarrow> string \<Rightarrow> extension_manager \<Rightarrow> string option \<times> extension_manager" where
  "set_active quote b name m =
     (case em_extensions m name of
        None \<Rightarrow> (Some (ext_not_found quote name), m)
      | Some x \<Rightarrow> (None, m\<lparr>em_extensions := (em_extensions m)(name \<mapsto> x\<lparr>ex_Active := b\<rparr>)\<rparr>))"

definition Activate :: "(string \<Rightarrow> string) \<Rightarrow> string \<Rightarrow> extension_manager \<Rightarrow> string option \<times> extension_manager" where
  "Activate quote name m = set_active quote True name m"

definition Deactivate :: "(string \<Rightarrow> string) \<Rightarrow> string \<Rightarrow> extension_manager \<Rightarrow> string option \<times> extension_manager" where
  "Deactivate quote name m = set_active quote False name m"

text \<open>A nil configuration is \<^const>\<open>None\<close>.\<close>

definition Install ::
  "'f os_calls \<Rightarrow> string \<Rightarrow> string \<Rightarrow> string \<Rightarrow> string option \<Rightarrow> extension_manager \<Rightarrow> 'f \<Rightarrow>
     string option \<times> extension_manager \<times> 'f" where
  "Install os name extType wasmData cfg m f =
     (let destDir = join_path [em_registryDir m, extType @ ''s'', name];
          wasmPath = join_path [destDir, name @ ''.wasm''];
          configPath = join_path [destDir, name @ ''.json'']
      in case os_MkdirAll os destDir f of
           (Some err, f1) \<Rightarrow> (Some (''create dir: '' @ err), m, f1)
         | (None, f1) \<Rightarrow>
             (case os_WriteFile os wasmPath wasmData f1 of
                (Some err, f2) \<Rightarrow> (Some (''write wasm: '' @ err), m, f2)
              | (None, f2) \<Rightarrow>
                  (case (case cfg of None \<Rightarrow> (None, f2) | Some c \<Rightarrow> os_WriteFile os configPath c f2) of
                     (Some err, f3) \<Rightarrow> (Some (''write config: '' @ err), m, f3)
                   | (None, f3) \<Rightarrow>
                       (None,
                        m\<lparr>em_extensions := (em_extensions m)(name \<mapsto>
                          \<lparr>ex_Name = name, ex_Type = extType, ex_Version = [], ex_Path = wasmPath,
                           ex_ConfigPath = configPath, ex_Active = False\<rparr>)\<rparr>, f3))))"

definition Uninstall ::
  "(string \<Rightarrow> 'f \<Rightarrow> string option \<times> 'f) \<Rightarrow> (string \<Rightarrow> string) \<Rightarrow> string \<Rightarrow> extension_manager \<Rightarrow> 'f \<Rightarrow>
     string option \<times> extension_manager \<times> 'f" where
  "Uninstall osRemoveAll quote name m f =
     (let m1 = m\<lparr>em_extensions := (em_extensions m)(name := None)\<rparr> in
      case em_extensions m name of
        None \<Rightarrow> (Some (ext_not_found quote name), m1, f)
      | Some x \<Rightarrow>
          (case osRemoveAll (join_path [em_registryDir m, ex_Type x @ ''s'', name]) f of
             (err, f') \<Rightarrow> (err, m1, f')))"

definition ReadWASM :: "'f os_calls \<Rightarrow> (string \<Rightarrow> string) \<Rightarrow> string \<Rightarrow> extension_manager \<Rightarrow> 'f \<Rightarrow> string + string" where
  "ReadWASM os quote name m f =
     (case em_extensions m name of
        None \<Rightarrow> Inl (ext_not_found quote name)
      | Some x \<Rightarrow> os_ReadFile os (ex_Path x) f)"

section \<open>Properties\<close>

text \<open>Only valid entries are ever in the registry, each under its own name.\<close>

definition registry_ok :: "entry_registry \<Rightarrow> bool" where
  "registry_ok r \<longleftrightarrow> (\<forall>k e. r k = Some e \<longrightarrow> re_Name e = k \<and> re_Name e \<noteq> [] \<and> re_Kind e \<noteq> [])"

lemma register_keeps_ok:
  assumes "registry_ok r"
  shows "registry_ok (snd (entry_Register quote e r)) \<and>
    (fst (entry_Register quote e r) = None \<longrightarrow> entry_Get (re_Name e) (snd (entry_Register quote e r)) = Some e)"
  using assms by (auto simp: registry_ok_def entry_Register_def entry_Validate_def entry_Get_def)

text \<open>A search returns every visible entry, whatever the query.\<close>

lemma entry_search_ignores_query: "entry_Search ks query r = entry_Search ks query' r"
  by (simp add: entry_Search_def matchEntry_def)

text \<open>
  An extension that was installed can be read: if the file system keeps what it writes and the two paths
  differ, the module's bytes are those given to the installation. It starts inactive.
\<close>

lemma install_then_read:
  assumes "Install os name extType wasmData cfg m f = (None, m', f')"
    and "\<forall>p q d g g'. os_WriteFile os p d g = (None, g') \<longrightarrow>
           os_ReadFile os q g' = (if q = p then Inr d else os_ReadFile os q g)"
    and "join_path [join_path [em_registryDir m, extType @ ''s'', name], name @ ''.json''] \<noteq>
         join_path [join_path [em_registryDir m, extType @ ''s'', name], name @ ''.wasm'']"
  shows "ReadWASM os quote name m' f' = Inr wasmData \<and> (\<exists>x. ext_Get name m' = Some x \<and> \<not> ex_Active x)"
proof -
  let ?d = "join_path [em_registryDir m, extType @ ''s'', name]"
  let ?w = "join_path [?d, name @ ''.wasm'']" and ?c = "join_path [?d, name @ ''.json'']"
  obtain f1 f2 where w: "os_WriteFile os ?w wasmData f1 = (None, f2)"
    and c: "(case cfg of None \<Rightarrow> (None, f2) | Some c \<Rightarrow> os_WriteFile os ?c c f2) = (None, f')"
    and m': "em_extensions m' = (em_extensions m)(name \<mapsto>
        \<lparr>ex_Name = name, ex_Type = extType, ex_Version = [], ex_Path = ?w, ex_ConfigPath = ?c, ex_Active = False\<rparr>)"
    using assms(1) by (auto simp: Install_def Let_def split: prod.splits option.splits)
  have "os_ReadFile os ?w f2 = Inr wasmData" using assms(2) w by auto
  moreover have "os_ReadFile os ?w f' = os_ReadFile os ?w f2"
    using c assms(2,3) by (auto split: option.splits)
  ultimately show ?thesis using m' by (simp add: ReadWASM_def ext_Get_def)
qed

lemma install_then_read_witness:
  "ReadWASM map_fs id ''x'' ((ext_NewManager ''/reg'')\<lparr>em_extensions := [''x'' \<mapsto>
      \<lparr>ex_Name = ''x'', ex_Type = ''tool'', ex_Version = [], ex_Path = ''/reg/tools/x/x.wasm'',
       ex_ConfigPath = ''/reg/tools/x/x.json'', ex_Active = False\<rparr>]\<rparr>) [''/reg/tools/x/x.wasm'' \<mapsto> ''code''] = Inr ''code''"
proof -
  have j: "join_path [''/reg'', ''tool'' @ ''s'', ''x''] = ''/reg/tools/x''"
    "join_path [''/reg/tools/x'', ''x'' @ ''.wasm''] = ''/reg/tools/x/x.wasm''"
    "join_path [''/reg/tools/x'', ''x'' @ ''.json''] = ''/reg/tools/x/x.json''" by code_simp+
  let ?m = "(ext_NewManager ''/reg'')\<lparr>em_extensions := [''x'' \<mapsto>
      \<lparr>ex_Name = ''x'', ex_Type = ''tool'', ex_Version = [], ex_Path = ''/reg/tools/x/x.wasm'',
       ex_ConfigPath = ''/reg/tools/x/x.json'', ex_Active = False\<rparr>]\<rparr>"
  have i: "Install map_fs ''x'' ''tool'' ''code'' None (ext_NewManager ''/reg'') Map.empty =
      (None, ?m, [''/reg/tools/x/x.wasm'' \<mapsto> ''code''])"
    unfolding Install_def Let_def by (simp only: ext_NewManager_def extension_manager.simps j) (simp add: map_fs_def)
  show ?thesis
    by (rule install_then_read [OF i, THEN conjunct1]) (simp_all only: ext_NewManager_def extension_manager.simps j, auto simp: map_fs_def)
qed

text \<open>The name of an extension is not checked: it can lead out of the registry directory.\<close>

lemma install_name_escapes: "join_path [''/srv/registry'', ''tools'', ''../../../etc''] = ''/etc''"
  by code_simp

text \<open>Discovering again deactivates what it finds.\<close>

lemma rediscovery_deactivates:
  assumes "oe_IsDir entry" and "os_Stat os (ex_Path (discovered d t (oe_Name entry))) f = Inr i"
  shows "\<exists>x. discover_entry os f d t entry exts (oe_Name entry) = Some x \<and> \<not> ex_Active x"
  using assms by (simp add: discover_entry_def Let_def discovered_def)

interpretation entry_names: keyed_map "\<lambda>r k. entry_Get k r" "\<lambda>k e r. r(k \<mapsto> e)"
  by unfold_locales (simp add: entry_Get_def)

end
