(* ===== verification/Extension_Catalog.thy ===== *)
theory Extension_Catalog
  imports Extensions
begin

text \<open>
  The extension catalogue: manifests and bundles (\<open>internal/registry/manifest.go\<close>) and the catalogue that
  holds them (\<open>internal/registry/catalog.go\<close>). The JSON decoder and the file system are arguments; a Go
  map is a partial function and a range over one takes its order.
\<close>

section \<open>Manifests\<close>

type_synonym manifest_kind = string

definition MKindTool :: manifest_kind where "MKindTool = ''tool''"
definition MKindChannel :: manifest_kind where "MKindChannel = ''channel''"
definition MKindMcpServer :: manifest_kind where "MKindMcpServer = ''mcp_server''"

definition ToExtensionKind :: "manifest_kind \<Rightarrow> extension_kind" where
  "ToExtensionKind k =
     (if k = MKindTool then KindWasmTool
      else if k = MKindChannel then KindWasmChannel
      else if k = MKindMcpServer then KindMcpServer
      else KindWasmTool)"

record source_spec =
  ss_Dir :: string
  ss_Capabilities :: string
  ss_CrateName :: string

record artifact_spec =
  as_URL :: string
  as_SHA256 :: string
  as_CapabilitiesURL :: string

record auth_summary =
  au_Method :: string
  au_Provider :: string
  au_Secrets :: "string list"
  au_SharedAuth :: string
  au_SetupURL :: string

record extension_manifest =
  mf_Name :: string
  mf_DisplayName :: string
  mf_Kind :: manifest_kind
  mf_Version :: string
  mf_Description :: string
  mf_Keywords :: "string list"
  mf_Source :: "source_spec option"
  mf_Artifacts :: "string \<rightharpoonup> artifact_spec"
  mf_AuthSummary :: "auth_summary option"
  mf_Tags :: "string list"
  mf_URL :: string
  mf_Auth :: string
  mf_Hidden :: bool

record bundle_definition =
  bd_DisplayName :: string
  bd_Description :: string
  bd_Extensions :: "string list"
  bd_SharedAuth :: string
  bd_Aliases :: "string list"

text \<open>A bundles file; a nil map is \<^const>\<open>None\<close>.\<close>

type_synonym bundles_file = "(string \<rightharpoonup> bundle_definition) option"

definition manifest_Validate :: "(string \<Rightarrow> string) \<Rightarrow> extension_manifest \<Rightarrow> string option" where
  "manifest_Validate quote m =
     (if mf_Name m = [] then Some ''manifest name is required''
      else if mf_Kind m = [] then Some (''manifest '' @ quote (mf_Name m) @ '': kind is required'')
      else if mf_DisplayName m = [] then Some (''manifest '' @ quote (mf_Name m) @ '': display_name is required'')
      else None)"

definition pre_configured :: string where "pre_configured = ''oauth_pre_configured:''"

definition mcp_hint :: "string \<Rightarrow> auth_hint" where
  "mcp_hint auth =
     (if auth = [] \<or> auth = ''dcr'' then \<lparr>ah_Type = AuthHintDcr, ah_SetupURL = []\<rparr>
      else if auth = ''none'' then \<lparr>ah_Type = AuthHintNone, ah_SetupURL = []\<rparr>
      else if has_prefix auth pre_configured
      then \<lparr>ah_Type = AuthHintOAuthPreConfigured, ah_SetupURL = trim_prefix auth pre_configured\<rparr>
      else \<lparr>ah_Type = AuthHintDcr, ah_SetupURL = []\<rparr>)"

definition toMcpRegistryEntry :: "(string \<Rightarrow> string) \<Rightarrow> extension_manifest \<Rightarrow> string + registry_entry" where
  "toMcpRegistryEntry quote m =
     (if mf_URL m = [] then Inl (''MCP server manifest '' @ quote (mf_Name m) @ '' missing url'')
      else Inr \<lparr>re_Name = mf_Name m, re_DisplayName = mf_DisplayName m, re_Kind = KindMcpServer,
        re_Description = mf_Description m, re_Keywords = mf_Keywords m,
        re_Source = no_source\<lparr>es_Type := ''mcp_url'', es_URL := mf_URL m\<rparr>, re_FallbackSource = None,
        re_AuthHint = mcp_hint (mf_Auth m), re_Version = mf_Version m, re_Hidden = mf_Hidden m\<rparr>)"

definition buildableSource :: "extension_manifest \<Rightarrow> extension_source option" where
  "buildableSource m =
     map_option (\<lambda>s. no_source\<lparr>es_Type := ''wasm_buildable'', es_SourceDir := ss_Dir s,
       es_BuildDir := ss_Dir s, es_CrateName := ss_CrateName s\<rparr>) (mf_Source m)"

definition wasm_source :: "extension_manifest \<Rightarrow> extension_source \<times> extension_source option" where
  "wasm_source m =
     (case mf_Artifacts m ''wasm32-wasip2'' of
        Some a \<Rightarrow>
          if as_URL a \<noteq> []
          then (no_source\<lparr>es_Type := ''wasm_download'', es_WasmURL := as_URL a,
                  es_CapabilitiesURL := as_CapabilitiesURL a\<rparr>, buildableSource m)
          else (case buildableSource m of
                  Some b \<Rightarrow> (b, None) | None \<Rightarrow> (no_source\<lparr>es_Type := ''wasm_buildable''\<rparr>, None))
      | None \<Rightarrow>
          (case buildableSource m of
             Some b \<Rightarrow> (b, None) | None \<Rightarrow> (no_source\<lparr>es_Type := ''wasm_buildable''\<rparr>, None)))"

definition wasm_hint :: "auth_summary option \<Rightarrow> auth_hint" where
  "wasm_hint a =
     (case a of
        None \<Rightarrow> \<lparr>ah_Type = AuthHintNone, ah_SetupURL = []\<rparr>
      | Some s \<Rightarrow>
          if au_Method s = ''oauth'' \<or> au_Method s = ''manual''
          then \<lparr>ah_Type = AuthHintCapabilitiesAuth, ah_SetupURL = []\<rparr>
          else if au_Method s = ''none'' then \<lparr>ah_Type = AuthHintNone, ah_SetupURL = []\<rparr>
          else \<lparr>ah_Type = AuthHintCapabilitiesAuth, ah_SetupURL = []\<rparr>)"

definition toWasmRegistryEntry :: "extension_manifest \<Rightarrow> registry_entry" where
  "toWasmRegistryEntry m =
     \<lparr>re_Name = mf_Name m, re_DisplayName = mf_DisplayName m, re_Kind = ToExtensionKind (mf_Kind m),
      re_Description = mf_Description m, re_Keywords = mf_Keywords m, re_Source = fst (wasm_source m),
      re_FallbackSource = snd (wasm_source m), re_AuthHint = wasm_hint (mf_AuthSummary m),
      re_Version = mf_Version m, re_Hidden = mf_Hidden m\<rparr>"

definition ToRegistryEntry :: "(string \<Rightarrow> string) \<Rightarrow> extension_manifest \<Rightarrow> string + registry_entry" where
  "ToRegistryEntry quote m =
     (if mf_Kind m = MKindMcpServer then toMcpRegistryEntry quote m else Inr (toWasmRegistryEntry m))"

section \<open>Loading\<close>

record json_lib =
  jl_manifest :: "string \<Rightarrow> string + extension_manifest"
  jl_bundles :: "string \<Rightarrow> string + bundles_file"
  jl_quote :: "string \<Rightarrow> string"

definition LoadManifest :: "json_lib \<Rightarrow> 'f os_calls \<Rightarrow> 'f \<Rightarrow> string \<Rightarrow> string + extension_manifest" where
  "LoadManifest J os f path =
     (case os_ReadFile os path f of
        Inl err \<Rightarrow> Inl (''read manifest '' @ jl_quote J path @ '': '' @ err)
      | Inr data \<Rightarrow>
          (case jl_manifest J data of
             Inl err \<Rightarrow> Inl (''parse manifest '' @ jl_quote J path @ '': '' @ err)
           | Inr m \<Rightarrow>
               (case manifest_Validate (jl_quote J) m of
                  Some err \<Rightarrow> Inl (''validate manifest '' @ jl_quote J path @ '': '' @ err)
                | None \<Rightarrow> Inr m)))"

definition LoadBundles :: "json_lib \<Rightarrow> 'f os_calls \<Rightarrow> 'f \<Rightarrow> string \<Rightarrow> string + (string \<rightharpoonup> bundle_definition)" where
  "LoadBundles J os f path =
     (case os_ReadFile os path f of
        Inl err \<Rightarrow> Inl (''read bundles '' @ jl_quote J path @ '': '' @ err)
      | Inr data \<Rightarrow>
          (case jl_bundles J data of
             Inl err \<Rightarrow> Inl (''parse bundles '' @ jl_quote J path @ '': '' @ err)
           | Inr None \<Rightarrow> Inr Map.empty
           | Inr (Some b) \<Rightarrow> Inr b))"

text \<open>A nil file is skipped; \<open>maps.Copy\<close> overwrites.\<close>

definition MergeBundles :: "bundles_file option list \<Rightarrow> (string \<rightharpoonup> bundle_definition)" where
  "MergeBundles files =
     foldl (\<lambda>merged f. case f of None \<Rightarrow> merged | Some None \<Rightarrow> merged | Some (Some b) \<Rightarrow> merged ++ b) Map.empty files"

fun discover_manifests_loop ::
  "json_lib \<Rightarrow> 'f os_calls \<Rightarrow> 'f \<Rightarrow> string \<Rightarrow> os_entry list \<Rightarrow> extension_manifest list" where
  "discover_manifests_loop J os f d [] = []"
| "discover_manifests_loop J os f d (entry # entries) =
     (if oe_IsDir entry then discover_manifests_loop J os f d entries
      else if \<not> has_suffix (oe_Name entry) ''.json'' then discover_manifests_loop J os f d entries
      else case LoadManifest J os f (join_path [d, oe_Name entry]) of
        Inl err \<Rightarrow> discover_manifests_loop J os f d entries
      | Inr m \<Rightarrow> m # discover_manifests_loop J os f d entries)"

definition DiscoverManifests :: "json_lib \<Rightarrow> 'f os_calls \<Rightarrow> 'f \<Rightarrow> string \<Rightarrow> string + extension_manifest list" where
  "DiscoverManifests J os f d =
     (case os_ReadDir os d f of
        Inl err \<Rightarrow> Inl (''read dir '' @ jl_quote J d @ '': '' @ err)
      | Inr entries \<Rightarrow> Inr (discover_manifests_loop J os f d entries))"

section \<open>The catalogue\<close>

record catalog =
  ct_manifests :: "string \<rightharpoonup> extension_manifest"
  ct_bundles :: "string \<rightharpoonup> bundle_definition"

definition NewCatalog :: catalog where
  "NewCatalog = \<lparr>ct_manifests = Map.empty, ct_bundles = Map.empty\<rparr>"

definition catalog_Register :: "extension_manifest \<Rightarrow> catalog \<Rightarrow> catalog" where
  "catalog_Register m c = c\<lparr>ct_manifests := (ct_manifests c)(mf_Name m \<mapsto> m)\<rparr>"

definition catalog_LoadFromDir ::
  "json_lib \<Rightarrow> 'f os_calls \<Rightarrow> 'f \<Rightarrow> string \<Rightarrow> catalog \<Rightarrow> string option \<times> catalog" where
  "catalog_LoadFromDir J os f d c =
     (case DiscoverManifests J os f d of
        Inl err \<Rightarrow> (Some err, c)
      | Inr ms \<Rightarrow> (None, fold catalog_Register ms c))"

text \<open>The range over the bundles of the file writes each under its name, so its order does not matter.\<close>

definition catalog_LoadBundles ::
  "json_lib \<Rightarrow> 'f os_calls \<Rightarrow> 'f \<Rightarrow> string \<Rightarrow> catalog \<Rightarrow> string option \<times> catalog" where
  "catalog_LoadBundles J os f path c =
     (case LoadBundles J os f path of
        Inl err \<Rightarrow> (Some err, c)
      | Inr bf \<Rightarrow> (None, c\<lparr>ct_bundles := ct_bundles c ++ bf\<rparr>))"

definition catalog_Get :: "string \<Rightarrow> catalog \<Rightarrow> extension_manifest option" where
  "catalog_Get name c = ct_manifests c name"

definition catalog_List :: "string list \<Rightarrow> catalog \<Rightarrow> extension_manifest list" where
  "catalog_List ks c = map snd (range_map ks (ct_manifests c))"

definition catalog_ListByKind :: "string list \<Rightarrow> manifest_kind \<Rightarrow> catalog \<Rightarrow> extension_manifest list" where
  "catalog_ListByKind ks kind c = filter (\<lambda>m. mf_Kind m = kind) (catalog_List ks c)"

definition matchManifest :: "(string \<Rightarrow> string) \<Rightarrow> extension_manifest \<Rightarrow> string \<Rightarrow> bool" where
  "matchManifest ucase m q \<longleftrightarrow>
     contains (to_lower ucase (mf_Name m)) q \<or> contains (to_lower ucase (mf_DisplayName m)) q \<or>
     contains (to_lower ucase (mf_Description m)) q \<or>
     list_ex (\<lambda>kw. contains (to_lower ucase kw) q) (mf_Keywords m)"

definition catalog_Search :: "(string \<Rightarrow> string) \<Rightarrow> string list \<Rightarrow> string \<Rightarrow> catalog \<Rightarrow> extension_manifest list" where
  "catalog_Search ucase ks query c =
     (if query = [] then catalog_List ks c
      else let q = to_lower ucase query in
      filter (\<lambda>m. \<not> mf_Hidden m \<and> matchManifest ucase m q) (catalog_List ks c))"

definition GetBundle :: "string \<Rightarrow> catalog \<Rightarrow> bundle_definition option" where
  "GetBundle name c = ct_bundles c name"

definition ListBundles :: "string list \<Rightarrow> catalog \<Rightarrow> string list" where
  "ListBundles ks c = map fst (range_map ks (ct_bundles c))"

fun bundle_loop :: "catalog \<Rightarrow> string list \<Rightarrow> extension_manifest list" where
  "bundle_loop c [] = []"
| "bundle_loop c (ref # refs) =
     (case split_n2 (CHR ''/'') ref of
        [a, name] \<Rightarrow>
          (case catalog_Get name c of
             Some m \<Rightarrow> m # bundle_loop c refs
           | None \<Rightarrow> bundle_loop c refs)
      | _ \<Rightarrow> bundle_loop c refs)"

definition BundleExtensions :: "(string \<Rightarrow> string) \<Rightarrow> string \<Rightarrow> catalog \<Rightarrow> string + extension_manifest list" where
  "BundleExtensions quote bundleName c =
     (case GetBundle bundleName c of
        None \<Rightarrow> Inl (''bundle '' @ quote bundleName @ '' not found'')
      | Some b \<Rightarrow> Inr (bundle_loop c (bd_Extensions b)))"

definition AllEntries :: "(string \<Rightarrow> string) \<Rightarrow> string list \<Rightarrow> catalog \<Rightarrow> registry_entry list" where
  "AllEntries quote ks c =
     List.map_filter (\<lambda>m. case ToRegistryEntry quote m of Inl err \<Rightarrow> None | Inr e \<Rightarrow> Some e) (catalog_List ks c)"

section \<open>Properties\<close>

text \<open>What every manifest that was loaded or registered has.\<close>

definition manifest_ok :: "extension_manifest \<Rightarrow> bool" where
  "manifest_ok m \<longleftrightarrow> mf_Name m \<noteq> [] \<and> mf_Kind m \<noteq> [] \<and> mf_DisplayName m \<noteq> []"

lemma manifest_Validate_None: "manifest_Validate quote m = None \<longleftrightarrow> manifest_ok m"
  by (auto simp: manifest_Validate_def manifest_ok_def)

lemma LoadManifest_ok: "LoadManifest J os f p = Inr m \<Longrightarrow> manifest_ok m"
  using manifest_Validate_None [of "jl_quote J" m]
  by (auto simp: LoadManifest_def split: sum.splits option.splits)

lemma discovered_ok: "m \<in> set (discover_manifests_loop J os f d entries) \<Longrightarrow> manifest_ok m"
  by (induction entries) (auto split: if_splits sum.splits dest: LoadManifest_ok)

text \<open>
  C40: from the catalogue to the registry: the entry of a valid manifest is accepted by the entry registry, keeps
  name, version and visibility, and is found there under the manifest's name. A manifest yields no
  entry only when it is an MCP server without an address.
\<close>

theorem manifest_to_registry:
  assumes "manifest_ok m"
  shows "case ToRegistryEntry quote m of
      Inl err \<Rightarrow> mf_Kind m = MKindMcpServer \<and> mf_URL m = []
    | Inr e \<Rightarrow> re_Name e = mf_Name m \<and> re_Version e = mf_Version m \<and> re_Hidden e = mf_Hidden m \<and>
        re_Kind e = ToExtensionKind (mf_Kind m) \<and>
        entry_Register quote e r = (None, r(mf_Name m \<mapsto> e))"
proof -
  have "entry_Validate quote (toWasmRegistryEntry m) = None"
    using assms
    by (auto simp: entry_Validate_def toWasmRegistryEntry_def manifest_ok_def ToExtensionKind_def
        KindWasmTool_def KindWasmChannel_def KindMcpServer_def)
  with assms show ?thesis
    by (auto simp: ToRegistryEntry_def toMcpRegistryEntry_def manifest_ok_def entry_Validate_def
        entry_Register_def KindMcpServer_def ToExtensionKind_def MKindMcpServer_def MKindTool_def
        MKindChannel_def toWasmRegistryEntry_def)
qed

lemma manifest_to_registry_witness:
  "let m = \<lparr>mf_Name = ''slack'', mf_DisplayName = ''Slack'', mf_Kind = ''channel'', mf_Version = ''1'',
            mf_Description = [], mf_Keywords = [], mf_Source = None, mf_Artifacts = Map.empty,
            mf_AuthSummary = None, mf_Tags = [], mf_URL = [], mf_Auth = [], mf_Hidden = False\<rparr>
   in entry_Register id (toWasmRegistryEntry m) Map.empty = (None, [''slack'' \<mapsto> toWasmRegistryEntry m])"
  using manifest_to_registry [of "\<lparr>mf_Name = ''slack'', mf_DisplayName = ''Slack'', mf_Kind = ''channel'', mf_Version = ''1'',
            mf_Description = [], mf_Keywords = [], mf_Source = None, mf_Artifacts = Map.empty,
            mf_AuthSummary = None, mf_Tags = [], mf_URL = [], mf_Auth = [], mf_Hidden = False\<rparr>" id Map.empty]
  by (simp add: manifest_ok_def ToRegistryEntry_def MKindMcpServer_def)

text \<open>
  A pre-built module is preferred and the sources are its fallback; without one the sources are used.
\<close>

lemma prebuilt_preferred:
  assumes "mf_Artifacts m ''wasm32-wasip2'' = Some a" and "as_URL a \<noteq> []"
  shows "es_Type (re_Source (toWasmRegistryEntry m)) = ''wasm_download'' \<and>
    es_WasmURL (re_Source (toWasmRegistryEntry m)) = as_URL a \<and>
    re_FallbackSource (toWasmRegistryEntry m) = buildableSource m"
  using assms by (simp add: toWasmRegistryEntry_def wasm_source_def)

text \<open>
  The catalogue as a map: every name leads to the manifest registered last under it, and names are kept,
  so a manifest is found under its own name. Loading a directory registers its manifests in order.
\<close>

definition catalog_ok :: "catalog \<Rightarrow> bool" where
  "catalog_ok c \<longleftrightarrow> (\<forall>k m. ct_manifests c k = Some m \<longrightarrow> mf_Name m = k)"

interpretation manifests: keyed_map "\<lambda>c k. catalog_Get k c" "\<lambda>k m c. c\<lparr>ct_manifests := (ct_manifests c)(k \<mapsto> m)\<rparr>"
  by unfold_locales (simp add: catalog_Get_def)

lemma catalog_Register_fold:
  "fold catalog_Register ms c =
     fold (\<lambda>(k, m). \<lambda>c. c\<lparr>ct_manifests := (ct_manifests c)(k \<mapsto> m)\<rparr>) (map (\<lambda>m. (mf_Name m, m)) ms) c"
  by (induction ms arbitrary: c) (simp_all add: catalog_Register_def)

lemma load_dir_lookup:
  assumes "DiscoverManifests J os f d = Inr ms"
  shows "catalog_Get k (snd (catalog_LoadFromDir J os f d c)) =
     (case map_of (rev (map (\<lambda>m. (mf_Name m, m)) ms)) k of Some m \<Rightarrow> Some m | None \<Rightarrow> catalog_Get k c)"
proof -
  have "snd (catalog_LoadFromDir J os f d c) = fold catalog_Register ms c"
    using assms by (simp add: catalog_LoadFromDir_def)
  then show ?thesis
    unfolding catalog_Register_fold by (simp only: manifests.look_put_all)
qed

lemma Register_keeps_ok: "catalog_ok c \<Longrightarrow> catalog_ok (catalog_Register m c)"
  by (simp add: catalog_Register_def catalog_ok_def)

lemma load_keeps_ok: "catalog_ok c \<Longrightarrow> catalog_ok (snd (catalog_LoadFromDir J os f d c))"
proof -
  have "catalog_ok (fold catalog_Register ms c)" if "catalog_ok c" for ms c
    using that by (induction ms arbitrary: c) (simp_all add: Register_keeps_ok)
  then show "catalog_ok c \<Longrightarrow> catalog_ok (snd (catalog_LoadFromDir J os f d c))"
    by (auto simp: catalog_LoadFromDir_def split: sum.splits)
qed

text \<open>
  A search for a text shows no hidden manifest, but the empty search lists them all.
\<close>

lemma search_hides:
  assumes "query \<noteq> []" and "m \<in> set (catalog_Search ucase ks query c)"
  shows "\<not> mf_Hidden m \<and> matchManifest ucase m (to_lower ucase query)"
  using assms by (simp add: catalog_Search_def Let_def)

lemma empty_search_shows_hidden: "catalog_Search ucase ks [] c = catalog_List ks c"
  by (simp add: catalog_Search_def)

text \<open>Bundle members are looked up by the part after the first slash; a reference without one is skipped.\<close>

lemma bundle_member:
  assumes "CHR ''/'' \<notin> set a" and "catalog_Get name c = Some m"
  shows "bundle_loop c ((a @ CHR ''/'' # name) # refs) = m # bundle_loop c refs"
  using assms by (simp add: split_n2_def cut_append)

end
