(* ===== verification/Spec2Isabelle.thy ===== *)
theory Spec2Isabelle
  imports Application Postgres_Agreement History Orchestrator Worker_Pool Event_Hub Extension_Catalog
begin

text \<open>
  Verification of ironclaw-go, a personal assistant that puts a language model behind several input
  channels and lets it use tools under a safety layer and an approval process.

  \<^bold>\<open>The program.\<close> Messages enter through channels (terminal, HTTP gateway, webhooks, WebSocket) and are merged
  by the channel manager (\<open>internal/channels\<close>). The agent (\<open>internal/agent\<close>) takes one message after the
  other: hooks may reject it, documents are extracted from its attachments, the router turns its text into an
  intent, and an intent is answered by the language model (\<open>internal/llm\<close>), by a tool call or by a system
  command. Every tool call goes through the dispatcher (\<open>internal/tools\<close>): allow list, registry, rate limit,
  approval gates (\<open>internal/gate\<close>), execution, sanitizing (\<open>internal/safety\<close>), audit. A call that needs
  approval pauses; the paused conversation is kept in the session manager, the request in the pending store,
  and an approval over HTTP or by command lets it resume. Responses are broadcast to all channels, events go
  to subscribers of the gateway's event hub. Conversations, jobs and audit records are kept by a database, in
  memory or in PostgreSQL (\<open>internal/db\<close>), and read by the history queries; a worker pool runs submitted jobs
  through the same dispatcher. \<open>internal/app/builder.go\<close> wires the parts.

  \<^bold>\<open>Theories and sources.\<close>
  \<^item> \<open>Go_Prelude\<close>, \<open>Go_Regexp\<close>, \<open>Go_Runes\<close>, \<open>Go_Base64\<close>: what the code uses of Go and its standard library
    (slices, strings, maps, time, 64-bit integers, UTF-8, regular expressions, base64), the generic lemmas, runs
    of labelled steps, and the interfaces as locales: \<open>keyed_map\<close>, \<open>keyed_store\<close>, \<open>step_invariant\<close>.
  \<^item> Safety: \<open>Policy\<close> (\<open>safety/policy\<close>, \<open>safety/validator\<close>), \<open>Leak_Detector\<close> (\<open>safety/leakdetector\<close>),
    \<open>Rate_Limit\<close>, \<open>Safety_Layer\<close> (\<open>safety/sanitizer\<close> and \<open>safety/layer.go\<close>).
  \<^item> Approval: \<open>Gate\<close> (\<open>gate/gate.go\<close>, \<open>gate/risk.go\<close>), \<open>Pending_Store\<close> (\<open>gate/store.go\<close>).
  \<^item> Tools: \<open>Tools\<close> (\<open>tools/registry.go\<close>, \<open>tools/dispatch.go\<close>), \<open>Workspace\<close> and \<open>Builtin_Tools\<close>
    (\<open>workspace\<close>, \<open>tools/builtin\<close>).
  \<^item> Agent: \<open>Hooks\<close>, \<open>Skills\<close>, \<open>Session\<close>, \<open>Router\<close>, \<open>Document\<close> (\<open>document/extract.go\<close>,
    \<open>document/middleware.go\<close>), \<open>LLM_Types\<close>, \<open>LLM_Clients\<close> (\<open>llm\<close>), \<open>Agent\<close> (\<open>agent/agent.go\<close>).
  \<^item> Channels: \<open>Channel_Types\<close>, \<open>Channel_Manager\<close> (\<open>channels/manager.go\<close>), \<open>Gateway\<close> and \<open>Event_Hub\<close>
    (\<open>channels/httpgw\<close>), \<open>Input_Channels\<close> (terminal, webhooks, WebSocket).
  \<^item> Storage: \<open>Memory_DB\<close> (\<open>db/db.go\<close>, \<open>db/memory.go\<close>), \<open>Postgres_DB\<close> and \<open>Postgres_Agreement\<close>
    (\<open>db/postgres.go\<close>), \<open>History\<close> (\<open>history\<close>), \<open>Secrets\<close> (\<open>secrets\<close>).
  \<^item> Jobs: \<open>Orchestrator\<close> (\<open>orchestrator\<close>), \<open>Worker\<close>, \<open>Worker_Pool\<close> (\<open>worker/worker.go\<close>).
  \<^item> Administration: \<open>Accounts\<close> (\<open>ownership\<close>, \<open>auth\<close>, \<open>errors\<close>), \<open>Config\<close> (\<open>config\<close>), \<open>Extensions\<close> and
    \<open>Extension_Catalog\<close> (\<open>extensions\<close>, \<open>registry\<close>), \<open>Application\<close> (\<open>app/builder.go\<close>, \<open>cmd/ironclaw\<close>,
    \<open>observability\<close>, \<open>rpc\<close>).

  A struct is a record with a prefix per type, an enumeration a datatype, a method a definition under its Go
  name (in lower case with underscores in the older theories, with the component's name in front where two
  components share a name), a loop a recursive function over what it ranges over.

  \<^bold>\<open>Conventions.\<close> State is passed explicitly; an operation that holds the component's mutex is one atomic step,
  and goroutines are step relations over such steps whose order is the order of the labels in a run. A panic
  is \<^const>\<open>None\<close> (or a constructor of its own where an error value is returned as well), an error is \<^const>\<open>Inl\<close>
  with its text. \<open>time.Now()\<close>, \<open>uuid.New()\<close> and the order of a range over a map are arguments. Instants and
  durations are integers (nanoseconds); sums of \<open>int\<close> values wrap at 64 bits where the code does not bound them;
  floating-point numbers are rationals. A Go channel is its buffer with its capacity. Code outside the
  repository is a parameter: the operating system, \<open>net/http\<close>, JSON and TOML codecs, ciphers, ZIP and XML
  readers, the PostgreSQL server with its driver, the generated gRPC stub. Where a property needs a law of such
  a parameter, the law is a hypothesis and a witness instantiates the parameter.

  \<^bold>\<open>What is shown.\<close>
  \<^item> Tool calls: a tool runs exactly when every check passes; what it returns is sanitized and carries none of
    the secrets the detector knows; approvals are consumed once, expire, and a denied or expired request does
    not run; a paused call resumes where it stopped; high-risk calls are never run unasked.
  \<^item> Agent: every tool call of a model's answer is answered and the model is asked with all the answers; a round
    that is interrupted is taken up at the call it stopped at, without the answers it had before; conversations
    keep their shape, turns go to the active thread, messages of one user do not reach another's session.
  \<^item> Channels: while it runs, the manager neither loses nor duplicates messages and can always deliver; the
    gateway answers a chat only with what the agent sent, in every run from any configuration; an event reaches
    exactly the subscriptions of its user and thread; the terminal's lines arrive in order, but for the last one
    at a shutdown; which answer the webhook server gives to which request, and when it waits.
  \<^item> Storage: a thread's history is the log of its messages, pages cover it; PostgreSQL's tables stay
    consistent under every behaviour of the server, and the two back ends agree on the calls that both carry out
    without a fault; analytics count what is there; secrets are read back as stored.
  \<^item> Files, documents, jobs: paths stay inside a user's directory; extraction is bounded and keeps
    characters whole; the worker pool keeps to its limit and its stop is final; a job that is run on the
    in-memory database is settled; job states and counts are those of the jobs.
  \<^item> End to end, below: approval over HTTP, identities of the built gateway, the audit of tool calls.

  \<^bold>\<open>Bounds and fuel.\<close> No function of the model takes fuel: loops are recursive over their input, or by a
  measure that decreases. Bounds (queue capacities, sizes, retention times) are the constants of the code.

  \<^bold>\<open>Not modelled.\<close> The Rust sidecar and the code generated for gRPC, the web page, the listening sockets and
  the wire formats. Tests and documentation are no implementation.

  \<^bold>\<open>Plan.\<close> Next: liveness of whole conversations across the channel manager and the agent, the gateway's
  event stream composed with the dispatcher's events, and the extension manager composed with the registry.
\<close>

section \<open>Properties of the whole application\<close>

text \<open>
  C3: a tool call of high risk (a shell command, deleting a file, writing to an outside address) never runs
  unasked in the application as it is built, even with automatic approval of all tools configured: unless an
  approval is waiting on its thread, the call leaves the world as it was and returns an error.
\<close>

theorem high_risk_never_unasked:
  assumes "Build L b cfg = Inr a" and "d_gates d = d_gates (st_disp (ap_State a))"
    and "assess_risk n (the_params ps) = RiskHigh" and "resolved (d_pendingStore d) (jc_ThreadID j) = None"
  shows "dr_world (dispatch env n ps j d w) = w \<and> isl (dr_result (dispatch env n ps j d w)) \<and>
    dr_audits (dispatch env n ps j d w) = []"
proof -
  have gates: "d_gates d = [risk_gate]"
    using assms(1,2) by (simp add: build_state)
  have paused: "gate_result env n ps j d w = GatePaused"
    using assms(3,4) by (simp add: gate_result_def gates risk_gate_def dispatch_context_def approval_gate_evaluate_def
        risk_evaluate_def after_checks_def)
  show ?thesis
  proof (cases "Tools.admitted env n j d")
    case True
    then show ?thesis
      by (simp add: dispatch_admitted paused refuse_def Let_def split: prod.splits)
  next
    case False
    then obtain e d' where "dispatch env n ps j d w = refuse e d' w"
      by (rule dispatch_not_admitted)
    then show ?thesis by (simp add: refuse_def)
  qed
qed

text \<open>An application to try the properties on: nothing outside answers, the HTTP gateway is on.\<close>

definition demo_lib :: "unit app_lib" where
  "demo_lib =
     \<lparr>al_quote = id, al_ucase = id, al_connect = (\<lambda>_ _ _. Inl []), al_engine = demo_engine, al_ping = (\<lambda>_ _. None),
      al_os = \<lparr>os_Stat = (\<lambda>_ _. Inl []), os_ReadFile = (\<lambda>_ _. Inl []), os_MkdirAll = (\<lambda>_ w. (None, w)),
        os_WriteFile = (\<lambda>_ _ w. (None, w)), os_ReadDir = (\<lambda>_ _. Inl []), os_Remove = (\<lambda>_ w. (None, w))\<rparr>,
      al_web = \<lparr>hc_Scheme = (\<lambda>_. Inl []), hc_NewRequest = (\<lambda>_ _. None), hc_Do = (\<lambda>_ _ _ _ w. (Inl [], w))\<rparr>,
      al_json = \<lparr>jx_Unmarshal = (\<lambda>_. Inl []), jx_Marshal = (\<lambda>_. Inl []), jx_MarshalIndent = (\<lambda>_. Inl [])\<rparr>,
      al_format = (\<lambda>_. []), al_headers = (\<lambda>_. []), al_entries = (\<lambda>_. []), al_shell = (\<lambda>_ _ w. (([], None), w)),
      al_clock = (\<lambda>_. ''noon''),
      al_services = \<lparr>hl_Marshal = (\<lambda>_. Inl []), hl_NewRequest = (\<lambda>_. None), hl_Do = (\<lambda>_ _ _ w. (Inl [], w)),
        hl_DecodeOpenAI = (\<lambda>_. Inl []), hl_DecodeAnthropic = (\<lambda>_. Inl []), hl_DecodeOllama = (\<lambda>_. Inl []),
        hl_DecodeGemini = (\<lambda>_. Inl []), hl_MarshalArgs = (\<lambda>_. [])\<rparr>,
      al_documents = \<lparr>dl_zip = (\<lambda>_. Inl []), dl_xml = (\<lambda>_. []), dl_ucase = id\<rparr>,
      al_arguments = (\<lambda>_. Inr None), al_tools = [], al_channels = [''repl'', ''http'', ''webhook''], al_now = 0\<rparr>"

definition demo_cfg :: config where
  "demo_cfg = DefaultConfig\<lparr>cf_APIKey := ''key'', cf_Channels := (cf_Channels DefaultConfig)\<lparr>cc_HTTP := True\<rparr>\<rparr>"

definition demo_app :: "unit app" where
  "demo_app = projr (Build demo_lib () demo_cfg)"

lemma demo_build: "Build demo_lib () demo_cfg = Inr demo_app"
  by (simp add: demo_app_def Build_def demo_cfg_def DefaultConfig_def db_New_def Let_def)

definition demo_call_env :: "string \<Rightarrow> dispatch_env" where
  "demo_call_env i = \<lparr>de_rate = 0, de_consume = 0, de_gate = 0, de_create = 0, de_start = 0, de_stop = 0,
      de_uuid = i, de_order = []\<rparr>"

definition demo_caller :: job_context where
  "demo_caller = \<lparr>jc_UserID = ''u'', jc_JobID = [], jc_ThreadID = ''t''\<rparr>"

lemma high_risk_never_unasked_witness:
  "assess_risk ''shell'' (the_params None) = RiskHigh \<and>
   dr_world (dispatch (demo_call_env ''r'') ''shell'' None demo_caller (st_disp (ap_State demo_app)) (st_world (ap_State demo_app))) =
     st_world (ap_State demo_app)"
  using high_risk_never_unasked [OF demo_build refl, of "''shell''" None demo_caller]
  by (simp add: assess_risk_def build_state [OF demo_build] new_pending_store_def)

text \<open>
  C4: approval over HTTP, through the whole application: a paused tool call is approved by a request that names
  its identifier and thread before it expires, and the same call dispatched again then runs, on the state
  the gateway left, if the rate limiter still grants it. The identifier is one the store has not used up.
\<close>

theorem http_approval_runs_tool:
  fixes a :: "'f app"
  assumes "d = st_disp (ap_State a)" and "w = st_world (ap_State a)"
    and "a1 = a\<lparr>ap_State := (ap_State a)\<lparr>st_disp := dr_dispatcher (dispatch env n ps j d w)\<rparr>\<rparr>"
    and "cw_gateway (ap_ChanWorld a) = Some g" and "dr_result (dispatch env n ps j d w) = Inl (Paused n rid desc)"
    and "hr_Path r = ''/api/gates/approve''" and "hr_Method r = ''POST''"
    and "gl_decodeGate GL (hr_Body r) = Inr req" and "gr_RequestID req = rid"
    and "gr_ThreadID req = jc_ThreadID j" and "jc_ThreadID j \<noteq> []"
    and "en_now GE \<le> de_create env + ttl (d_pendingStore d)"
    and "consumed (d_pendingStore (st_disp (ap_State a1))) rid = None"
    and "fst (allow (de_rate env') (jc_UserID j @ ''/'' @ n) (d_rateLimiter (st_disp (ap_State a1))))"
  shows "\<exists>a2. app_serve L GL GE r a1 = Some (http_ok (ApprovedReply rid n), a2) \<and>
    dr_world (dispatch env' n ps j (st_disp (ap_State a2)) (st_world (ap_State a2))) =
      snd (t_Execute (the (registry_get n (d_registry d))) ps j (st_world (ap_State a2)))"
proof -
  let ?d1 = "dr_dispatcher (dispatch env n ps j d w)"
  obtain pg where p: "Tools.admitted env n j d" "byKey (d_pendingStore ?d1) (jc_ThreadID j) = Some pg" "pg_RequestID pg = rid"
    "pg_ToolName pg = n" "pg_ExpiresAt pg = de_create env + ttl (d_pendingStore d)"
    "resolved (d_pendingStore ?d1) (jc_ThreadID j) = None"
    "d_registry ?d1 = d_registry d" "d_allowed ?d1 = d_allowed d"
    using dispatch_pause_state [OF assms(5)] by metis
  have d1: "st_disp (ap_State a1) = ?d1" and w1: "st_world (ap_State a1) = w"
    using assms(2,3) by simp_all
  let ?g = "shared_gateway L a1 g"
  define u where "u = or_else (or_else (gr_UserID req) (authenticatedUserID r ?g)) ''anonymous''"
  obtain st where res: "ps_resolve (en_now GE) u (jc_ThreadID j) rid (d_pendingStore ?d1) = (Inr (Some pg), st)"
      and st: "resolved st (jc_ThreadID j) = Some pg"
    using assms(12,13) p d1
    by (simp add: ps_resolve_def ps_resolve_pending_def store_key_def is_expired_def Let_def)
  have adm: "gate_admit GL r ?g = Inr (req\<lparr>gr_UserID := u\<rparr>)"
    using assms(7,8,10,11) by (simp add: gate_admit_def u_def Let_def)
  define g' where "g' = ?g\<lparr>gw_pendingStore := Some st, gw_riskEvaluator :=
    map_option (record_approval (en_now GE) n (pg_Params pg) u) (gw_riskEvaluator ?g)\<rparr>"
  have "handleGateApprove GL GE r ?g = (http_ok (ApprovedReply rid n), g')"
    using adm res assms(9,10) p(4) d1 by (simp add: handleGateApprove_def g'_def shared_gateway_def)
  then have "app_serve L GL GE r a1 = Some (http_ok (ApprovedReply rid n), take_shared g' a1)"
    using assms(3,4,6) by (simp add: app_serve_def serve_def mux_route_def)
  moreover have d2: "st_disp (ap_State (take_shared g' a1)) = ?d1\<lparr>d_pendingStore := st\<rparr>"
    by (simp add: take_shared_def g'_def d1 Let_def)
  moreover have "cleared env' n ps j (?d1\<lparr>d_pendingStore := st\<rparr>) w2" for w2
    using assms(14) st p d1 by (auto simp: cleared_def Tools.admitted_def)
  ultimately show ?thesis
    using p(7) by (simp add: dispatch_cleared run_tool_world)
qed

lemma demo_pause:
  "dispatch (demo_call_env ''r1'') ''shell'' None demo_caller (st_disp (ap_State demo_app)) w =
     refuse (Paused ''shell'' ''r1'' (describe_pending ''shell'' Map.empty))
       ((after_checks (demo_call_env ''r1'') ''shell'' demo_caller (st_disp (ap_State demo_app)))
          \<lparr>d_pendingStore := snd (ps_create 0 [] ''r1'' ''u'' ''t'' ''shell'' Map.empty ''repl''
             (d_pendingStore (after_checks (demo_call_env ''r1'') ''shell'' demo_caller (st_disp (ap_State demo_app)))))\<rparr>) w"
proof -
  let ?d = "build_dispatcher demo_lib demo_cfg" and ?e = "demo_call_env ''r1''"
  have g: "gate_result ?e ''shell'' None demo_caller ?d w = GatePaused"
    by (simp add: gate_result_def risk_gate_def dispatch_context_def approval_gate_evaluate_def risk_evaluate_def
        assess_risk_def new_pending_store_def)
  have adm: "Tools.admitted ?e ''shell'' demo_caller ?d"
    using shell_known by (simp add: Tools.admitted_def new_build_rates allow_def new_rate_limiter_def)
  show ?thesis
    unfolding build_state(1) [OF demo_build] dispatch_admitted [OF adm] g
    by (simp add: ps_create_def Let_def demo_call_env_def demo_caller_def the_params_def)
qed

lemma http_approval_runs_tool_witness:
  "\<exists>a1 a2. app_serve demo_lib demo_gw_lib \<lparr>en_now = 5, en_convs = [], en_jobs = [], en_tools = [], en_gates = []\<rparr>
       (demo_post ''/api/gates/approve'' ''r1'') a1 = Some (http_ok (ApprovedReply ''r1'' ''shell''), a2) \<and>
     dr_world (dispatch (demo_call_env ''r2'') ''shell'' None demo_caller (st_disp (ap_State a2)) (st_world (ap_State a2))) =
       snd (t_Execute (the (registry_get ''shell'' (build_registry demo_lib))) None demo_caller (st_world (ap_State a2)))"
proof -
  let ?d = "st_disp (ap_State demo_app)" and ?w = "st_world (ap_State demo_app)"
  let ?r = "dispatch (demo_call_env ''r1'') ''shell'' None demo_caller ?d ?w"
  let ?a1 = "demo_app\<lparr>ap_State := (ap_State demo_app)\<lparr>st_disp := dr_dispatcher ?r\<rparr>\<rparr>"
  obtain g where g: "cw_gateway (ap_ChanWorld demo_app) = Some g"
    by (simp add: demo_app_def Build_def demo_cfg_def DefaultConfig_def db_New_def Let_def)
  have "dr_result ?r = Inl (Paused ''shell'' ''r1'' (describe_pending ''shell'' Map.empty))"
    by (simp add: demo_pause refuse_def)
  moreover have "consumed (d_pendingStore (st_disp (ap_State ?a1))) ''r1'' = None"
    by (simp add: demo_pause refuse_def)
       (simp add: ps_create_def Let_def after_checks_def ps_consume_resolved_def store_key_def
        build_state(1) [OF demo_build] new_pending_store_def demo_caller_def)
  moreover have "fst (allow 0 (jc_UserID demo_caller @ ''/'' @ ''shell'') (d_rateLimiter (st_disp (ap_State ?a1))))"
    by (simp add: demo_pause refuse_def)
       (simp add: after_checks_def build_state(1) [OF demo_build] new_build_rates allow_def
        new_rate_limiter_def demo_caller_def demo_call_env_def)
  ultimately show ?thesis
    using http_approval_runs_tool [OF refl refl refl g, of "demo_call_env ''r1''" "''shell''" None demo_caller "''r1''" _
        "demo_post ''/api/gates/approve'' ''r1''" demo_gw_lib "\<lparr>gr_RequestID = ''r1'', gr_UserID = ''u'', gr_ThreadID = ''t''\<rparr>"
        "\<lparr>en_now = 5, en_convs = [], en_jobs = [], en_tools = [], en_gates = []\<rparr>" "demo_call_env ''r2''" demo_lib]
    by (simp add: demo_post_def demo_gw_lib_def build_state(1) [OF demo_build] new_pending_store_def)
       (auto simp: demo_caller_def demo_call_env_def)
qed

text \<open>
  C26: with an API key configured, the gateway of the built application takes a chat request with that key as
  the owner's, under the name \<open>anonymous\<close> if the owner has none, and refuses one with another key; a request
  without a key is taken under the name it gives, or as \<open>anonymous\<close>.
\<close>

theorem built_gateway_identity:
  assumes "Build L b cfg = Inr a" and "cf_APIKey cfg \<noteq> []"
    and "cw_gateway (ap_ChanWorld a) = Some g"
    and "hr_Method r = ''POST''" and "gl_decodeChat GL (hr_Body r) = Inr req" and "cq_Content req \<noteq> []"
  shows "chat_admit GL r g =
     (if cq_APIKey req = [] then Inr (req\<lparr>cq_UserID := or_else (cq_UserID req) ''anonymous''\<rparr>)
      else if cq_APIKey req = cf_APIKey cfg then Inr (req\<lparr>cq_UserID := or_else (cf_OwnerID cfg) ''anonymous''\<rparr>)
      else Inl (http_error (json_error ''unauthorized'') 401))"
proof -
  have "gw_authenticator g = Some (build_auth cfg)"
    using assms(1,3)
    by (auto simp: Build_def Let_def build_gateway_def WithAuth_def WithHistory_def WithVersion_def WithPendingStore_def
        WithRiskEvaluator_def RegisterHealthCheck_def split: sum.splits if_splits)
  with assms(2,4-6) show ?thesis
    by (cases req) (auto simp: chat_admit_def Let_def or_else_def build_auth_def authenticate_def new_api_key_auth_def)
qed

lemma built_gateway_identity_witness:
  "\<exists>g. cw_gateway (ap_ChanWorld demo_app) = Some g \<and>
     chat_admit (demo_gw_lib\<lparr>gl_decodeChat := (\<lambda>b. Inr \<lparr>cq_UserID = ''eve'', cq_Content = ''hi'', cq_ThreadID = [],
         cq_APIKey = ''key'', cq_Attachments = []\<rparr>)\<rparr>) (demo_post ''/api/chat'' []) g =
       Inr \<lparr>cq_UserID = ''owner'', cq_Content = ''hi'', cq_ThreadID = [], cq_APIKey = ''key'', cq_Attachments = []\<rparr>"
proof -
  obtain g where g: "cw_gateway (ap_ChanWorld demo_app) = Some g"
    by (simp add: demo_app_def Build_def demo_cfg_def DefaultConfig_def db_New_def Let_def)
  show ?thesis
    using built_gateway_identity [OF demo_build _ g, of "demo_post ''/api/chat'' []"
        "demo_gw_lib\<lparr>gl_decodeChat := (\<lambda>b. Inr \<lparr>cq_UserID = ''eve'', cq_Content = ''hi'', cq_ThreadID = [],
         cq_APIKey = ''key'', cq_Attachments = []\<rparr>)\<rparr>"]
    by (simp add: g demo_post_def demo_cfg_def DefaultConfig_def or_else_def)
qed

text \<open>
  An audited tool call of the agent belongs to no job. With PostgreSQL its record refers to a job that does
  not exist and is refused, so the audit of the agent's calls leaves no trace, where the in-memory back end
  keeps it.
\<close>

lemma audit_lost_in_postgres:
  assumes "find (\<lambda>x. job_ID x = jc_JobID (au_JobCtx c)) (t_jobs d) = None"
  shows "audit fmt (Some (postgres_database E)) now uid c d = d \<and>
    length (actions (audit fmt (Some memory_database) now uid c m) (jc_JobID (au_JobCtx c))) =
      Suc (length (actions m (jc_JobID (au_JobCtx c))))"
  using assms
  by (auto simp: audit_def postgres_database_def memory_database_def save_action_record_def record_without_job_refused)

text \<open>
  On the in-memory database a job that is run is always settled. With PostgreSQL the last update of a job can
  fail, its error is ignored, and the job stays as it was, that is, running.
\<close>

lemma final_update_lost:
  "pe_fault E 0 = Some (err, False) \<Longrightarrow> job_end (postgres_database E) q now j r st = st"
  by (simp add: job_end_def postgres_database_def pg_UpdateJobStatus_def wrapped_def sql_exec_def split: sum.split)

end
